theory Spec2Isabelle
  imports Complex_Main "HOL-Library.Sublist" "HOL-Library.Multiset"
begin

section \<open>Strings\<close>

text \<open>
  A JavaScript string is modelled as a list of 8-bit characters, read as the code units
  0..255 (Latin-1).  All keyword tables of the service are ASCII, so the restriction only
  concerns what a message or a reply may contain.
\<close>

definition isUpper :: "char \<Rightarrow> bool" where
  "isUpper c = (let n = of_char c :: nat in
     (65 \<le> n \<and> n \<le> 90) \<or> (192 \<le> n \<and> n \<le> 222 \<and> n \<noteq> 215))"

text \<open>\<^verbatim>\<open>String.prototype.toLowerCase\<close> on one Latin-1 code unit: A-Z and the accented
  capitals 0xC0-0xDE (without the multiplication sign 0xD7) move up by 32.\<close>

definition lowerChar :: "char \<Rightarrow> char" where
  "lowerChar c = (if isUpper c then char_of (of_char c + (32::nat)) else c)"

definition toLowerCase :: "string \<Rightarrow> string" where
  "toLowerCase s = map lowerChar s"

text \<open>\<^verbatim>\<open>s.includes(sub)\<close>: \<open>sub\<close> occurs in \<open>s\<close> as a contiguous block.\<close>

fun includesStr :: "string \<Rightarrow> string \<Rightarrow> bool" where
  "includesStr [] sub = (sub = [])"
| "includesStr (c # cs) sub = (prefix sub (c # cs) \<or> includesStr cs sub)"

text \<open>\<^verbatim>\<open>indicators.some(i => message.toLowerCase().includes(i.toLowerCase()))\<close>\<close>

definition someIncluded :: "string list \<Rightarrow> string \<Rightarrow> bool" where
  "someIncluded indicators message =
     list_ex (\<lambda>indicator. includesStr (toLowerCase message) (toLowerCase indicator)) indicators"

definition isDigit :: "char \<Rightarrow> bool" where
  "isDigit c = (let n = of_char c :: nat in 48 \<le> n \<and> n \<le> 57)"

text \<open>The regular-expression class \<^verbatim>\<open>\s\<close> within Latin-1: tab, line feed, vertical tab,
  form feed, carriage return, space and the no-break space.\<close>

definition isSpace :: "char \<Rightarrow> bool" where
  "isSpace c = (let n = of_char c :: nat in (9 \<le> n \<and> n \<le> 13) \<or> n = 32 \<or> n = 160)"

definition digitVal :: "char \<Rightarrow> nat" where
  "digitVal c = of_char c - 48"

text \<open>The number that a string of decimal digits writes.\<close>

definition decimalValue :: "string \<Rightarrow> nat" where
  "decimalValue ds = foldl (\<lambda>acc c. 10 * acc + digitVal c) 0 ds"

text \<open>
  A JavaScript number is a double.  The numbers that arise from \<^verbatim>\<open>parseInt\<close> on decimal
  digits are the non-negative integers that a double can hold, and \<^verbatim>\<open>Infinity\<close>.
\<close>

datatype jsNumber = Finite nat | PosInfinity

text \<open>The number of binary digits of \<open>n\<close>: \<open>bitLength n \<le> k\<close> means \<open>n < 2 ^ k\<close>.\<close>

fun bitLength :: "nat \<Rightarrow> nat" where
  "bitLength n = (if n = 0 then 0 else Suc (bitLength (n div 2)))"

declare bitLength.simps [simp del]

text \<open>
  The double nearest to a non-negative integer, as the conversion of a mathematical value
  to a Number is defined: an integer of at most 53 binary digits is itself; a longer one
  keeps its 53 leading binary digits, rounded to nearest with ties to the even
  significand; from \<open>2^1024 - 2^970\<close> on the result is \<^verbatim>\<open>Infinity\<close>.
\<close>

definition toDouble :: "nat \<Rightarrow> jsNumber" where
  "toDouble n =
     (let b = bitLength n
      in if b \<le> 53 then Finite n
         else (let e = b - 53;
                   q = n div 2 ^ e;
                   r = n mod 2 ^ e;
                   q' = (if 2 * r > 2 ^ e \<or> (2 * r = 2 ^ e \<and> odd q) then q + 1 else q)
               in if bitLength q' + e > 1024 then PosInfinity else Finite (q' * 2 ^ e)))"

text \<open>\<^verbatim>\<open>parseInt\<close> on a string of decimal digits (the only strings it receives here):
  the number written, as a double.  (The language lets an implementation disregard the
  digits after the twentieth; the value here is the correctly rounded one.)\<close>

definition parseInt :: "string \<Rightarrow> jsNumber" where
  "parseInt ds = toDouble (decimalValue ds)"

definition digitChar :: "nat \<Rightarrow> char" where
  "digitChar n = char_of (48 + n)"

text \<open>Decimal rendering of a non-negative integer inside a template string.\<close>

fun showNat :: "nat \<Rightarrow> string" where
  "showNat n = (if n < 10 then [digitChar n] else showNat (n div 10) @ [digitChar (n mod 10)])"

declare showNat.simps [simp del]

definition showInt :: "int \<Rightarrow> string" where
  "showInt i = (if i < 0 then CHR ''-'' # showNat (nat (- i)) else showNat (nat i))"

text \<open>\<^verbatim>\<open>parts.join(sep)\<close>\<close>

fun joinWith :: "string \<Rightarrow> string list \<Rightarrow> string" where
  "joinWith sep [] = []"
| "joinWith sep [l] = l"
| "joinWith sep (l # ls) = l @ sep @ joinWith sep ls"

definition nl :: string where
  "nl = [CHR 0x0A]"

definition dq :: string where
  "dq = [CHR 0x22]"

definition ap :: string where
  "ap = [CHR 0x27]"

text \<open>A template string written over several source lines.\<close>

definition joinLines :: "string list \<Rightarrow> string" where
  "joinLines ls = joinWith nl ls"

section \<open>Intent detection\<close>

text \<open>The keyword tables of \<^verbatim>\<open>sendChatMessage\<close>, in source order.\<close>

definition specificSearchIndicators :: "string list" where
  "specificSearchIndicators =
    [''show me'', ''tampilkan'', ''cari yang'', ''search for'', ''find me'',
     ''dengan budget'', ''with budget'', ''harga'', ''price range'', ''under'', ''di bawah'',
     ''beli sekarang'', ''buy now'', ''add to cart'', ''tambah ke keranjang'',
     ''rekomendasi'', ''recommend'', ''suggest'', ''pilihkan'', ''i want to buy'',
     ''looking for with'', ''need something with'', ''budget of'', ''around'']"

definition hasSpecificIntent :: "string \<Rightarrow> bool" where
  "hasSpecificIntent message = someIncluded specificSearchIndicators message"

definition hasDetailedRequirements :: "string \<Rightarrow> bool" where
  "hasDetailedRequirements message =
    (length message > 25 \<and>
      (includesStr (toLowerCase message) ''untuk'' \<or>
       includesStr (toLowerCase message) ''for'' \<or>
       includesStr (toLowerCase message) ''gaming'' \<or>
       includesStr (toLowerCase message) ''photography'' \<or>
       includesStr (toLowerCase message) ''business'' \<or>
       includesStr (toLowerCase message) ''budget'' \<or>
       includesStr (toLowerCase message) ''range'' \<or>
       includesStr (toLowerCase message) ''style'' \<or>
       includesStr (toLowerCase message) ''work'' \<or>
       includesStr (toLowerCase message) ''daily'' \<or>
       includesStr (toLowerCase message) ''professional''))"

definition isAnsweringQuestions :: "string \<Rightarrow> bool" where
  "isAnsweringQuestions message =
    (includesStr (toLowerCase message) ''mainly'' \<or>
     includesStr (toLowerCase message) ''mostly'' \<or>
     (includesStr message ''$'' \<and> includesStr message ''-'') \<or>
     (includesStr (toLowerCase message) ''rp'' \<and> (includesStr message ''-'' \<or> includesStr message ''juta'')) \<or>
     includesStr (toLowerCase message) ''prefer'' \<or>
     includesStr (toLowerCase message) ''important'' \<or>
     includesStr (toLowerCase message) ''need it for'')"

definition followUpIndicators :: "string list" where
  "followUpIndicators =
    [''is there any other'', ''are there any other'', ''any other option'', ''any other choice'',
     ''what else'', ''anything else'', ''other options'', ''other choices'', ''alternatives'',
     ''show me more'', ''more options'', ''different'', ''another'', ''else'',
     ''how about'', ''what about'', ''can you show'', ''do you have'',
     ''any more'', ''more of'', ''similar'', ''like this'', ''comparable'']"

definition isFollowUpQuestion :: "string \<Rightarrow> bool" where
  "isFollowUpQuestion message = someIncluded followUpIndicators message"

definition purchaseIndicators :: "string list" where
  "purchaseIndicators =
    [''i want to buy'', ''i want to order'', ''i want to purchase'', ''i want to get'',
     ''i would like to buy'', ''i would like to order'', ''i would like to purchase'',
     ''i need to buy'', ''i need to order'', ''i need to purchase'',
     ''saya ingin membeli'', ''saya ingin memesan'', ''saya ingin order'',
     ''saya mau beli'', ''saya mau pesan'', ''saya mau order'',
     ''beli'', ''pesan'', ''order'', ''ambil'', ''dapatkan'',
     ''add to cart'', ''tambah ke keranjang'', ''masukkan ke keranjang'',
     ''buy this'', ''order this'', ''purchase this'', ''get this'',
     ''i want this'', ''i want that'', ''i want it'', ''i want one'',
     ''i want the'', ''i want a'', ''i want an'',
     [CHR ''i'', CHR 0x27] @ ''ll take'', [CHR ''i'', CHR 0x27] @ ''ll get'',
     [CHR ''i'', CHR 0x27] @ ''ll buy'', [CHR ''i'', CHR 0x27] @ ''ll order'',
     [CHR ''i'', CHR 0x27] @ ''ll have'', [CHR ''i'', CHR 0x27] @ ''ll purchase'',
     [CHR ''i'', CHR 0x27] @ ''ll grab'',
     ''take this'', ''get this'', ''have this'', ''grab this'',
     ''yes'', ''sure'', ''okay'', ''ok'', ''alright'', ''deal'',
     [CHR ''i'', CHR 0x27] @ ''ll take it'', [CHR ''i'', CHR 0x27] @ ''ll get it'',
     [CHR ''i'', CHR 0x27] @ ''ll buy it'',
     ''add it'', ''put it in'', ''add to my cart'']"

definition isPurchaseIntent :: "string \<Rightarrow> bool" where
  "isPurchaseIntent message = someIncluded purchaseIndicators message"

definition historyIndicators :: "string list" where
  "historyIndicators =
    [''have i bought'', ''have i purchased'', ''have i ordered'', ''did i buy'', ''did i purchase'',
     ''sudah pernah beli'', ''sudah pernah pesan'', ''sudah pernah order'',
     ''riwayat pembelian'', ''purchase history'', ''order history'', ''buying history'',
     ''what did i buy'', ''what have i bought'', ''my purchases'', ''my orders'']"

definition isHistoryInquiry :: "string \<Rightarrow> bool" where
  "isHistoryInquiry message = someIncluded historyIndicators message"

definition specificProductHistoryIndicators :: "string list" where
  "specificProductHistoryIndicators =
    [''have i bought this'', ''have i purchased this'', ''did i buy this'', ''did i purchase this'',
     ''sudah pernah beli ini'', ''sudah pernah pesan ini'', ''sudah pernah order ini'',
     ''pernah beli'', ''pernah pesan'', ''pernah order'', ''bought before'', ''purchased before'']"

definition isSpecificProductHistoryInquiry :: "string \<Rightarrow> bool" where
  "isSpecificProductHistoryInquiry message = someIncluded specificProductHistoryIndicators message"

definition cartManagementIndicators :: "string list" where
  "cartManagementIndicators =
    [''how much'', ''how many'', ''what'' @ [CHR 0x27] @ ''s in my cart'', ''what is in my cart'',
     ''show my cart'', ''my cart'', ''cart items'', ''cart contents'',
     ''remove'', ''delete'', ''reduce'', ''decrease'', ''kurangi'', ''hapus'',
     ''i don'' @ [CHR 0x27] @ ''t want'', ''i don'' @ [CHR 0x27] @ ''t need'', ''cancel'', ''batal'',
     ''change quantity'', ''update quantity'', ''modify quantity'']"

definition isCartManagement :: "string \<Rightarrow> bool" where
  "isCartManagement message = someIncluded cartManagementIndicators message"

definition isProductSearch :: "string \<Rightarrow> bool" where
  "isProductSearch message =
    (hasSpecificIntent message \<or> hasDetailedRequirements message \<or>
     isAnsweringQuestions message \<or> isFollowUpQuestion message)"

definition needsSystemAction :: "string \<Rightarrow> bool" where
  "needsSystemAction message =
    (isPurchaseIntent message \<or> isHistoryInquiry message \<or>
     isSpecificProductHistoryInquiry message \<or> isCartManagement message)"

section \<open>Quantity extraction\<close>

text \<open>
  \<^verbatim>\<open>/(\d+)\s*(buah|pieces?|items?|pcs?|unit|satuan|item)/i\<close> with \<^verbatim>\<open>message.match\<close>:
  the leftmost position at which the pattern matches, group 1 being the digits.
  At a fixed start the greedy choices are the only ones that can succeed: a shorter run
  of digits is followed by a digit and a shorter run of white space by white space, and
  every alternative starts with a letter.  An optional last letter (\<^verbatim>\<open>pieces?\<close>) does
  not change whether the pattern matches, so each alternative is listed by its
  mandatory part.
\<close>

definition unitWords :: "string list" where
  "unitWords = [''buah'', ''piece'', ''item'', ''pc'', ''unit'', ''satuan'', ''item'']"

definition quantityMatchAt :: "string \<Rightarrow> string option" where
  "quantityMatchAt s =
    (let ds = takeWhile isDigit s;
         rest = dropWhile isSpace (dropWhile isDigit s)
     in if ds \<noteq> [] \<and> list_ex (\<lambda>u. prefix u (toLowerCase rest)) unitWords
        then Some ds else None)"

fun quantityMatch :: "string \<Rightarrow> string option" where
  "quantityMatch [] = None"
| "quantityMatch (c # cs) =
    (case quantityMatchAt (c # cs) of
       Some ds \<Rightarrow> Some ds
     | None \<Rightarrow> quantityMatch cs)"

definition requestedQuantity :: "string \<Rightarrow> jsNumber" where
  "requestedQuantity message =
    (case quantityMatch message of Some ds \<Rightarrow> parseInt ds | None \<Rightarrow> Finite 1)"

section \<open>Data model\<close>

text \<open>
  The rows of the database tables that \<^verbatim>\<open>sendChatMessage\<close> and the cart routes touch.
  Times are natural numbers; prices are rational numbers (the arithmetic of the code on
  them is taken as exact).  \<^verbatim>\<open>shopifyProducts\<close> is a JSON column: an array of products or,
  as the code allows for, a single object.  Columns that no code of the turn reads are
  left out: the id of a message, the raw AI response stored with an assistant message,
  the order id and status of a purchase.
\<close>

record product =
  p_id :: string
  p_handle :: string
  p_title :: string
  p_description :: string
  p_amount :: string
  p_currencyCode :: string
  p_imageUrl :: "string option"

datatype shopifyJson = JArray "product list" | JObject product

record appUser =
  u_id :: string
  u_sensayUserId :: "string option"

record chatSession =
  cs_id :: string
  cs_userId :: string
  cs_updatedAt :: nat

record chatMessage =
  cm_sessionId :: string
  cm_role :: string
  cm_content :: string
  cm_timestamp :: nat
  cm_link :: "string option"
  cm_shopifyProducts :: "shopifyJson option"

record cartItem =
  ci_id :: string
  ci_userId :: string
  ci_productId :: string
  ci_productName :: string
  ci_description :: string
  ci_price :: rat
  ci_quantity :: int
  ci_total :: rat
  ci_imageUrl :: "string option"
  ci_productUrl :: "string option"
  ci_createdAt :: nat

record purchase =
  ph_userId :: string
  ph_productName :: string
  ph_price :: rat
  ph_quantity :: int
  ph_purchaseDate :: nat

text \<open>What \<^verbatim>\<open>catch (error)\<close> inspects of a thrown value: \<^verbatim>\<open>error.code\<close>, \<^verbatim>\<open>error.name\<close>
  and \<^verbatim>\<open>error.message\<close>.\<close>

record jsError =
  e_code :: "string option"
  e_name :: string
  e_message :: "string option"

definition mkError :: "string \<Rightarrow> jsError" where
  "mkError msg = \<lparr>e_code = None, e_name = ''Error'', e_message = Some msg\<rparr>"

definition typeError :: "string \<Rightarrow> jsError" where
  "typeError msg = \<lparr>e_code = None, e_name = ''TypeError'', e_message = Some msg\<rparr>"

record reply =
  content :: string

text \<open>The four places of \<^verbatim>\<open>sendChatMessage\<close> that call \<^verbatim>\<open>sensayAPI.chatWithReplica\<close>.\<close>

datatype callSite = SystemActionCall | SearchCall | FallbackCall | PlainCall

text \<open>
  The state: the tables, the clock, and a log of the prompts sent to the AI service
  (the log is not part of the program; it records what was sent).  An insert stamps the
  row with the clock and advances it, and so does the update of a session.
\<close>

record state =
  users :: "appUser list"
  chatSessions :: "chatSession list"
  chatMessages :: "chatMessage list"
  cartItems :: "cartItem list"
  purchaseHistory :: "purchase list"
  now :: nat
  aiLog :: "(callSite \<times> string) list"

text \<open>
  The collaborators that are not part of the service: the AI service, the catalogue, the
  formatting of numbers and dates, the key generator of the database, and whether a
  given insert fails.  An AI reply may depend on the call site, the Sensay user and the
  prompt.
\<close>

record env =
  createUser :: "string \<Rightarrow> jsError + string"
  chatWithReplica :: "callSite \<Rightarrow> string \<Rightarrow> string \<Rightarrow> jsError + reply"
  searchProducts :: "string \<Rightarrow> nat \<Rightarrow> jsError + product list"
  formatPrice :: "string \<Rightarrow> string \<Rightarrow> string"
  parseFloat :: "string \<Rightarrow> rat"
  numberToString :: "rat \<Rightarrow> string"
  toLocaleDateString :: "nat \<Rightarrow> string"
  newId :: "string list \<Rightarrow> string"
  userMessageSaveFails :: bool
  aiMessageSaveFails :: bool
  cartCreateFails :: bool

text \<open>An optional string argument read as a string: \<^verbatim>\<open>undefined\<close> and \<^verbatim>\<open>''\<close> are both
  falsy, so \<^verbatim>\<open>if (sessionId)\<close> is \<open>truthy sessionId\<close>.\<close>

definition strOf :: "string option \<Rightarrow> string" where
  "strOf s = (case s of None \<Rightarrow> [] | Some v \<Rightarrow> v)"

definition truthy :: "string option \<Rightarrow> bool" where
  "truthy s = (strOf s \<noteq> [])"

text \<open>\<^verbatim>\<open>orderBy: { key: 'desc' }\<close>.  The database leaves the order of rows with equal
  keys open; here they come in the reverse of their order in the table.\<close>

definition sortDesc :: "('a \<Rightarrow> nat) \<Rightarrow> 'a list \<Rightarrow> 'a list" where
  "sortDesc key xs = rev (sort_key key xs)"

definition firstOf :: "'a list \<Rightarrow> 'a option" where
  "firstOf xs = (case xs of [] \<Rightarrow> None | x # _ \<Rightarrow> Some x)"

text \<open>\<^verbatim>\<open>prisma.chatSession.findFirst({ where: { id: sessionId, userId } })\<close>\<close>

definition findSessionById :: "state \<Rightarrow> string \<Rightarrow> string \<Rightarrow> chatSession option" where
  "findSessionById st sessionId userId =
     find (\<lambda>s. cs_id s = sessionId \<and> cs_userId s = userId) (chatSessions st)"

text \<open>\<^verbatim>\<open>prisma.chatSession.findFirst({ where: { userId }, orderBy: { updatedAt: 'desc' } })\<close>\<close>

definition findLatestSession :: "state \<Rightarrow> string \<Rightarrow> chatSession option" where
  "findLatestSession st userId =
     firstOf (sortDesc cs_updatedAt (filter (\<lambda>s. cs_userId s = userId) (chatSessions st)))"

text \<open>The lookup that fills \<^verbatim>\<open>tempChatSession\<close>: by id when a session id was passed,
  else the most recently updated session of the user.\<close>

definition lookupSession :: "state \<Rightarrow> string \<Rightarrow> string option \<Rightarrow> chatSession option" where
  "lookupSession st userId sessionId =
     (if truthy sessionId then findSessionById st (strOf sessionId) userId
      else findLatestSession st userId)"

text \<open>\<^verbatim>\<open>prisma.chatMessage.findMany({ where: { sessionId }, orderBy: { timestamp: 'desc' }, take })\<close>\<close>

definition sessionMessages :: "state \<Rightarrow> string \<Rightarrow> chatMessage list" where
  "sessionMessages st sessionId =
     sortDesc cm_timestamp (filter (\<lambda>m. cm_sessionId m = sessionId) (chatMessages st))"

definition recentMessages :: "state \<Rightarrow> string \<Rightarrow> nat \<Rightarrow> chatMessage list" where
  "recentMessages st sessionId n = take n (sessionMessages st sessionId)"

section \<open>The Sensay user\<close>

definition setSensayUserId :: "string \<Rightarrow> string \<Rightarrow> appUser \<Rightarrow> appUser" where
  "setSensayUserId userId sensayId u =
     (if u_id u = userId then u\<lparr>u_sensayUserId := Some sensayId\<rparr> else u)"

definition getOrCreateSensayUser :: "env \<Rightarrow> state \<Rightarrow> string \<Rightarrow> (jsError + string) \<times> state" where
  "getOrCreateSensayUser env st userId =
     (case find (\<lambda>u. u_id u = userId) (users st) of
        None \<Rightarrow> (Inl (mkError ''User not found''), st)
      | Some user \<Rightarrow>
          if truthy (u_sensayUserId user)
          then (Inr (strOf (u_sensayUserId user)), st)
          else (case createUser env (''customer_'' @ userId @ ''_'' @ showNat (now st)) of
                  Inl e \<Rightarrow> (Inl e, st)
                | Inr sensayId \<Rightarrow>
                    (Inr sensayId, st\<lparr>users := map (setSensayUserId userId sensayId) (users st)\<rparr>)))"

section \<open>The product under discussion\<close>

text \<open>\<^verbatim>\<open>Array.isArray(x) ? x : [x]\<close>\<close>

definition asArray :: "shopifyJson \<Rightarrow> product list" where
  "asArray js = (case js of JArray ps \<Rightarrow> ps | JObject p \<Rightarrow> [p])"

text \<open>The body of the loop over the recent messages: the first product of an assistant
  message whose \<^verbatim>\<open>shopifyProducts\<close> is present and not an empty array.\<close>

definition productOf :: "chatMessage \<Rightarrow> product option" where
  "productOf msg =
     (if cm_role msg = ''assistant''
      then (case cm_shopifyProducts msg of
              None \<Rightarrow> None
            | Some js \<Rightarrow> firstOf (asArray js))
      else None)"

text \<open>\<^verbatim>\<open>for (const msg of recentMessages) { ... break; }\<close>\<close>

fun productFromMessages :: "chatMessage list \<Rightarrow> product option" where
  "productFromMessages [] = None"
| "productFromMessages (msg # rest) =
     (case productOf msg of
        Some p \<Rightarrow> Some p
      | None \<Rightarrow> productFromMessages rest)"

text \<open>The product in focus: the scan over the ten newest messages of the session, when
  there is a session.\<close>

definition resolveFocusProduct :: "state \<Rightarrow> chatSession option \<Rightarrow> product option" where
  "resolveFocusProduct st tempChatSession =
     (case tempChatSession of
        None \<Rightarrow> None
      | Some s \<Rightarrow> productFromMessages (recentMessages st (cs_id s) 10))"

text \<open>The reading of the specification, for comparison: the first product of the most
  recent assistant message of the session that has one, over all messages of the session.\<close>

definition hasProduct :: "chatMessage \<Rightarrow> bool" where
  "hasProduct msg = (productOf msg \<noteq> None)"

definition specFocusProduct :: "state \<Rightarrow> string \<Rightarrow> product option" where
  "specFocusProduct st sessionId =
     (case find hasProduct (sessionMessages st sessionId) of
        None \<Rightarrow> None
      | Some msg \<Rightarrow> productOf msg)"

section \<open>System data\<close>

text \<open>
  The requested quantity inside a template string.  An integer below \<open>2^53\<close> is written
  with all its decimal digits; a larger double is written with the shortest digits that
  read back as the same double, which is left to the number formatting of the
  environment; \<^verbatim>\<open>Infinity\<close> is written as that word.
\<close>

definition quantityText :: "env \<Rightarrow> jsNumber \<Rightarrow> string" where
  "quantityText env qty =
     (case qty of
        Finite n \<Rightarrow> if bitLength n \<le> 53 then showNat n else numberToString env (of_nat n)
      | PosInfinity \<Rightarrow> ''Infinity'')"

text \<open>The blocks of \<^verbatim>\<open>systemData\<close>, one definition per template string.\<close>

definition purchaseProductData :: "env \<Rightarrow> product \<Rightarrow> jsNumber \<Rightarrow> string" where
  "purchaseProductData env productToAdd qty = joinLines
    [''[SYSTEM DATA - PURCHASE INTENT DETECTED]'',
     ''Product: '' @ p_title productToAdd,
     ''Quantity: '' @ quantityText env qty,
     ''Price: '' @ p_amount productToAdd @ '' '' @ p_currencyCode productToAdd,
     ''Description: '' @ p_description productToAdd,
     ''Product ID: '' @ p_id productToAdd,
     ''Handle: '' @ p_handle productToAdd,
     [],
     ''[SYSTEM ACTION AVAILABLE: Add to cart automatically if user confirms purchase intent]'']"

definition purchaseNoProductData :: "env \<Rightarrow> string \<Rightarrow> jsNumber \<Rightarrow> string" where
  "purchaseNoProductData env message qty = joinLines
    [''[SYSTEM DATA - PURCHASE INTENT DETECTED]'',
     ''No specific product found in conversation context.'',
     ''User message: '' @ dq @ message @ dq,
     ''Detected quantity: '' @ quantityText env qty,
     [],
     ''[SYSTEM ACTION: Ask user to specify which product they want to purchase]'']"

text \<open>\<^verbatim>\<open>prisma.purchaseHistory.findMany({ where: { userId }, orderBy: { purchaseDate: 'desc' }, take: 10 })\<close>\<close>

definition recentPurchases :: "state \<Rightarrow> string \<Rightarrow> purchase list" where
  "recentPurchases st userId =
     take 10 (sortDesc ph_purchaseDate (filter (\<lambda>p. ph_userId p = userId) (purchaseHistory st)))"

definition historyLine :: "env \<Rightarrow> nat \<times> purchase \<Rightarrow> string" where
  "historyLine env ip =
     (case ip of (index, purchase) \<Rightarrow>
        showNat (index + 1) @ ''. Product: '' @ ph_productName purchase @
        '', Quantity: '' @ showInt (ph_quantity purchase) @
        '', Date: '' @ toLocaleDateString env (ph_purchaseDate purchase) @
        '', Price: '' @ numberToString env (ph_price purchase))"

definition historyFoundData :: "env \<Rightarrow> purchase list \<Rightarrow> string" where
  "historyFoundData env history = joinLines
    [''[SYSTEM DATA - PURCHASE HISTORY]'',
     ''Total purchases: '' @ showNat (length history),
     ''Recent purchases:'',
     joinWith nl (map (historyLine env) (enumerate 0 history)),
     [],
     ''[SYSTEM ACTION: Provide natural response about user'' @ ap @ ''s purchase history]'']"

definition historyEmptyData :: string where
  "historyEmptyData = joinLines
    [''[SYSTEM DATA - PURCHASE HISTORY]'',
     ''No purchase history found for this user.'',
     [],
     ''[SYSTEM ACTION: Encourage user to start shopping]'']"

definition historyData :: "env \<Rightarrow> state \<Rightarrow> string \<Rightarrow> string" where
  "historyData env st userId =
     (let history = recentPurchases st userId
      in if length history > 0 then historyFoundData env history else historyEmptyData)"

text \<open>The purchases of the user whose product name contains the title, compared without
  case (\<^verbatim>\<open>contains\<close> with \<^verbatim>\<open>mode: 'insensitive'\<close>), newest first, without a limit.\<close>

definition productPurchases :: "state \<Rightarrow> string \<Rightarrow> string \<Rightarrow> purchase list" where
  "productPurchases st userId title =
     sortDesc ph_purchaseDate
       (filter (\<lambda>p. ph_userId p = userId \<and>
                     includesStr (toLowerCase (ph_productName p)) (toLowerCase title))
               (purchaseHistory st))"

definition productHistoryData :: "env \<Rightarrow> state \<Rightarrow> string \<Rightarrow> string \<Rightarrow> product option \<Rightarrow> string" where
  "productHistoryData env st userId message productToCheck =
     (case productToCheck of
        None \<Rightarrow> joinLines
          [''[SYSTEM DATA - SPECIFIC PRODUCT HISTORY]'',
           ''No specific product found in conversation context.'',
           ''User message: '' @ dq @ message @ dq,
           [],
           ''[SYSTEM ACTION: Ask user to specify which product they want to check]'']
      | Some p \<Rightarrow>
          (case productPurchases st userId (p_title p) of
             [] \<Rightarrow> joinLines
               [''[SYSTEM DATA - SPECIFIC PRODUCT HISTORY]'',
                ''Product: '' @ p_title p,
                ''Has been purchased: NO'',
                ''This would be their first time buying this item.'',
                [],
                ''[SYSTEM ACTION: Inform user they haven'' @ ap @ ''t purchased this product before]'']
           | lastPurchase # older \<Rightarrow> joinLines
               [''[SYSTEM DATA - SPECIFIC PRODUCT HISTORY]'',
                ''Product: '' @ p_title p,
                ''Has been purchased: YES'',
                ''Total times purchased: '' @ showNat (length (lastPurchase # older)),
                ''Total quantity bought: '' @
                   showInt (foldl (\<lambda>sum purchase. sum + ph_quantity purchase) 0 (lastPurchase # older)),
                ''Last purchase date: '' @ toLocaleDateString env (ph_purchaseDate lastPurchase),
                ''Last purchase quantity: '' @ showInt (ph_quantity lastPurchase),
                [],
                ''[SYSTEM ACTION: Confirm that user has purchased this product before and provide details]'']))"

text \<open>\<^verbatim>\<open>prisma.cartItem.findMany({ where: { userId }, orderBy: { createdAt: 'desc' } })\<close>\<close>

definition userCart :: "state \<Rightarrow> string \<Rightarrow> cartItem list" where
  "userCart st userId = sortDesc ci_createdAt (filter (\<lambda>c. ci_userId c = userId) (cartItems st))"

definition cartLine :: "env \<Rightarrow> nat \<times> cartItem \<Rightarrow> string" where
  "cartLine env ii =
     (case ii of (index, item) \<Rightarrow>
        showNat (index + 1) @ ''. '' @ ci_productName item @
        '' - Quantity: '' @ showInt (ci_quantity item) @
        '', Price: $'' @ numberToString env (ci_price item) @
        '', Total: $'' @ numberToString env (ci_total item))"

definition cartData :: "env \<Rightarrow> state \<Rightarrow> string \<Rightarrow> string" where
  "cartData env st userId =
     (let items = userCart st userId
      in if length items > 0
         then joinLines
           [''[SYSTEM DATA - CART MANAGEMENT]'',
            ''Current cart items: '' @ showNat (length items),
            ''Total cart value: $'' @
               numberToString env (foldl (\<lambda>sum item. sum + ci_total item) 0 items),
            ''Cart contents:'',
            joinWith nl (map (cartLine env) (enumerate 0 items)),
            [],
            ''[SYSTEM ACTION: Provide natural response about cart contents. If user wants to remove/reduce items, ask for confirmation and provide options.]'']
         else joinLines
           [''[SYSTEM DATA - CART MANAGEMENT]'',
            ''Cart is empty.'',
            [],
            ''[SYSTEM ACTION: Inform user that their cart is empty and suggest browsing products.]''])"

text \<open>The chain \<^verbatim>\<open>if (isPurchaseIntent) ... else if (isHistoryInquiry) ... else if
  (isSpecificProductHistoryInquiry) ... else if (isCartManagement) ...\<close> that fills
  \<^verbatim>\<open>systemData\<close>, which starts as the empty string.\<close>

definition gatherSystemData ::
  "env \<Rightarrow> state \<Rightarrow> string \<Rightarrow> string \<Rightarrow> chatSession option \<Rightarrow> string" where
  "gatherSystemData env st userId message tempChatSession =
     (if isPurchaseIntent message then
        (case resolveFocusProduct st tempChatSession of
           Some productToAdd \<Rightarrow> purchaseProductData env productToAdd (requestedQuantity message)
         | None \<Rightarrow> purchaseNoProductData env message (requestedQuantity message))
      else if isHistoryInquiry message then historyData env st userId
      else if isSpecificProductHistoryInquiry message then
        productHistoryData env st userId message (resolveFocusProduct st tempChatSession)
      else if isCartManagement message then cartData env st userId
      else [])"

definition systemInstruction :: string where
  "systemInstruction = ''[SYSTEM INSTRUCTION: Based on the system data above, provide a natural, conversational response. If this is a purchase intent, only add to cart if the user clearly wants to buy. If this is a history inquiry, provide helpful information about their purchase history. Make the conversation feel natural and human-like. Do not use hardcoded responses - be conversational and natural.]''"

text \<open>\<^verbatim>\<open>systemData\<close> as the turn computes it: gathered only when a system action is needed.\<close>

definition systemDataOf ::
  "env \<Rightarrow> state \<Rightarrow> string \<Rightarrow> string \<Rightarrow> chatSession option \<Rightarrow> string" where
  "systemDataOf env st userId message tempChatSession =
     (if needsSystemAction message then gatherSystemData env st userId message tempChatSession
      else [])"

definition systemContextOf ::
  "env \<Rightarrow> state \<Rightarrow> string \<Rightarrow> string \<Rightarrow> chatSession option \<Rightarrow> string" where
  "systemContextOf env st userId message tempChatSession =
     (if needsSystemAction message
      then nl @ nl @ gatherSystemData env st userId message tempChatSession @ nl @ nl @
           systemInstruction
      else [])"

section \<open>Conversation context\<close>

definition contextLine :: "chatMessage \<Rightarrow> string" where
  "contextLine msg =
     (if cm_role msg = ''user'' then ''User'' else ''Assistant'') @ '': '' @ cm_content msg @ nl"

definition conversationContextOf :: "state \<Rightarrow> bool \<Rightarrow> chatSession option \<Rightarrow> string" where
  "conversationContextOf st isNewChat tempChatSession =
     (if isNewChat then []
      else (case tempChatSession of
              None \<Rightarrow> []
            | Some s \<Rightarrow>
                (let recent = recentMessages st (cs_id s) 15
                 in if length recent > 0
                    then nl @ nl @ ''[CONVERSATION CONTEXT - Last 15 messages for context:]'' @ nl @
                         concat (map contextLine (rev recent)) @
                         ''[END CONTEXT]'' @ nl
                    else [])))"

section \<open>Cart rows\<close>

text \<open>
  \<^verbatim>\<open>prisma.cartItem.create\<close>: the database assigns the id and the creation time.  The
  insert fails when the environment says so or when the generated id is already in use
  (\<^verbatim>\<open>id\<close> is the unique key that \<^verbatim>\<open>delete({ where: { id } })\<close> selects by).
\<close>

definition createCartItem :: "env \<Rightarrow> state \<Rightarrow> cartItem \<Rightarrow> (jsError + cartItem) \<times> state" where
  "createCartItem env st item =
     (let i = newId env (map ci_id (cartItems st))
      in if cartCreateFails env \<or> i \<in> set (map ci_id (cartItems st))
         then (Inl (mkError ''cartItem.create failed''), st)
         else (let row = item\<lparr>ci_id := i, ci_createdAt := now st\<rparr>
               in (Inr row, st\<lparr>cartItems := cartItems st @ [row], now := Suc (now st)\<rparr>)))"

section \<open>Reading the reply\<close>

text \<open>The tests on the lower-cased reply.  The source also tests for a shopping-cart
  emoji; the literal contains code units above 255, so no string of this model includes
  it, and that disjunct is \<open>False\<close>.\<close>

definition shouldAddToCart :: "string \<Rightarrow> bool" where
  "shouldAddToCart responseText =
    (includesStr responseText ''added to cart'' \<or>
     includesStr responseText ''successfully added'' \<or>
     includesStr responseText ''cart updated'' \<or>
     includesStr responseText ''added to your cart'' \<or>
     includesStr responseText (''i'' @ ap @ ''ll add'') \<or>
     includesStr responseText ''i will add'' \<or>
     includesStr responseText ''adding to cart'' \<or>
     includesStr responseText ''add another'' \<or>
     includesStr responseText ''add to your cart'' \<or>
     includesStr responseText ''great choice'' \<or>
     includesStr responseText ''perfect'' \<or>
     includesStr responseText ''enjoy your shopping'' \<or>
     includesStr responseText ''enjoy your new'' \<or>
     False \<or>
     includesStr responseText ''cart'' \<or>
     (includesStr responseText ''add'' \<and> includesStr responseText ''cart'') \<or>
     (includesStr responseText ''added'' \<and> includesStr responseText ''collection'') \<or>
     (includesStr responseText ''burgundy'' \<and> includesStr responseText ''tee'') \<or>
     (includesStr responseText ''statement'' \<and> includesStr responseText ''tee''))"

definition shouldReduceCart :: "string \<Rightarrow> bool" where
  "shouldReduceCart responseText =
    (includesStr responseText ''removed'' \<or>
     includesStr responseText ''deleted'' \<or>
     includesStr responseText ''reduced'' \<or>
     includesStr responseText ''updated'' \<or>
     includesStr responseText ''changed'' \<or>
     includesStr responseText ''modified'' \<or>
     includesStr responseText ''kurangi'' \<or>
     includesStr responseText ''hapus'' \<or>
     includesStr responseText ''berkurang'')"

definition logCall :: "callSite \<Rightarrow> string \<Rightarrow> state \<Rightarrow> state" where
  "logCall site prompt st = st\<lparr>aiLog := aiLog st @ [(site, prompt)]\<rparr>"

text \<open>The cart row built from the product in focus; a failing insert is caught and
  logged, and the turn goes on.  A quantity of \<^verbatim>\<open>Infinity\<close> is no value of a numeric
  column, so that insert fails.\<close>

definition addFocusProductToCart ::
  "env \<Rightarrow> state \<Rightarrow> string \<Rightarrow> string \<Rightarrow> chatSession option \<Rightarrow> state" where
  "addFocusProductToCart env st userId message tempChatSession =
     (case resolveFocusProduct st tempChatSession of
        None \<Rightarrow> st
      | Some productToAdd \<Rightarrow>
          (case requestedQuantity message of
             PosInfinity \<Rightarrow> st
           | Finite quantity \<Rightarrow>
               snd (createCartItem env st
                 \<lparr>ci_id = [],
                  ci_userId = userId,
                  ci_productId = p_id productToAdd,
                  ci_productName = p_title productToAdd,
                  ci_description = p_description productToAdd,
                  ci_price = parseFloat env (p_amount productToAdd),
                  ci_quantity = int quantity,
                  ci_total = parseFloat env (p_amount productToAdd) * of_nat quantity,
                  ci_imageUrl = p_imageUrl productToAdd,
                  ci_productUrl = Some (''https://shoppysensay.myshopify.com/products/'' @ p_handle productToAdd),
                  ci_createdAt = 0\<rparr>)))"

text \<open>The removal written for cart management: the newest cart row of the user is deleted
  (a failing delete is caught and logged).\<close>

definition removeMostRecentCartItem :: "state \<Rightarrow> string \<Rightarrow> state" where
  "removeMostRecentCartItem st userId =
     (case userCart st userId of
        [] \<Rightarrow> st
      | itemToRemove # _ \<Rightarrow>
          st\<lparr>cartItems := filter (\<lambda>c. ci_id c \<noteq> ci_id itemToRemove) (cartItems st)\<rparr>)"

text \<open>
  The statement \<^verbatim>\<open>if (needsSystemAction) { ... } else if (isCartManagement &&
  response.content) { ... } else { ... }\<close>.  The variable \<^verbatim>\<open>response\<close> is declared before
  it without a value and is passed in as \<open>response\<close>; reading \<^verbatim>\<open>.content\<close> of an
  unassigned variable throws a \<^verbatim>\<open>TypeError\<close>.  The result is the new value of
  \<^verbatim>\<open>response\<close>.
\<close>

definition systemActionStage ::
  "env \<Rightarrow> state \<Rightarrow> string \<Rightarrow> string \<Rightarrow> string \<Rightarrow> chatSession option \<Rightarrow> string \<Rightarrow> string \<Rightarrow>
   reply option \<Rightarrow> (jsError + reply option) \<times> state" where
  "systemActionStage env st sensayUserId userId message tempChatSession conversationContext
      systemContext response =
     (if needsSystemAction message then
        (let enhancedMessage = message @ conversationContext @ systemContext;
             st1 = logCall SystemActionCall enhancedMessage st
         in case chatWithReplica env SystemActionCall sensayUserId enhancedMessage of
              Inl e \<Rightarrow> (Inl e, st1)
            | Inr r \<Rightarrow>
                (Inr (Some r),
                 if isPurchaseIntent message \<and> content r \<noteq> [] then
                   (if shouldAddToCart (toLowerCase (content r))
                    then addFocusProductToCart env st1 userId message tempChatSession
                    else st1)
                 else st1))
      else if isCartManagement message then
        (case response of
           None \<Rightarrow>
             (Inl (typeError ''Cannot read properties of undefined (reading content)''), st)
         | Some r \<Rightarrow>
             if content r \<noteq> [] then
               (Inr response,
                if shouldReduceCart (toLowerCase (content r))
                then removeMostRecentCartItem st userId
                else st)
             else (Inr response, st))
      else (Inr response, st))"

section \<open>Product search and the reply\<close>

definition contextKeywords :: "string list" where
  "contextKeywords =
    [''t-shirt'', ''shirt'', ''phone'', ''smartphone'', ''laptop'', ''computer'', ''shoes'',
     ''bag'', ''watch'', ''clothes'', ''electronics'']"

text \<open>The query of a follow-up question.  The messages are those of the user's latest
  session; without one the filter \<^verbatim>\<open>sessionId: undefined\<close> selects every message.\<close>

definition followUpQuery :: "state \<Rightarrow> string \<Rightarrow> string \<Rightarrow> string" where
  "followUpQuery st userId message =
     (let recent = take 10 (sortDesc cm_timestamp
            (case findLatestSession st userId of
               None \<Rightarrow> chatMessages st
             | Some s \<Rightarrow> filter (\<lambda>m. cm_sessionId m = cs_id s) (chatMessages st)));
          conversationText = joinWith '' '' (map cm_content recent);
          foundKeywords = filter (\<lambda>keyword.
             includesStr (toLowerCase conversationText) (toLowerCase keyword)) contextKeywords
      in case foundKeywords of
           [] \<Rightarrow> message
         | keyword # _ \<Rightarrow> keyword @ '' '' @ message)"

definition productLine :: "env \<Rightarrow> nat \<times> product \<Rightarrow> string" where
  "productLine env ip =
     (case ip of (index, p) \<Rightarrow>
        showNat (index + 1) @ ''. **'' @ p_title p @ ''** - '' @
        formatPrice env (p_amount p) (p_currencyCode p))"

definition enhancedSearchMessage :: "env \<Rightarrow> string \<Rightarrow> string \<Rightarrow> product list \<Rightarrow> string" where
  "enhancedSearchMessage env message conversationContext searchResults =
     message @ conversationContext @ nl @ nl @
     ''[PRODUCT SEARCH RESULTS - '' @ showNat (length searchResults) @ '' products found:]'' @ nl @
     (if length searchResults > 0
      then joinWith nl (map (productLine env) (enumerate 0 searchResults))
      else ''No products found matching your criteria.'') @ nl @ nl @
     ''[SYSTEM: Based on the conversation context above and the product search results, provide a natural, contextual response. If this is a follow-up question like '' @ dq @
     ''is there any other option'' @ dq @
     '', acknowledge what was previously discussed and offer relevant alternatives or additional information about the products shown.]''"

definition fallbackMessage :: "string \<Rightarrow> string \<Rightarrow> string" where
  "fallbackMessage message conversationContext =
     message @ conversationContext @ nl @ nl @
     ''[SYSTEM: Shopify search temporarily unavailable, provide general assistance based on conversation context]''"

definition contextualMessage :: "string \<Rightarrow> string \<Rightarrow> string" where
  "contextualMessage message conversationContext =
     message @ conversationContext @
     (if conversationContext \<noteq> []
      then nl @ nl @ ''[SYSTEM: Use the conversation context above to provide relevant and contextual responses. Remember what the user was previously discussing.]''
      else [])"

text \<open>One call of \<^verbatim>\<open>sensayAPI.chatWithReplica\<close>, logged.\<close>

definition callReplica ::
  "env \<Rightarrow> state \<Rightarrow> callSite \<Rightarrow> string \<Rightarrow> string \<Rightarrow> (jsError + reply) \<times> state" where
  "callReplica env st site sensayUserId prompt =
     (chatWithReplica env site sensayUserId prompt, logCall site prompt st)"

text \<open>The \<^verbatim>\<open>catch\<close> of the search branch: one more call, with the fallback message;
  \<^verbatim>\<open>shopifyProducts\<close> keeps what the \<^verbatim>\<open>try\<close> had assigned.\<close>

definition searchFallback ::
  "env \<Rightarrow> state \<Rightarrow> string \<Rightarrow> string \<Rightarrow> string \<Rightarrow> product list \<Rightarrow>
   (jsError + reply \<times> product list) \<times> state" where
  "searchFallback env st sensayUserId message conversationContext shopifyProducts =
     (case callReplica env st FallbackCall sensayUserId (fallbackMessage message conversationContext) of
        (Inl e, st1) \<Rightarrow> (Inl e, st1)
      | (Inr r, st1) \<Rightarrow> (Inr (r, shopifyProducts), st1))"

text \<open>\<^verbatim>\<open>if (isProductSearch) { try { ... } catch { ... } } else { ... }\<close>: the reply that the
  turn returns, and the products attached to it.\<close>

definition replyStage ::
  "env \<Rightarrow> state \<Rightarrow> string \<Rightarrow> string \<Rightarrow> string \<Rightarrow> bool \<Rightarrow> string \<Rightarrow>
   (jsError + reply \<times> product list) \<times> state" where
  "replyStage env st sensayUserId userId message isNewChat conversationContext =
     (if isProductSearch message then
        (let searchQuery = (if isFollowUpQuestion message \<and> \<not> isNewChat
                            then followUpQuery st userId message else message)
         in case searchProducts env searchQuery 5 of
              Inl e \<Rightarrow> searchFallback env st sensayUserId message conversationContext []
            | Inr searchResults \<Rightarrow>
                (case callReplica env st SearchCall sensayUserId
                        (enhancedSearchMessage env message conversationContext searchResults) of
                   (Inl e, st1) \<Rightarrow>
                     searchFallback env st1 sensayUserId message conversationContext searchResults
                 | (Inr r, st1) \<Rightarrow> (Inr (r, searchResults), st1)))
      else
        (case callReplica env st PlainCall sensayUserId
                (contextualMessage message conversationContext) of
           (Inl e, st1) \<Rightarrow> (Inl e, st1)
         | (Inr r, st1) \<Rightarrow> (Inr (r, []), st1)))"

section \<open>The chat session of the turn\<close>

text \<open>\<^verbatim>\<open>prisma.chatSession.create({ data: { userId } })\<close>; as for cart rows the id is a
  unique key (\<^verbatim>\<open>update({ where: { id } })\<close> selects by it), so an id already in use makes
  the insert fail.\<close>

definition createSession :: "env \<Rightarrow> state \<Rightarrow> string \<Rightarrow> (jsError + chatSession) \<times> state" where
  "createSession env st userId =
     (let i = newId env (map cs_id (chatSessions st))
      in if i \<in> set (map cs_id (chatSessions st))
         then (Inl (mkError ''Unique constraint failed on the fields: (id)''), st)
         else (let s = \<lparr>cs_id = i, cs_userId = userId, cs_updatedAt = now st\<rparr>
               in (Inr s, st\<lparr>chatSessions := chatSessions st @ [s], now := Suc (now st)\<rparr>)))"

definition resolveSession ::
  "env \<Rightarrow> state \<Rightarrow> string \<Rightarrow> bool \<Rightarrow> string option \<Rightarrow> (jsError + chatSession) \<times> state" where
  "resolveSession env st userId isNewChat sessionId =
     (if isNewChat then createSession env st userId
      else if truthy sessionId then
        (case findSessionById st (strOf sessionId) userId of
           None \<Rightarrow> createSession env st userId
         | Some s \<Rightarrow> (Inr s, st))
      else
        (case findLatestSession st userId of
           None \<Rightarrow> createSession env st userId
         | Some s \<Rightarrow> (Inr s, st)))"

section \<open>Saving the turn\<close>

text \<open>\<^verbatim>\<open>/(https?:\/\/[^\s]+)/g\<close>, first match: the scheme, then the longest run of
  characters that are not white space, which must not be empty.\<close>

definition linkAt :: "string \<Rightarrow> string option" where
  "linkAt s =
     (let scheme = (if prefix ''https://'' s then Some ''https://''
                    else if prefix ''http://'' s then Some ''http://'' else None)
      in case scheme of
           None \<Rightarrow> None
         | Some sch \<Rightarrow>
             (let body = takeWhile (\<lambda>c. \<not> isSpace c) (drop (length sch) s)
              in if body = [] then None else Some (sch @ body)))"

fun detectLink :: "string \<Rightarrow> string option" where
  "detectLink [] = None"
| "detectLink (c # cs) =
     (case linkAt (c # cs) of
        Some l \<Rightarrow> Some l
      | None \<Rightarrow> detectLink cs)"

definition createMessage :: "state \<Rightarrow> chatMessage \<Rightarrow> state" where
  "createMessage st msg =
     st\<lparr>chatMessages := chatMessages st @ [msg\<lparr>cm_timestamp := now st\<rparr>], now := Suc (now st)\<rparr>"

text \<open>The \<^verbatim>\<open>try\<close> block that saves the user message and then the assistant message; the
  first failing insert leaves the block, and the \<^verbatim>\<open>catch\<close> only logs.\<close>

definition saveMessages ::
  "env \<Rightarrow> state \<Rightarrow> string \<Rightarrow> string \<Rightarrow> reply \<Rightarrow> product list \<Rightarrow> state" where
  "saveMessages env st sessionId message response shopifyProducts =
     (if userMessageSaveFails env then st
      else
        (let st1 = createMessage st
               \<lparr>cm_sessionId = sessionId, cm_role = ''user'', cm_content = message,
                cm_timestamp = 0, cm_link = detectLink message, cm_shopifyProducts = None\<rparr>
         in if aiMessageSaveFails env then st1
            else createMessage st1
               \<lparr>cm_sessionId = sessionId, cm_role = ''assistant'', cm_content = content response,
                cm_timestamp = 0, cm_link = None,
                cm_shopifyProducts =
                  (if length shopifyProducts > 0 then Some (JArray shopifyProducts) else None)\<rparr>))"

text \<open>\<^verbatim>\<open>prisma.chatSession.update({ where: { id }, data: { updatedAt: new Date() } })\<close>\<close>

definition touchSession :: "state \<Rightarrow> string \<Rightarrow> state" where
  "touchSession st sessionId =
     st\<lparr>chatSessions :=
          map (\<lambda>s. if cs_id s = sessionId then s\<lparr>cs_updatedAt := now st\<rparr> else s) (chatSessions st),
        now := Suc (now st)\<rparr>"

section \<open>The turn\<close>

record payload =
  pl_success :: bool
  pl_message :: string
  pl_sessionId :: string
  pl_timestamp :: nat
  pl_isNewSession :: bool
  pl_shopifyProducts :: "product list option"

text \<open>The value of \<^verbatim>\<open>tempChatSession\<close> once the conversation context has been read: no
  session in a new chat, else the session looked up.\<close>

definition tempSessionOf :: "state \<Rightarrow> string \<Rightarrow> bool \<Rightarrow> string option \<Rightarrow> chatSession option" where
  "tempSessionOf st userId isNewChat sessionId =
     (if \<not> isNewChat then lookupSession st userId sessionId else None)"

text \<open>
  The \<^verbatim>\<open>try\<close> block of \<^verbatim>\<open>sendChatMessage\<close>.  An error is whatever a step threw; the state
  that comes with it holds the writes made before.  The usage log (\<^verbatim>\<open>logApiUsage\<close>), which
  writes to a table nothing else reads and swallows its own failures, is left out.
\<close>

definition sendChatMessageTry ::
  "env \<Rightarrow> state \<Rightarrow> string \<Rightarrow> string \<Rightarrow> bool \<Rightarrow> string option \<Rightarrow> (jsError + payload) \<times> state" where
  "sendChatMessageTry env st userId message isNewChat sessionId =
     (case getOrCreateSensayUser env st userId of
        (Inl e, st0) \<Rightarrow> (Inl e, st0)
      | (Inr sensayUserId, st0) \<Rightarrow>
          (let tempChatSession0 =
                 (if needsSystemAction message \<and> \<not> isNewChat
                  then lookupSession st0 userId sessionId else None);
               systemContext = systemContextOf env st0 userId message tempChatSession0;
               tempChatSession =
                 (if \<not> isNewChat then lookupSession st0 userId sessionId else tempChatSession0);
               conversationContext = conversationContextOf st0 isNewChat tempChatSession
           in case systemActionStage env st0 sensayUserId userId message tempChatSession
                     conversationContext systemContext None of
                (Inl e, st1) \<Rightarrow> (Inl e, st1)
              | (Inr response1, st1) \<Rightarrow>
                  (case replyStage env st1 sensayUserId userId message isNewChat
                          conversationContext of
                     (Inl e, st2) \<Rightarrow> (Inl e, st2)
                   | (Inr (response, shopifyProducts), st2) \<Rightarrow>
                       (case resolveSession env st2 userId isNewChat sessionId of
                          (Inl e, st3) \<Rightarrow> (Inl e, st3)
                        | (Inr chatSession, st3) \<Rightarrow>
                            (let st4 = saveMessages env st3 (cs_id chatSession) message response
                                         shopifyProducts;
                                 st5 = touchSession st4 (cs_id chatSession)
                             in (Inr \<lparr>pl_success = True,
                                      pl_message = content response,
                                      pl_sessionId = cs_id chatSession,
                                      pl_timestamp = now st5,
                                      pl_isNewSession = isNewChat,
                                      pl_shopifyProducts =
                                        (if length shopifyProducts > 0
                                         then Some shopifyProducts else None)\<rparr>,
                                 st5))))))"

text \<open>\<^verbatim>\<open>error.message?.includes(s)\<close>\<close>

definition messageIncludes :: "jsError \<Rightarrow> string \<Rightarrow> bool" where
  "messageIncludes err s = (case e_message err of None \<Rightarrow> False | Some m \<Rightarrow> includesStr m s)"

text \<open>The \<^verbatim>\<open>catch\<close> block: the message of the error that the caller gets.\<close>

definition genericApology :: string where
  "genericApology =
     ''Sorry, I'' @ ap @ ''m having trouble connecting right now. Please try again in a moment.''"

definition userFacingMessage :: "jsError \<Rightarrow> string" where
  "userFacingMessage err =
     (if e_code err = Some ''UND_ERR_CONNECT_TIMEOUT'' \<or> e_name err = ''AbortError''
      then ''The request timed out. The AI service might be busy. Please try again.''
      else if messageIncludes err ''fetch failed''
      then ''Unable to connect to the AI service. Please check your internet connection and try again.''
      else if messageIncludes err ''401'' \<or> messageIncludes err ''Unauthorized''
      then ''Authentication error. Please try logging out and back in.''
      else if messageIncludes err ''429'' \<or> messageIncludes err ''rate limit''
      then ''Too many requests. Please wait a moment before trying again.''
      else genericApology)"

text \<open>\<^verbatim>\<open>sendChatMessage\<close>: the payload, or the message of the error it throws.\<close>

definition sendChatMessage ::
  "env \<Rightarrow> state \<Rightarrow> string \<Rightarrow> string \<Rightarrow> bool \<Rightarrow> string option \<Rightarrow> (string + payload) \<times> state" where
  "sendChatMessage env st userId message isNewChat sessionId =
     (case sendChatMessageTry env st userId message isNewChat sessionId of
        (Inl e, st1) \<Rightarrow> (Inl (userFacingMessage e), st1)
      | (Inr p, st1) \<Rightarrow> (Inr p, st1))"

text \<open>The prompts sent to the AI service during a turn from \<open>st\<close> to \<open>st'\<close>, in order.\<close>

definition sentInTurn :: "state \<Rightarrow> state \<Rightarrow> (callSite \<times> string) list" where
  "sentInTurn st st' = drop (length (aiLog st)) (aiLog st')"

text \<open>A session was created for the user during the turn: its id is not an id of the
  state before, and the state after has a session with this id that belongs to the user.\<close>

definition createdSession :: "state \<Rightarrow> state \<Rightarrow> string \<Rightarrow> string \<Rightarrow> bool" where
  "createdSession st st' userId i =
     (i \<notin> set (map cs_id (chatSessions st)) \<and>
      list_ex (\<lambda>cs. cs_id cs = i \<and> cs_userId cs = userId) (chatSessions st'))"

section \<open>The cart route\<close>

text \<open>
  \<^verbatim>\<open>POST /cart/add\<close> of \<^verbatim>\<open>routes.ts\<close>, the transaction without the response: a row of the
  same user and product gets the quantity added and the total recomputed from the price
  of the request; otherwise a row is created.  \<^verbatim>\<open>Inl\<close> is the status 400 or 500.
\<close>

definition cartAdd ::
  "env \<Rightarrow> state \<Rightarrow> string \<Rightarrow> string \<Rightarrow> string \<Rightarrow> string \<Rightarrow> rat \<Rightarrow> int \<Rightarrow>
   string option \<Rightarrow> string option \<Rightarrow> (string + cartItem) \<times> state" where
  "cartAdd env st userId productId productName description price quantity imageUrl productUrl =
     (if productId = [] \<or> productName = [] \<or> price = 0
      then (Inl ''Product ID, name, and price are required'', st)
      else
        (case find (\<lambda>c. ci_userId c = userId \<and> ci_productId c = productId) (cartItems st) of
           Some existingItem \<Rightarrow>
             (let newQuantity = ci_quantity existingItem + quantity;
                  newTotal = price * of_int newQuantity;
                  updated = existingItem\<lparr>ci_quantity := newQuantity, ci_total := newTotal\<rparr>
              in (Inr updated,
                  st\<lparr>cartItems :=
                       map (\<lambda>c. if ci_id c = ci_id existingItem
                                then c\<lparr>ci_quantity := newQuantity, ci_total := newTotal\<rparr> else c)
                           (cartItems st)\<rparr>))
         | None \<Rightarrow>
             (case createCartItem env st
                     \<lparr>ci_id = [], ci_userId = userId, ci_productId = productId,
                      ci_productName = productName, ci_description = description,
                      ci_price = price, ci_quantity = quantity,
                      ci_total = price * of_int quantity,
                      ci_imageUrl = imageUrl, ci_productUrl = productUrl, ci_createdAt = 0\<rparr> of
                (Inl e, st1) \<Rightarrow> (Inl (case e_message e of None \<Rightarrow> ''Failed to add item to cart''
                                                          | Some m \<Rightarrow> if m = [] then ''Failed to add item to cart'' else m), st1)
              | (Inr row, st1) \<Rightarrow> (Inr row, st1))))"

section \<open>Test fixtures\<close>

text \<open>A concrete environment and concrete states, on which the definitions are evaluated.
  The stand-in for \<^verbatim>\<open>parseFloat\<close> reads an unsigned decimal numeral.\<close>

definition decimalOf :: "string \<Rightarrow> rat" where
  "decimalOf s =
     (let ip = takeWhile isDigit s;
          fp = (case dropWhile isDigit s of
                  [] \<Rightarrow> []
                | c # r \<Rightarrow> if c = CHR ''.'' then takeWhile isDigit r else [])
      in of_nat (decimalValue ip) + of_nat (decimalValue fp) / 10 ^ length fp)"

definition okReply :: "string \<Rightarrow> jsError + reply" where
  "okReply text = Inr \<lparr>content = text\<rparr>"

definition testEnv :: "(callSite \<Rightarrow> jsError + reply) \<Rightarrow> env" where
  "testEnv ai =
     \<lparr>createUser = (\<lambda>name. Inr ''sensay-1''),
      chatWithReplica = (\<lambda>site sensayUserId prompt. ai site),
      searchProducts = (\<lambda>query limit. Inr []),
      formatPrice = (\<lambda>amount currency. currency @ '' '' @ amount),
      parseFloat = decimalOf,
      numberToString = (\<lambda>r. showInt (floor r)),
      toLocaleDateString = showNat,
      newId = (\<lambda>ids. ''new-'' @ showNat (length ids)),
      userMessageSaveFails = False,
      aiMessageSaveFails = False,
      cartCreateFails = False\<rparr>"

definition tee :: product where
  "tee = \<lparr>p_id = ''p1'', p_handle = ''tee'', p_title = ''Tee'', p_description = ''A shirt'',
          p_amount = ''10.0'', p_currencyCode = ''USD'', p_imageUrl = None\<rparr>"

definition teeRow :: cartItem where
  "teeRow = \<lparr>ci_id = ''c1'', ci_userId = ''u1'', ci_productId = ''p1'', ci_productName = ''Tee'',
             ci_description = ''A shirt'', ci_price = 10, ci_quantity = 1, ci_total = 10,
             ci_imageUrl = None,
             ci_productUrl = Some ''https://shoppysensay.myshopify.com/products/tee'',
             ci_createdAt = 3\<rparr>"

definition userMsg :: "string \<Rightarrow> nat \<Rightarrow> string \<Rightarrow> chatMessage" where
  "userMsg sid t text =
     \<lparr>cm_sessionId = sid, cm_role = ''user'', cm_content = text, cm_timestamp = t,
      cm_link = None, cm_shopifyProducts = None\<rparr>"

definition assistantMsg :: "string \<Rightarrow> nat \<Rightarrow> string \<Rightarrow> product list \<Rightarrow> chatMessage" where
  "assistantMsg sid t text ps =
     \<lparr>cm_sessionId = sid, cm_role = ''assistant'', cm_content = text, cm_timestamp = t,
      cm_link = None, cm_shopifyProducts = (if ps = [] then None else Some (JArray ps))\<rparr>"

text \<open>User \<open>u1\<close> with one session \<open>s1\<close>, in which the assistant has shown the tee, and
  one tee in the cart.\<close>

definition shopState :: state where
  "shopState =
     \<lparr>users = [\<lparr>u_id = ''u1'', u_sensayUserId = Some ''sensay-1''\<rparr>],
      chatSessions = [\<lparr>cs_id = ''s1'', cs_userId = ''u1'', cs_updatedAt = 2\<rparr>],
      chatMessages = [userMsg ''s1'' 1 ''hello'', assistantMsg ''s1'' 2 ''Here is a tee'' [tee]],
      cartItems = [teeRow],
      purchaseHistory = [],
      now = 4,
      aiLog = []\<rparr>"

text \<open>The same shop with purchases on record: two of the user, the older one first in
  the table, and one of another user.\<close>

definition mugPurchase :: purchase where
  "mugPurchase = \<lparr>ph_userId = ''u1'', ph_productName = ''Mug'', ph_price = 5, ph_quantity = 2,
                   ph_purchaseDate = 1\<rparr>"

definition penPurchase :: purchase where
  "penPurchase = \<lparr>ph_userId = ''u2'', ph_productName = ''Pen'', ph_price = 2, ph_quantity = 4,
                   ph_purchaseDate = 2\<rparr>"

definition capPurchase :: purchase where
  "capPurchase = \<lparr>ph_userId = ''u1'', ph_productName = ''Cap'', ph_price = 8, ph_quantity = 1,
                   ph_purchaseDate = 3\<rparr>"

definition histState :: state where
  "histState = shopState\<lparr>purchaseHistory := [mugPurchase, penPurchase, capPurchase]\<rparr>"

text \<open>The same shop with a longer session: the assistant shows the tee, then the user
  writes ten messages.\<close>

definition s1Session :: chatSession where
  "s1Session = \<lparr>cs_id = ''s1'', cs_userId = ''u1'', cs_updatedAt = 2\<rparr>"

definition longState :: state where
  "longState = shopState\<lparr>chatMessages :=
      assistantMsg ''s1'' 1 ''Here is a tee'' [tee] # map (\<lambda>t. userMsg ''s1'' t ''hm'') [2..<12]\<rparr>"

text \<open>An error as an aborted request raises it.\<close>

definition abortError :: jsError where
  "abortError = \<lparr>e_code = None, e_name = ''AbortError'',
                  e_message = Some ''This operation was aborted''\<rparr>"

text \<open>An AI service whose call in the search branch is aborted and whose other calls
  answer.\<close>

definition searchAbortsEnv :: env where
  "searchAbortsEnv =
     testEnv (\<lambda>site. if site = SearchCall then Inl abortError else okReply ''Here you go'')"

section \<open>Quantity extraction: properties\<close>

lemma isDigit_lowerChar: "isDigit (lowerChar c) = isDigit c"
  by (auto simp: isDigit_def lowerChar_def isUpper_def Let_def)

lemma isSpace_lowerChar: "isSpace (lowerChar c) = isSpace c"
  by (auto simp: isSpace_def lowerChar_def isUpper_def Let_def)

lemma digit_not_space: "isDigit c \<Longrightarrow> \<not> isSpace c"
  by (auto simp: isDigit_def isSpace_def Let_def)

lemma unitWords_head:
  "w \<in> set unitWords \<Longrightarrow> w \<noteq> [] \<and> \<not> isDigit (hd w) \<and> \<not> isSpace (hd w)"
  by (auto simp: unitWords_def isDigit_def isSpace_def)

lemma quantityMatchAt_nondigit:
  "\<not> isDigit c \<Longrightarrow> quantityMatchAt (c # cs) = None"
  by (simp add: quantityMatchAt_def)

lemma quantityMatch_no_digit:
  "\<forall>c\<in>set m. \<not> isDigit c \<Longrightarrow> quantityMatch m = None"
  by (induction m) (simp_all add: quantityMatchAt_nondigit)

lemma quantityMatch_skip:
  "\<forall>c\<in>set pre. \<not> isDigit c \<Longrightarrow> quantityMatch (pre @ m) = quantityMatch m"
  by (induction pre) (simp_all add: quantityMatchAt_nondigit)

lemma quantityMatchAt_hit:
  assumes ds: "ds \<noteq> []" "\<forall>c\<in>set ds. isDigit c"
    and ws: "\<forall>c\<in>set ws. isSpace c"
    and u: "toLowerCase u \<in> set unitWords"
  shows "quantityMatchAt (ds @ ws @ u @ post) = Some ds"
proof -
  from unitWords_head[OF u] have lu: "toLowerCase u \<noteq> []"
    and hd: "\<not> isDigit (hd (toLowerCase u))" "\<not> isSpace (hd (toLowerCase u))" by auto
  from lu obtain a u' where ueq: "u = a # u'" by (cases u) (auto simp: toLowerCase_def)
  with hd have a: "\<not> isDigit a" "\<not> isSpace a"
    by (simp_all add: toLowerCase_def isDigit_lowerChar isSpace_lowerChar)
  have nd: "\<forall>c\<in>set ws. \<not> isDigit c" using ws digit_not_space by blast
  have tw: "takeWhile isDigit (ds @ ws @ u @ post) = ds"
  proof (cases ws)
    case Nil
    then show ?thesis using ds a ueq by (simp add: takeWhile_tail)
  next
    case (Cons b ws')
    then have "\<not> isDigit b" using nd by simp
    then show ?thesis using ds Cons by (simp add: takeWhile_tail)
  qed
  have dw: "dropWhile isDigit (ds @ ws @ u @ post) = ws @ u @ post"
  proof (cases ws)
    case Nil
    then show ?thesis using ds a ueq by (simp add: dropWhile_append3)
  next
    case (Cons b ws')
    then have "\<not> isDigit b" using nd by simp
    then show ?thesis using ds Cons by (simp add: dropWhile_append3)
  qed
  have ds2: "dropWhile isSpace (ws @ u @ post) = u @ post"
    using ws a ueq by (simp add: dropWhile_append3)
  have pre: "prefix (toLowerCase u) (toLowerCase (u @ post))"
    by (simp add: toLowerCase_def)
  show ?thesis
    unfolding quantityMatchAt_def Let_def tw dw ds2
    using ds u pre by (auto simp: list_ex_iff)
qed

text \<open>Conversely, a match at a position reads the text from there as digits, white space
  and a word that begins with a unit word.\<close>

lemma quantityMatchAt_SomeD:
  assumes "quantityMatchAt s = Some ds"
  shows "\<exists>ws u rest. s = ds @ ws @ u @ rest \<and> ds \<noteq> [] \<and> (\<forall>c\<in>set ds. isDigit c) \<and>
           (\<forall>c\<in>set ws. isSpace c) \<and> toLowerCase u \<in> set unitWords"
proof -
  let ?r = "dropWhile isSpace (dropWhile isDigit s)"
  from assms have ds: "ds = takeWhile isDigit s" "ds \<noteq> []"
    and ex: "list_ex (\<lambda>u. prefix u (toLowerCase ?r)) unitWords"
    by (auto simp: quantityMatchAt_def Let_def split: if_splits)
  from ex obtain w where w: "w \<in> set unitWords" "prefix w (toLowerCase ?r)"
    by (auto simp: list_ex_iff)
  let ?u = "take (length w) ?r"
  have "take (length w) (toLowerCase ?r) = w" using w(2) by (auto simp: prefix_def)
  then have lu: "toLowerCase ?u = w" by (simp add: toLowerCase_def take_map)
  let ?ws = "takeWhile isSpace (dropWhile isDigit s)"
  have "s = ds @ ?ws @ ?u @ drop (length w) ?r"
    by (simp add: ds(1))
  moreover have "\<forall>c\<in>set ds. isDigit c" using ds(1) by (auto dest: set_takeWhileD)
  moreover have "\<forall>c\<in>set ?ws. isSpace c"
    by (auto dest: set_takeWhileD)
  ultimately have "s = ds @ ?ws @ ?u @ drop (length w) ?r \<and> ds \<noteq> [] \<and>
      (\<forall>c\<in>set ds. isDigit c) \<and> (\<forall>c\<in>set ?ws. isSpace c) \<and> toLowerCase ?u \<in> set unitWords"
    using ds(2) lu w(1) by simp
  then show ?thesis by (intro exI)
qed

lemma quantityMatch_None_iff:
  "quantityMatch m = None \<longleftrightarrow> (\<forall>i<length m. quantityMatchAt (drop i m) = None)"
proof (induction m)
  case Nil
  show ?case by simp
next
  case (Cons c cs)
  have "(\<forall>i<length (c # cs). quantityMatchAt (drop i (c # cs)) = None) \<longleftrightarrow>
        quantityMatchAt (c # cs) = None \<and> (\<forall>i<length cs. quantityMatchAt (drop i cs) = None)"
    by (auto simp: less_Suc_eq_0_disj)
  with Cons show ?case by (auto split: option.splits)
qed

lemma quantityMatch_leftmost:
  assumes "quantityMatchAt s = Some ds"
    and "\<forall>i<length pre. quantityMatchAt (drop i (pre @ s)) = None"
  shows "quantityMatch (pre @ s) = Some ds"
  using assms(2)
proof (induction pre)
  case Nil
  from assms(1) have "s \<noteq> []" by (auto simp: quantityMatchAt_def Let_def split: if_splits)
  then obtain c cs where "s = c # cs" by (cases s) auto
  with assms(1) show ?case by simp
next
  case (Cons a pre)
  from Cons.prems have h0: "quantityMatchAt (a # pre @ s) = None" by fastforce
  from Cons.prems have "\<forall>i<length pre. quantityMatchAt (drop i (pre @ s)) = None"
    by (metis Suc_less_eq append_Cons drop_Suc_Cons length_Cons)
  from Cons.IH[OF this] h0 show ?case by simp
qed

text \<open>A quantity expression at \<open>pre\<close>: the message reads \<open>pre\<close>, then digits, white space and
  a word that begins with a unit word.\<close>

lemma quantityMatchAt_drop:
  assumes "m = pre @ ds @ ws @ u @ rest" "ds \<noteq> []" "\<forall>c\<in>set ds. isDigit c"
    "\<forall>c\<in>set ws. isSpace c" "toLowerCase u \<in> set unitWords"
  shows "quantityMatchAt (drop (length pre) m) = Some ds \<and> length pre < length m"
  using quantityMatchAt_hit[OF assms(2-5), of rest] assms(1,2) by simp

lemma requestedQuantity_none:
  assumes "\<forall>pre ds ws u rest.
      m = pre @ ds @ ws @ u @ rest \<and> ds \<noteq> [] \<and> (\<forall>c\<in>set ds. isDigit c) \<and>
      (\<forall>c\<in>set ws. isSpace c) \<longrightarrow> toLowerCase u \<notin> set unitWords"
  shows "requestedQuantity m = Finite 1"
proof -
  have "quantityMatchAt (drop i m) = None" for i
  proof (cases "quantityMatchAt (drop i m)")
    case None
    then show ?thesis .
  next
    case (Some ds)
    from quantityMatchAt_SomeD[OF Some] obtain ws u rest where
      d: "drop i m = ds @ ws @ u @ rest" "ds \<noteq> []" "\<forall>c\<in>set ds. isDigit c"
         "\<forall>c\<in>set ws. isSpace c" "toLowerCase u \<in> set unitWords" by blast
    have "m = take i m @ ds @ ws @ u @ rest" using d(1) by (metis append_take_drop_id)
    with assms d(2-5) show ?thesis by blast
  qed
  then have "quantityMatch m = None" by (simp add: quantityMatch_None_iff)
  then show ?thesis by (simp add: requestedQuantity_def)
qed

lemma requestedQuantity_leftmost:
  assumes ex: "ds \<noteq> []" "\<forall>c\<in>set ds. isDigit c" "\<forall>c\<in>set ws. isSpace c"
      "toLowerCase u \<in> set unitWords"
    and least: "\<forall>pre' ds' ws' u' rest'.
      pre @ ds @ ws @ u @ rest = pre' @ ds' @ ws' @ u' @ rest' \<and> ds' \<noteq> [] \<and>
      (\<forall>c\<in>set ds'. isDigit c) \<and> (\<forall>c\<in>set ws'. isSpace c) \<and>
      toLowerCase u' \<in> set unitWords \<longrightarrow> length pre \<le> length pre'"
  shows "requestedQuantity (pre @ ds @ ws @ u @ rest) = parseInt ds"
proof -
  let ?s = "ds @ ws @ u @ rest"
  have hit: "quantityMatchAt ?s = Some ds" by (rule quantityMatchAt_hit[OF ex])
  have "quantityMatchAt (drop i (pre @ ?s)) = None" if i: "i < length pre" for i
  proof (cases "quantityMatchAt (drop i (pre @ ?s))")
    case None
    then show ?thesis .
  next
    case (Some ds')
    from quantityMatchAt_SomeD[OF Some] obtain ws' u' rest' where
      d: "drop i (pre @ ?s) = ds' @ ws' @ u' @ rest'" "ds' \<noteq> []" "\<forall>c\<in>set ds'. isDigit c"
         "\<forall>c\<in>set ws'. isSpace c" "toLowerCase u' \<in> set unitWords" by blast
    have "pre @ ?s = take i (pre @ ?s) @ ds' @ ws' @ u' @ rest'"
      using d(1) by (metis append_take_drop_id)
    with least d(2-5) have "length pre \<le> length (take i (pre @ ?s))" by blast
    with i show ?thesis by simp
  qed
  then have "quantityMatch (pre @ ?s) = Some ds"
    using quantityMatch_leftmost[OF hit] by blast
  then show ?thesis by (simp add: requestedQuantity_def)
qed

text \<open>The two hypotheses above, in a form that evaluates on a given message.\<close>

lemma no_expression:
  assumes "quantityMatch m = None"
  shows "\<forall>pre ds ws u rest.
      m = pre @ ds @ ws @ u @ rest \<and> ds \<noteq> [] \<and> (\<forall>c\<in>set ds. isDigit c) \<and>
      (\<forall>c\<in>set ws. isSpace c) \<longrightarrow> toLowerCase u \<notin> set unitWords"
proof (intro allI impI notI)
  fix pre ds ws u rest
  assume h: "m = pre @ ds @ ws @ u @ rest \<and> ds \<noteq> [] \<and> (\<forall>c\<in>set ds. isDigit c) \<and>
      (\<forall>c\<in>set ws. isSpace c)" and u: "toLowerCase u \<in> set unitWords"
  from quantityMatchAt_drop[of m pre ds ws u rest] h u
  have "quantityMatchAt (drop (length pre) m) = Some ds" "length pre < length m" by auto
  with assms show False by (auto simp: quantityMatch_None_iff)
qed

lemma no_earlier_expression:
  assumes "list_all (\<lambda>i. quantityMatchAt (drop i m) = None) [0..<k]"
  shows "\<forall>pre' ds' ws' u' rest'.
      m = pre' @ ds' @ ws' @ u' @ rest' \<and> ds' \<noteq> [] \<and>
      (\<forall>c\<in>set ds'. isDigit c) \<and> (\<forall>c\<in>set ws'. isSpace c) \<and>
      toLowerCase u' \<in> set unitWords \<longrightarrow> k \<le> length pre'"
proof (intro allI impI)
  fix pre' ds' ws' u' rest'
  assume h: "m = pre' @ ds' @ ws' @ u' @ rest' \<and> ds' \<noteq> [] \<and>
      (\<forall>c\<in>set ds'. isDigit c) \<and> (\<forall>c\<in>set ws'. isSpace c) \<and>
      toLowerCase u' \<in> set unitWords"
  from quantityMatchAt_drop[of m pre' ds' ws' u' rest'] h
  have "quantityMatchAt (drop (length pre') m) = Some ds'" by auto
  moreover have "\<forall>i<k. quantityMatchAt (drop i m) = None"
    using assms by (simp add: list_all_iff)
  ultimately show "k \<le> length pre'" by (metis not_le_imp_less option.distinct(1))
qed

subsection \<open>The number read\<close>

lemma bitLength_le: "bitLength n \<le> k \<longleftrightarrow> n < 2 ^ k"
proof (induction n arbitrary: k rule: bitLength.induct)
  case (1 n)
  show ?case
  proof (cases "n = 0")
    case True
    then show ?thesis by (simp add: bitLength.simps)
  next
    case False
    show ?thesis
    proof (cases k)
      case 0
      with False show ?thesis by (simp add: bitLength.simps[of n])
    next
      case (Suc j)
      have "bitLength n \<le> Suc j \<longleftrightarrow> bitLength (n div 2) \<le> j"
        using False by (simp add: bitLength.simps[of n])
      also have "\<dots> \<longleftrightarrow> n div 2 < 2 ^ j" using 1[OF False] by simp
      also have "\<dots> \<longleftrightarrow> n < 2 ^ Suc j" by auto
      finally show ?thesis using Suc by simp
    qed
  qed
qed

lemma bitLength_eq: "2 ^ k \<le> n \<Longrightarrow> n < 2 ^ Suc k \<Longrightarrow> bitLength n = Suc k"
  using bitLength_le[of n k] bitLength_le[of n "Suc k"] by simp

lemma toDouble_exact: "n < 2 ^ 53 \<Longrightarrow> toDouble n = Finite n"
  using bitLength_le[of n 53] by (simp add: toDouble_def Let_def)

lemma parseInt_exact: "decimalValue ds < 2 ^ 53 \<Longrightarrow> parseInt ds = Finite (decimalValue ds)"
  by (simp add: parseInt_def toDouble_exact)

lemma dv: "decimalValue ''9007199254740993'' = 9007199254740993"
  by (simp add: decimalValue_def digitVal_def)

lemma big_bits: "bitLength 9007199254740993 = 54"
  by (rule bitLength_eq[of 53 9007199254740993, simplified])

lemma big_round: "toDouble 9007199254740993 = Finite 9007199254740992"
  unfolding toDouble_def Let_def big_bits
  by (simp add: bitLength.simps)

lemma toDouble_long:
  assumes "\<not> bitLength n \<le> 53"
  shows "toDouble n =
     (if bitLength (if 2 * (n mod 2 ^ (bitLength n - 53)) > 2 ^ (bitLength n - 53) \<or>
                       (2 * (n mod 2 ^ (bitLength n - 53)) = 2 ^ (bitLength n - 53) \<and>
                        odd (n div 2 ^ (bitLength n - 53)))
                    then n div 2 ^ (bitLength n - 53) + 1 else n div 2 ^ (bitLength n - 53)) +
         (bitLength n - 53) > 1024
      then PosInfinity
      else Finite ((if 2 * (n mod 2 ^ (bitLength n - 53)) > 2 ^ (bitLength n - 53) \<or>
                       (2 * (n mod 2 ^ (bitLength n - 53)) = 2 ^ (bitLength n - 53) \<and>
                        odd (n div 2 ^ (bitLength n - 53)))
                    then n div 2 ^ (bitLength n - 53) + 1 else n div 2 ^ (bitLength n - 53)) *
                   2 ^ (bitLength n - 53)))"
  unfolding toDouble_def Let_def using assms by (simp only: if_False)

text \<open>Above \<open>2^53\<close> the result is a multiple of the spacing of the doubles around the number
  and lies within half a spacing of it.\<close>

lemma round_near:
  fixes q r e :: nat
  assumes n: "n = q * 2 ^ e + r" and rl: "r < 2 ^ e"
    and v: "v = (if 2 * r > 2 ^ e \<or> (2 * r = 2 ^ e \<and> odd q) then q + 1 else q) * 2 ^ e"
  shows "2 * \<bar>int v - int n\<bar> \<le> 2 ^ e"
proof -
  have rl': "int r < 2 ^ e" using rl by (metis of_nat_less_iff of_nat_numeral of_nat_power)
  show ?thesis
  proof (cases "2 * r > 2 ^ e \<or> (2 * r = 2 ^ e \<and> odd q)")
    case True
    then have "v = q * 2 ^ e + 2 ^ e" unfolding v by (simp only: if_True add_mult_distrib mult_1)
    then have d: "int v - int n = 2 ^ e - int r" unfolding n by simp
    from True have "2 ^ e \<le> 2 * r" by auto
    then have "int (2 ^ e) \<le> int (2 * r)" by (simp only: of_nat_le_iff)
    then have "2 ^ e \<le> 2 * int r" by simp
    with rl' show ?thesis unfolding d by simp
  next
    case False
    then have "v = q * 2 ^ e" unfolding v by (simp only: if_False)
    then have d: "int v - int n = - int r" unfolding n by simp
    from False have "2 * r \<le> 2 ^ e" by auto
    then have "int (2 * r) \<le> int (2 ^ e)" by (simp only: of_nat_le_iff)
    then have "2 * int r \<le> 2 ^ e" by simp
    then show ?thesis unfolding d by simp
  qed
qed

lemma toDouble_near:
  assumes "toDouble n = Finite v"
  shows "2 ^ (bitLength n - 53) dvd v \<and>
         2 * \<bar>int v - int n\<bar> \<le> 2 ^ (bitLength n - 53)"
proof (cases "bitLength n \<le> 53")
  case True
  then have "toDouble n = Finite n" unfolding toDouble_def Let_def by (simp only: if_True)
  with assms have "v = n" by simp
  then show ?thesis using True by simp
next
  case False
  define e where "e = bitLength n - 53"
  define q where "q = n div 2 ^ e"
  define r where "r = n mod 2 ^ e"
  define q' where "q' = (if 2 * r > 2 ^ e \<or> (2 * r = 2 ^ e \<and> odd q) then q + 1 else q)"
  have "toDouble n = (if bitLength q' + e > 1024 then PosInfinity else Finite (q' * 2 ^ e))"
    unfolding q'_def r_def q_def e_def by (rule toDouble_long[OF False])
  with assms have v: "v = q' * 2 ^ e"
    by (cases "bitLength q' + e > 1024") (simp_all only: if_True if_False jsNumber.inject jsNumber.distinct)
  have n: "n = q * 2 ^ e + r" unfolding q_def r_def by (rule div_mult_mod_eq[symmetric])
  have rl: "r < 2 ^ e" unfolding r_def by simp
  have "2 * \<bar>int v - int n\<bar> \<le> 2 ^ e"
    by (rule round_near[OF n rl]) (simp only: v q'_def)
  moreover have "2 ^ e dvd v" unfolding v by (rule dvd_triv_right)
  ultimately show ?thesis unfolding e_def by (rule conjI[rotated])
qed

lemma requestedQuantity_hit:
  assumes "\<forall>c\<in>set pre. \<not> isDigit c" "ds \<noteq> []" "\<forall>c\<in>set ds. isDigit c"
    "\<forall>c\<in>set ws. isSpace c" "toLowerCase u \<in> set unitWords"
  shows "requestedQuantity (pre @ ds @ ws @ u @ post) = parseInt ds"
proof -
  obtain d ds' where dd: "ds = d # ds'" using assms(2) by (cases ds) auto
  have "quantityMatch (ds @ ws @ u @ post) = Some ds"
    using quantityMatchAt_hit[OF assms(2-5), of post] by (simp add: dd)
  then show ?thesis
    by (simp add: requestedQuantity_def quantityMatch_skip[OF assms(1)])
qed

lemma bitLength_bounds:
  assumes "0 < n"
  shows "2 ^ (bitLength n - 1) \<le> n \<and> n < 2 ^ bitLength n"
proof -
  have u: "n < 2 ^ bitLength n" using bitLength_le[of n "bitLength n"] by simp
  have "0 < bitLength n" using assms by (simp add: bitLength.simps[of n])
  then have "\<not> bitLength n \<le> bitLength n - 1" by simp
  then have "\<not> n < 2 ^ (bitLength n - 1)" unfolding bitLength_le .
  with u show ?thesis by simp
qed

text \<open>The 53 leading binary digits of a longer number.\<close>

lemma leading_bits:
  assumes "\<not> bitLength n \<le> 53"
  shows "2 ^ 52 \<le> n div 2 ^ (bitLength n - 53) \<and> n div 2 ^ (bitLength n - 53) < 2 ^ 53"
proof -
  define e where "e = bitLength n - 53"
  have b: "bitLength n = e + 53" "bitLength n - 1 = e + 52" using assms by (simp_all add: e_def)
  have "bitLength 0 = 0" by (simp add: bitLength.simps[of 0])
  with assms have "0 < n" by (cases "n = 0") simp_all
  note bb = bitLength_bounds[OF this, unfolded b(2), unfolded b(1)]
  have lo: "2 ^ (e + 52) \<le> n" by (rule conjunct1[OF bb])
  have hi: "n < 2 ^ (e + 53)" by (rule conjunct2[OF bb])
  have "n div 2 ^ e < 2 ^ 53"
    using hi by (simp add: less_mult_imp_div_less power_add mult.commute)
  moreover have "2 ^ 52 * 2 ^ e \<le> n" using lo by (simp add: power_add mult.commute)
  then have "2 ^ 52 \<le> n div 2 ^ e"
    by (metis div_le_mono div_mult_self_is_m zero_less_numeral zero_less_power)
  ultimately show ?thesis unfolding e_def by simp
qed


lemma toDouble_tie:
  assumes "toDouble n = Finite v" and "\<not> bitLength n \<le> 53"
    and "2 * \<bar>int v - int n\<bar> = 2 ^ (bitLength n - 53)"
  shows "even (v div 2 ^ (bitLength n - 53))"
proof -
  define e where "e = bitLength n - 53"
  define q where "q = n div 2 ^ e"
  define r where "r = n mod 2 ^ e"
  define q' where "q' = (if 2 * r > 2 ^ e \<or> (2 * r = 2 ^ e \<and> odd q) then q + 1 else q)"
  have "toDouble n = (if bitLength q' + e > 1024 then PosInfinity else Finite (q' * 2 ^ e))"
    unfolding q'_def r_def q_def e_def by (rule toDouble_long[OF assms(2)])
  with assms(1) have v: "v = q' * 2 ^ e"
    by (cases "bitLength q' + e > 1024") (simp_all only: if_True if_False jsNumber.inject jsNumber.distinct)
  have nn: "n = q * 2 ^ e + r" unfolding q_def r_def by (rule div_mult_mod_eq[symmetric])
  have n: "int n = int q * 2 ^ e + int r" by (subst nn) simp
  have "r < 2 ^ e" unfolding r_def by simp
  then have "int r < int (2 ^ e)" by (simp only: of_nat_less_iff)
  then have rl: "int r < 2 ^ e" by simp
  have vq: "v div 2 ^ e = q'" unfolding v by simp
  have tie: "2 * \<bar>int v - int n\<bar> = 2 ^ e" using assms(3) unfolding e_def .
  have "2 * int r = 2 ^ e"
  proof (cases "q' = q")
    case True
    then have "int v - int n = - int r" unfolding v n by simp
    with tie show ?thesis by simp
  next
    case False
    then have "q' = q + 1" unfolding q'_def by (simp split: if_splits)
    then have "int v - int n = 2 ^ e - int r" unfolding v n by (simp add: algebra_simps)
    with tie rl show ?thesis by simp
  qed
  then have "int (2 * r) = int (2 ^ e)" by simp
  then have t: "2 * r = 2 ^ e" by (simp only: of_nat_eq_iff)
  have "even q'" unfolding q'_def using t by simp
  then show ?thesis unfolding vq e_def[symmetric] .
qed

lemma bitLength_ge: "k < bitLength n \<longleftrightarrow> 2 ^ k \<le> n"
  using bitLength_le[of n k] by auto

text \<open>Rounding at the top of the range, with \<open>P\<close> half the spacing: the result passes
  \<open>2 * K * P\<close> exactly when the number is within \<open>P\<close> of it.\<close>

lemma round_top:
  fixes q r P K :: nat
  assumes n: "n = q * (2 * P) + r" and r: "r < 2 * P" and q: "q < K"
  shows "q + 1 = K \<and> P \<le> r \<longleftrightarrow> 2 * K * P \<le> n + P"
proof (cases "q + 1 = K")
  case True
  then have K: "K = q + 1" by simp
  have "2 * K * P = q * (2 * P) + 2 * P" unfolding K by (simp add: algebra_simps)
  then show ?thesis using True unfolding n by simp
next
  case False
  with q have "q + 2 \<le> K" by simp
  then have "(q + 2) * (2 * P) \<le> K * (2 * P)" by (rule mult_le_mono1)
  then have "q * (2 * P) + 4 * P \<le> 2 * K * P" by (simp add: algebra_simps)
  with r have "n + P < 2 * K * P" unfolding n by simp
  with False show ?thesis by simp
qed

lemma overflow_iff:
  assumes long: "\<not> bitLength n \<le> 53" and M: "54 \<le> M"
  shows "M < bitLength
               (if 2 * (n mod 2 ^ (bitLength n - 53)) > 2 ^ (bitLength n - 53) \<or>
                   (2 * (n mod 2 ^ (bitLength n - 53)) = 2 ^ (bitLength n - 53) \<and>
                    odd (n div 2 ^ (bitLength n - 53)))
                then n div 2 ^ (bitLength n - 53) + 1 else n div 2 ^ (bitLength n - 53)) +
             (bitLength n - 53)
         \<longleftrightarrow> 2 ^ M \<le> n + 2 ^ (M - 54)"
proof -
  define b where "b = bitLength n"
  define e where "e = b - 53"
  define q where "q = n div 2 ^ e"
  define r where "r = n mod 2 ^ e"
  define up where "up \<longleftrightarrow> 2 * r > 2 ^ e \<or> (2 * r = 2 ^ e \<and> odd q)"
  define q' where "q' = (if up then q + 1 else q)"
  have goal: "?thesis \<longleftrightarrow> (M < bitLength q' + e \<longleftrightarrow> 2 ^ M \<le> n + 2 ^ (M - 54))"
    unfolding q'_def up_def r_def q_def e_def b_def ..
  have be: "b = e + 53" using long by (simp add: e_def b_def)
  have qb: "2 ^ 52 \<le> q" "q < 2 ^ 53"
    using leading_bits[OF long] unfolding q_def e_def b_def by simp_all
  have nn: "n = q * 2 ^ e + r" unfolding q_def r_def by (rule div_mult_mod_eq[symmetric])
  have rl: "r < 2 ^ e" unfolding r_def by simp
  have "0 < n" using long by (cases "n = 0") (simp_all add: bitLength.simps[of 0])
  note bb = bitLength_bounds[OF this, folded b_def]
  have q'b: "q \<le> q'" "q' \<le> q + 1" by (simp_all add: q'_def)
  have bl: "53 \<le> bitLength q'" "bitLength q' \<le> 54"
  proof -
    have "2 ^ 52 \<le> q'" using qb(1) q'b(1) by simp
    then have "52 < bitLength q'" unfolding bitLength_ge .
    then show "53 \<le> bitLength q'" by simp
    have "q' < 2 ^ 54" using qb(2) q'b(2) by simp
    then show "bitLength q' \<le> 54" unfolding bitLength_le .
  qed
  have top: "bitLength q' = 54 \<longleftrightarrow> q + 1 = 2 ^ 53 \<and> up"
  proof -
    have "bitLength q' = 54 \<longleftrightarrow> \<not> bitLength q' \<le> 53" using bl by auto
    also have "\<dots> \<longleftrightarrow> 2 ^ 53 \<le> q'" unfolding bitLength_le by (rule not_less)
    also have "\<dots> \<longleftrightarrow> q + 1 = 2 ^ 53 \<and> up" using qb(2) by (auto simp: q'_def)
    finally show ?thesis .
  qed
  consider (big) "M < b" | (eq) "b = M" | (small) "b < M" by linarith
  then have "M < bitLength q' + e \<longleftrightarrow> 2 ^ M \<le> n + 2 ^ (M - 54)"
  proof cases
    case big
    then have "M \<le> b - 1" by simp
    then have "(2::nat) ^ M \<le> 2 ^ (b - 1)" by (rule power_increasing) simp
    from order_trans[OF this conjunct1[OF bb]]
    have "2 ^ M \<le> n + 2 ^ (M - 54)" by (rule trans_le_add1)
    moreover have "M < bitLength q' + e" using big bl(1) be by simp
    ultimately show ?thesis by simp
  next
    case small
    then have "b \<le> M - 1" by simp
    then have "(2::nat) ^ b \<le> 2 ^ (M - 1)" by (rule power_increasing) simp
    from order_less_le_trans[OF conjunct2[OF bb] this] have n1: "n < 2 ^ (M - 1)" .
    have "(2::nat) ^ (M - 54) \<le> 2 ^ (M - 1)" by (rule power_increasing) simp_all
    from add_less_le_mono[OF n1 this]
    have "n + 2 ^ (M - 54) < 2 ^ (M - 1) + 2 ^ (M - 1)" .
    also have "\<dots> = 2 ^ M" using M by (cases M) simp_all
    finally have "\<not> 2 ^ M \<le> n + 2 ^ (M - 54)" by simp
    moreover have "\<not> M < bitLength q' + e" using small bl(2) be by simp
    ultimately show ?thesis by simp
  next
    case eq
    define P :: nat where "P = 2 ^ (M - 54)"
    have e: "e = Suc (M - 54)" using eq be M by simp
    have pe: "(2::nat) ^ e = 2 * P" unfolding e P_def by simp
    have "M = 54 + (M - 54)" using M by simp
    then have "(2::nat) ^ M = 2 ^ 54 * 2 ^ (M - 54)" by (metis power_add)
    then have pm: "(2::nat) ^ M = 2 * 2 ^ 53 * P" unfolding P_def by simp
    have oq: "q + 1 = 2 ^ 53 \<Longrightarrow> odd q"
      by (metis even_add even_numeral even_power odd_one zero_less_numeral)
    have "M < bitLength q' + e \<longleftrightarrow> bitLength q' = 54" using eq be bl by auto
    also have "\<dots> \<longleftrightarrow> q + 1 = 2 ^ 53 \<and> up" by (rule top)
    also have "\<dots> \<longleftrightarrow> q + 1 = 2 ^ 53 \<and> P \<le> r"
      using oq unfolding up_def pe by auto
    also have "\<dots> \<longleftrightarrow> 2 * 2 ^ 53 * P \<le> n + P"
      by (rule round_top[OF nn[unfolded pe] rl[unfolded pe] qb(2)])
    finally show ?thesis unfolding pm P_def .
  qed
  with goal show ?thesis by simp
qed

lemma toDouble_infinity: "toDouble n = PosInfinity \<longleftrightarrow> 2 ^ 1024 \<le> n + 2 ^ 970"
proof (cases "bitLength n \<le> 53")
  case True
  then have f: "toDouble n = Finite n" unfolding toDouble_def Let_def by (simp only: if_True)
  from True have "n < 2 ^ 53" unfolding bitLength_le .
  also have "(2::nat) ^ 53 \<le> 2 ^ 970" by (rule power_increasing) simp_all
  finally have "n + 2 ^ 970 < 2 ^ 970 + 2 ^ 970" by simp
  also have "\<dots> = (2::nat) ^ 971" by (simp only: mult_2[symmetric] power_Suc[symmetric]) simp
  also have "\<dots> \<le> (2::nat) ^ 1024" by (rule power_increasing) simp_all
  finally show ?thesis using f by simp
next
  case False
  have m: "(1024::nat) - 54 = 970" by simp
  show ?thesis
    unfolding toDouble_long[OF False]
    using overflow_iff[OF False, of 1024, unfolded m] by (simp split: if_splits)
qed

lemma requestedQuantity_three_pieces: "requestedQuantity ''add 3 pieces to cart'' = Finite 3"
  by code_simp

lemma requestedQuantity_no_number: "requestedQuantity ''add to cart'' = Finite 1"
  by code_simp

lemma unitWords_set:
  "set unitWords = {''buah'', ''piece'', ''item'', ''pc'', ''unit'', ''satuan''}"
  by (auto simp: unitWords_def)

text \<open>
  Claim C7, amended.  \<open>add 3 pieces to cart\<close> gives 3 and \<open>add to cart\<close> gives the
  default 1.  In general a quantity expression is a run of digits, then optional white
  space, then a word that begins, in any letter case, with one of \<open>buah\<close>, \<open>piece\<close>,
  \<open>item\<close>, \<open>pc\<close>, \<open>unit\<close>, \<open>satuan\<close>.  The requested quantity is read from the digits
  of the leftmost quantity expression of the message; a message without a quantity
  expression gives 1, whatever digits it holds.  The digits are read as a JavaScript
  number.  A number below \<open>2^53\<close> is the number written.  A larger one, of \<open>k\<close> binary
  digits, is rounded to a double: a multiple of the spacing \<open>2^(k - 53)\<close> of the doubles
  there, at most half a spacing away, and the even multiple when two are equally near.
  From \<open>2^1024 - 2^970\<close> on the result is \<^verbatim>\<open>Infinity\<close>.
\<close>

theorem requestedQuantity_spec:
  "requestedQuantity ''add 3 pieces to cart'' = Finite 3 \<and>
   requestedQuantity ''add to cart'' = Finite 1 \<and>
   (\<forall>pre ds ws u rest.
      ds \<noteq> [] \<and> (\<forall>c\<in>set ds. isDigit c) \<and> (\<forall>c\<in>set ws. isSpace c) \<and>
      toLowerCase u \<in> set unitWords \<and>
      (\<forall>pre' ds' ws' u' rest'.
          pre @ ds @ ws @ u @ rest = pre' @ ds' @ ws' @ u' @ rest' \<and> ds' \<noteq> [] \<and>
          (\<forall>c\<in>set ds'. isDigit c) \<and> (\<forall>c\<in>set ws'. isSpace c) \<and>
          toLowerCase u' \<in> set unitWords \<longrightarrow> length pre \<le> length pre')
      \<longrightarrow> requestedQuantity (pre @ ds @ ws @ u @ rest) = parseInt ds) \<and>
   (\<forall>m. (\<forall>pre ds ws u rest.
            m = pre @ ds @ ws @ u @ rest \<and> ds \<noteq> [] \<and> (\<forall>c\<in>set ds. isDigit c) \<and>
            (\<forall>c\<in>set ws. isSpace c) \<longrightarrow> toLowerCase u \<notin> set unitWords)
        \<longrightarrow> requestedQuantity m = Finite 1) \<and>
   set unitWords = {''buah'', ''piece'', ''item'', ''pc'', ''unit'', ''satuan''} \<and>
   (\<forall>ds. decimalValue ds < 2 ^ 53 \<longrightarrow> parseInt ds = Finite (decimalValue ds)) \<and>
   (\<forall>ds v. parseInt ds = Finite v \<longrightarrow>
      2 ^ (bitLength (decimalValue ds) - 53) dvd v \<and>
      2 * \<bar>int v - int (decimalValue ds)\<bar> \<le> 2 ^ (bitLength (decimalValue ds) - 53)) \<and>
   (\<forall>ds v. parseInt ds = Finite v \<and> \<not> decimalValue ds < 2 ^ 53 \<and>
      2 * \<bar>int v - int (decimalValue ds)\<bar> = 2 ^ (bitLength (decimalValue ds) - 53)
      \<longrightarrow> even (v div 2 ^ (bitLength (decimalValue ds) - 53))) \<and>
   (\<forall>ds. parseInt ds = PosInfinity \<longleftrightarrow> 2 ^ 1024 \<le> decimalValue ds + 2 ^ 970) \<and>
   (\<forall>n k. bitLength n \<le> k \<longleftrightarrow> n < 2 ^ k)"
proof -
  have a: "\<forall>pre ds ws u rest.
      ds \<noteq> [] \<and> (\<forall>c\<in>set ds. isDigit c) \<and> (\<forall>c\<in>set ws. isSpace c) \<and>
      toLowerCase u \<in> set unitWords \<and>
      (\<forall>pre' ds' ws' u' rest'.
          pre @ ds @ ws @ u @ rest = pre' @ ds' @ ws' @ u' @ rest' \<and> ds' \<noteq> [] \<and>
          (\<forall>c\<in>set ds'. isDigit c) \<and> (\<forall>c\<in>set ws'. isSpace c) \<and>
          toLowerCase u' \<in> set unitWords \<longrightarrow> length pre \<le> length pre')
      \<longrightarrow> requestedQuantity (pre @ ds @ ws @ u @ rest) = parseInt ds"
  proof (intro allI impI)
    fix pre ds ws u rest
    assume h: "ds \<noteq> [] \<and> (\<forall>c\<in>set ds. isDigit c) \<and> (\<forall>c\<in>set ws. isSpace c) \<and>
      toLowerCase u \<in> set unitWords \<and>
      (\<forall>pre' ds' ws' u' rest'.
          pre @ ds @ ws @ u @ rest = pre' @ ds' @ ws' @ u' @ rest' \<and> ds' \<noteq> [] \<and>
          (\<forall>c\<in>set ds'. isDigit c) \<and> (\<forall>c\<in>set ws'. isSpace c) \<and>
          toLowerCase u' \<in> set unitWords \<longrightarrow> length pre \<le> length pre')"
    show "requestedQuantity (pre @ ds @ ws @ u @ rest) = parseInt ds"
      by (rule requestedQuantity_leftmost[OF conjunct1[OF h] conjunct1[OF conjunct2[OF h]]
            conjunct1[OF conjunct2[OF conjunct2[OF h]]]
            conjunct1[OF conjunct2[OF conjunct2[OF conjunct2[OF h]]]]
            conjunct2[OF conjunct2[OF conjunct2[OF conjunct2[OF h]]]]])
  qed
  have b: "\<forall>m. (\<forall>pre ds ws u rest.
            m = pre @ ds @ ws @ u @ rest \<and> ds \<noteq> [] \<and> (\<forall>c\<in>set ds. isDigit c) \<and>
            (\<forall>c\<in>set ws. isSpace c) \<longrightarrow> toLowerCase u \<notin> set unitWords)
        \<longrightarrow> requestedQuantity m = Finite 1"
  proof (intro allI impI)
    fix m
    assume h: "\<forall>pre ds ws u rest.
            m = pre @ ds @ ws @ u @ rest \<and> ds \<noteq> [] \<and> (\<forall>c\<in>set ds. isDigit c) \<and>
            (\<forall>c\<in>set ws. isSpace c) \<longrightarrow> toLowerCase u \<notin> set unitWords"
    show "requestedQuantity m = Finite 1" by (rule requestedQuantity_none[OF h])
  qed
  have c: "\<forall>ds. decimalValue ds < 2 ^ 53 \<longrightarrow> parseInt ds = Finite (decimalValue ds)"
    by (intro allI impI) (rule parseInt_exact)
  have d: "\<forall>ds v. parseInt ds = Finite v \<longrightarrow>
      2 ^ (bitLength (decimalValue ds) - 53) dvd v \<and>
      2 * \<bar>int v - int (decimalValue ds)\<bar> \<le> 2 ^ (bitLength (decimalValue ds) - 53)"
    by (intro allI impI) (rule toDouble_near, simp only: parseInt_def)
  have e: "\<forall>ds v. parseInt ds = Finite v \<and> \<not> decimalValue ds < 2 ^ 53 \<and>
      2 * \<bar>int v - int (decimalValue ds)\<bar> = 2 ^ (bitLength (decimalValue ds) - 53)
      \<longrightarrow> even (v div 2 ^ (bitLength (decimalValue ds) - 53))"
  proof (intro allI impI)
    fix ds v
    assume h: "parseInt ds = Finite v \<and> \<not> decimalValue ds < 2 ^ 53 \<and>
      2 * \<bar>int v - int (decimalValue ds)\<bar> = 2 ^ (bitLength (decimalValue ds) - 53)"
    show "even (v div 2 ^ (bitLength (decimalValue ds) - 53))"
      by (rule toDouble_tie[OF conjunct1[OF h, unfolded parseInt_def]
            conjunct1[OF conjunct2[OF h], folded bitLength_le] conjunct2[OF conjunct2[OF h]]])
  qed
  have f: "\<forall>ds. parseInt ds = PosInfinity \<longleftrightarrow> 2 ^ 1024 \<le> decimalValue ds + 2 ^ 970"
    unfolding parseInt_def by (intro allI) (rule toDouble_infinity)
  have g: "\<forall>n k. bitLength n \<le> k \<longleftrightarrow> n < 2 ^ k"
    by (intro allI) (rule bitLength_le)
  from requestedQuantity_three_pieces requestedQuantity_no_number a b unitWords_set c d e f g
  show ?thesis by (intro conjI)
qed

lemma iphone_none: "quantityMatch ''iphone 15 please'' = None"
  by code_simp

lemma cats_earlier:
  "list_all (\<lambda>i. quantityMatchAt (drop i (''2 cats and '' @ ''3'' @ '' '' @ ''Piece'' @ ''s'')) = None)
     [0..<11]"
  by code_simp

lemma piece_unit: "toLowerCase ''Piece'' \<in> set unitWords"
  by code_simp

theorem requestedQuantity_spec_witness:
  "requestedQuantity ''iphone 15 please'' = Finite 1 \<and>
   requestedQuantity (''2 cats and '' @ ''3'' @ '' '' @ ''Piece'' @ ''s'') = Finite 3"
proof -
  note leftmost = requestedQuantity_spec[THEN conjunct2, THEN conjunct2, THEN conjunct1,
      THEN spec, THEN spec, THEN spec, THEN spec, THEN spec, THEN mp]
  note default = requestedQuantity_spec[THEN conjunct2, THEN conjunct2, THEN conjunct2,
      THEN conjunct1, THEN spec, THEN mp]
  note exact = requestedQuantity_spec[THEN conjunct2, THEN conjunct2, THEN conjunct2,
      THEN conjunct2, THEN conjunct2, THEN conjunct1, THEN spec, THEN mp]
  have a: "requestedQuantity ''iphone 15 please'' = Finite 1"
    by (rule default) (rule no_expression[OF iphone_none])
  have dv3: "decimalValue ''3'' = 3" by (simp add: decimalValue_def digitVal_def)
  have "decimalValue ''3'' < 2 ^ 53" unfolding dv3 by simp
  from exact[OF this] have p3: "parseInt ''3'' = Finite 3" by (simp only: dv3)
  have len: "length ''2 cats and '' = 11" by simp
  have least: "\<forall>pre' ds' ws' u' rest'.
      ''2 cats and '' @ ''3'' @ '' '' @ ''Piece'' @ ''s'' = pre' @ ds' @ ws' @ u' @ rest' \<and> ds' \<noteq> [] \<and>
      (\<forall>c\<in>set ds'. isDigit c) \<and> (\<forall>c\<in>set ws'. isSpace c) \<and>
      toLowerCase u' \<in> set unitWords \<longrightarrow> length ''2 cats and '' \<le> length pre'"
    unfolding len by (rule no_earlier_expression[OF cats_earlier])
  have d3: "''3'' \<noteq> [] \<and> (\<forall>c\<in>set ''3''. isDigit c)" by (simp add: isDigit_def)
  have w1: "\<forall>c\<in>set '' ''. isSpace c" by (simp add: isSpace_def)
  have "requestedQuantity (''2 cats and '' @ ''3'' @ '' '' @ ''Piece'' @ ''s'') = parseInt ''3''"
    by (rule leftmost) (intro conjI conjunct1[OF d3] conjunct2[OF d3] w1 piece_unit least)
  with a p3 show ?thesis by (simp only: simp_thms)
qed

lemma big_parse: "parseInt ''9007199254740993'' = Finite 9007199254740992"
  by (simp only: parseInt_def dv big_round)

lemma big_pre: "\<forall>c\<in>set ''add ''. \<not> isDigit c"
  by (simp add: isDigit_def)

lemma big_digits: "\<forall>c\<in>set ''9007199254740993''. isDigit c"
  by (simp add: isDigit_def)

lemma sp1: "\<forall>c\<in>set '' ''. isSpace c"
  by (simp add: isSpace_def)

lemma piece_lower: "toLowerCase ''piece'' \<in> set unitWords"
  by code_simp

lemma big_split:
  "''add 9007199254740993 pieces to cart'' =
   ''add '' @ ''9007199254740993'' @ '' '' @ ''piece'' @ ''s to cart''"
  by simp

text \<open>
  Claim C7 as stated fails for a number that no double holds: in
  \<open>add 9007199254740993 pieces to cart\<close> the number \<open>2^53 + 1\<close> is followed by a unit word,
  and the requested quantity is \<open>2^53\<close>.
\<close>

theorem requestedQuantity_counterexample:
  "requestedQuantity ''add 9007199254740993 pieces to cart'' = Finite 9007199254740992 \<and>
   decimalValue ''9007199254740993'' = 9007199254740993"
proof -
  have "requestedQuantity (''add '' @ ''9007199254740993'' @ '' '' @ ''piece'' @ ''s to cart'')
          = parseInt ''9007199254740993''"
    by (rule requestedQuantity_hit[OF big_pre _ big_digits sp1 piece_lower]) simp
  then show ?thesis unfolding big_parse big_split[symmetric] using dv by (rule conjI)
qed

section \<open>The stages of a turn: what each leaves unchanged\<close>

lemma getOrCreateSensayUser_frame:
  "getOrCreateSensayUser env st userId = (r, st') \<Longrightarrow>
   chatSessions st' = chatSessions st \<and> chatMessages st' = chatMessages st \<and>
   cartItems st' = cartItems st \<and> purchaseHistory st' = purchaseHistory st \<and>
   now st' = now st \<and> aiLog st' = aiLog st"
  by (auto simp: getOrCreateSensayUser_def split: option.splits if_splits sum.splits)

lemma createCartItem_frame:
  "createCartItem env st item = (r, st') \<Longrightarrow>
   chatSessions st' = chatSessions st \<and> chatMessages st' = chatMessages st \<and>
   purchaseHistory st' = purchaseHistory st \<and> users st' = users st \<and> aiLog st' = aiLog st"
  by (auto simp: createCartItem_def Let_def split: if_splits)

lemma createCartItem_cart:
  "createCartItem env st item = (r, st') \<Longrightarrow>
   (case r of
      Inl e \<Rightarrow> st' = st
    | Inr row \<Rightarrow> cartItems st' = cartItems st @ [row] \<and>
                 row = item\<lparr>ci_id := newId env (map ci_id (cartItems st)), ci_createdAt := now st\<rparr> \<and>
                 ci_id row \<notin> set (map ci_id (cartItems st)))"
  by (auto simp: createCartItem_def Let_def split: if_splits)

lemma logCall_simps [simp]:
  "chatSessions (logCall site p st) = chatSessions st"
  "chatMessages (logCall site p st) = chatMessages st"
  "cartItems (logCall site p st) = cartItems st"
  "purchaseHistory (logCall site p st) = purchaseHistory st"
  "users (logCall site p st) = users st"
  "now (logCall site p st) = now st"
  "aiLog (logCall site p st) = aiLog st @ [(site, p)]"
  by (simp_all add: logCall_def)

lemma addFocusProductToCart_frame:
  "chatSessions (addFocusProductToCart env st u m t) = chatSessions st \<and>
   chatMessages (addFocusProductToCart env st u m t) = chatMessages st \<and>
   purchaseHistory (addFocusProductToCart env st u m t) = purchaseHistory st \<and>
   users (addFocusProductToCart env st u m t) = users st \<and>
   aiLog (addFocusProductToCart env st u m t) = aiLog st"
  by (auto simp: addFocusProductToCart_def createCartItem_def Let_def
      split: option.splits jsNumber.splits)

lemma addFocusProductToCart_cart:
  "prefix (cartItems st) (cartItems (addFocusProductToCart env st u m t))"
  by (auto simp: addFocusProductToCart_def createCartItem_def Let_def
      split: option.splits jsNumber.splits)

lemma systemActionStage_frame:
  "systemActionStage env st su u m t cc sc None = (r, st') \<Longrightarrow>
   chatSessions st' = chatSessions st \<and> chatMessages st' = chatMessages st \<and>
   purchaseHistory st' = purchaseHistory st \<and> users st' = users st"
  by (auto simp: systemActionStage_def Let_def addFocusProductToCart_frame
      split: if_splits sum.splits)

lemma systemActionStage_cart:
  "systemActionStage env st su u m t cc sc None = (r, st') \<Longrightarrow>
   prefix (cartItems st) (cartItems st')"
  using addFocusProductToCart_cart[of "logCall SystemActionCall (m @ cc @ sc) st" env u m t]
  by (auto simp: systemActionStage_def Let_def split: if_splits sum.splits)

lemma systemActionStage_cart_same:
  "systemActionStage env st su u m t cc sc None = (r, st') \<Longrightarrow> \<not> isPurchaseIntent m \<Longrightarrow>
   cartItems st' = cartItems st"
  by (auto simp: systemActionStage_def Let_def 
      split: if_splits sum.splits)

lemma callReplica_frame:
  "callReplica env st site su p = (r, st') \<Longrightarrow>
   chatSessions st' = chatSessions st \<and> chatMessages st' = chatMessages st \<and>
   purchaseHistory st' = purchaseHistory st \<and> users st' = users st \<and>
   cartItems st' = cartItems st \<and> now st' = now st"
  by (auto simp: callReplica_def)

lemma searchFallback_frame:
  "searchFallback env st su m cc ps = (r, st') \<Longrightarrow>
   chatSessions st' = chatSessions st \<and> chatMessages st' = chatMessages st \<and>
   purchaseHistory st' = purchaseHistory st \<and> users st' = users st \<and>
   cartItems st' = cartItems st \<and> now st' = now st"
  by (auto simp: searchFallback_def callReplica_def split: sum.splits)

lemma replyStage_frame:
  "replyStage env st su u m n cc = (r, st') \<Longrightarrow>
   chatSessions st' = chatSessions st \<and> chatMessages st' = chatMessages st \<and>
   purchaseHistory st' = purchaseHistory st \<and> users st' = users st \<and>
   cartItems st' = cartItems st \<and> now st' = now st"
  by (auto simp: replyStage_def Let_def callReplica_def dest!: searchFallback_frame
      split: if_splits sum.splits prod.splits)

lemma createSession_frame:
  "createSession env st u = (r, st') \<Longrightarrow>
   chatMessages st' = chatMessages st \<and>
   purchaseHistory st' = purchaseHistory st \<and> users st' = users st \<and>
   cartItems st' = cartItems st \<and> aiLog st' = aiLog st"
  by (auto simp: createSession_def Let_def split: if_splits)

lemma resolveSession_frame:
  "resolveSession env st u n s = (r, st') \<Longrightarrow>
   chatMessages st' = chatMessages st \<and>
   purchaseHistory st' = purchaseHistory st \<and> users st' = users st \<and>
   cartItems st' = cartItems st \<and> aiLog st' = aiLog st"
  by (auto simp: resolveSession_def dest!: createSession_frame split: if_splits option.splits)

lemma saveMessages_frame:
  "chatSessions (saveMessages env st sid m r ps) = chatSessions st \<and>
   purchaseHistory (saveMessages env st sid m r ps) = purchaseHistory st \<and>
   users (saveMessages env st sid m r ps) = users st \<and>
   cartItems (saveMessages env st sid m r ps) = cartItems st \<and>
   aiLog (saveMessages env st sid m r ps) = aiLog st"
  by (simp add: saveMessages_def createMessage_def Let_def)

lemma touchSession_frame:
  "chatMessages (touchSession st sid) = chatMessages st \<and>
   purchaseHistory (touchSession st sid) = purchaseHistory st \<and>
   users (touchSession st sid) = users st \<and>
   cartItems (touchSession st sid) = cartItems st \<and>
   aiLog (touchSession st sid) = aiLog st"
  by (simp add: touchSession_def)

lemma lookupSession_cong:
  "chatSessions st' = chatSessions st \<Longrightarrow> lookupSession st' u s = lookupSession st u s"
  by (simp add: lookupSession_def findSessionById_def findLatestSession_def)

lemma recentMessages_cong:
  "chatMessages st' = chatMessages st \<Longrightarrow> recentMessages st' = recentMessages st"
  by (intro ext) (simp add: recentMessages_def sessionMessages_def)

lemma resolveFocusProduct_cong:
  "chatMessages st' = chatMessages st \<Longrightarrow> resolveFocusProduct st' t = resolveFocusProduct st t"
  by (simp add: resolveFocusProduct_def recentMessages_cong[of st' st] cong: option.case_cong)

lemma conversationContextOf_cong:
  "chatMessages st' = chatMessages st \<Longrightarrow> conversationContextOf st' n t = conversationContextOf st n t"
  unfolding conversationContextOf_def by (simp only: recentMessages_cong[of st' st])

lemma historyData_cong:
  "purchaseHistory st' = purchaseHistory st \<Longrightarrow> historyData env st' u = historyData env st u"
  unfolding historyData_def recentPurchases_def by (simp only:)

lemma productHistoryData_cong:
  "purchaseHistory st' = purchaseHistory st \<Longrightarrow>
   productHistoryData env st' u m p = productHistoryData env st u m p"
  unfolding productHistoryData_def productPurchases_def by (simp only:)

lemma cartData_cong:
  "cartItems st' = cartItems st \<Longrightarrow> cartData env st' u = cartData env st u"
  unfolding cartData_def userCart_def by (simp only:)

lemma gatherSystemData_cong:
  "chatMessages st' = chatMessages st \<Longrightarrow> cartItems st' = cartItems st \<Longrightarrow>
   purchaseHistory st' = purchaseHistory st \<Longrightarrow>
   gatherSystemData env st' u m t = gatherSystemData env st u m t"
  unfolding gatherSystemData_def
  by (simp only: resolveFocusProduct_cong[of st' st] historyData_cong[of st' st]
      productHistoryData_cong[of st' st] cartData_cong[of st' st])

lemma systemContextOf_cong:
  "chatMessages st' = chatMessages st \<Longrightarrow> cartItems st' = cartItems st \<Longrightarrow>
   purchaseHistory st' = purchaseHistory st \<Longrightarrow>
   systemContextOf env st' u m t = systemContextOf env st u m t"
  unfolding systemContextOf_def by (simp only: gatherSystemData_cong[of st' st])

lemma tempSessionOf_cong:
  "chatSessions st' = chatSessions st \<Longrightarrow> tempSessionOf st' u n s = tempSessionOf st u n s"
  by (simp add: tempSessionOf_def lookupSession_cong[of st' st])

lemma systemContextOf_temp:
  "systemContextOf env st u m (if needsSystemAction m \<and> \<not> n then lookupSession st u s else None)
   = systemContextOf env st u m (tempSessionOf st u n s)"
  unfolding systemContextOf_def tempSessionOf_def by (cases "needsSystemAction m"; cases n; simp only: simp_thms if_True if_False)

text \<open>The turn in terms of the one session lookup.\<close>

lemma sendChatMessageTry_alt:
  "sendChatMessageTry env st userId message isNewChat sessionId =
     (case getOrCreateSensayUser env st userId of
        (Inl e, st0) \<Rightarrow> (Inl e, st0)
      | (Inr sensayUserId, st0) \<Rightarrow>
          (let t = tempSessionOf st userId isNewChat sessionId;
               cc = conversationContextOf st isNewChat t;
               sc = systemContextOf env st userId message t
           in case systemActionStage env st0 sensayUserId userId message t cc sc None of
                (Inl e, st1) \<Rightarrow> (Inl e, st1)
              | (Inr response1, st1) \<Rightarrow>
                  (case replyStage env st1 sensayUserId userId message isNewChat cc of
                     (Inl e, st2) \<Rightarrow> (Inl e, st2)
                   | (Inr (response, shopifyProducts), st2) \<Rightarrow>
                       (case resolveSession env st2 userId isNewChat sessionId of
                          (Inl e, st3) \<Rightarrow> (Inl e, st3)
                        | (Inr chatSession, st3) \<Rightarrow>
                            (let st5 = touchSession
                                   (saveMessages env st3 (cs_id chatSession) message response
                                      shopifyProducts) (cs_id chatSession)
                             in (Inr \<lparr>pl_success = True,
                                      pl_message = content response,
                                      pl_sessionId = cs_id chatSession,
                                      pl_timestamp = now st5,
                                      pl_isNewSession = isNewChat,
                                      pl_shopifyProducts =
                                        (if length shopifyProducts > 0
                                         then Some shopifyProducts else None)\<rparr>,
                                 st5))))))"
proof (cases "getOrCreateSensayUser env st userId")
  case (Pair r st0)
  note fr = getOrCreateSensayUser_frame[OF Pair]
  have t: "(if \<not> isNewChat then lookupSession st0 userId sessionId
            else (if needsSystemAction message \<and> \<not> isNewChat
                  then lookupSession st0 userId sessionId else None))
           = tempSessionOf st userId isNewChat sessionId"
    using fr by (simp add: tempSessionOf_def lookupSession_cong[of st0 st])
  have sc: "systemContextOf env st0 userId message
              (if needsSystemAction message \<and> \<not> isNewChat
               then lookupSession st0 userId sessionId else None)
            = systemContextOf env st userId message (tempSessionOf st userId isNewChat sessionId)"
    using fr systemContextOf_temp[of env st0 userId message isNewChat sessionId]
    by (simp add: systemContextOf_cong[of st0 st] tempSessionOf_cong[of st0 st])
  have cc: "\<And>t. conversationContextOf st0 isNewChat t = conversationContextOf st isNewChat t"
    using fr by (simp add: conversationContextOf_cong[of st0 st])
  show ?thesis
    unfolding sendChatMessageTry_def Pair Let_def
    by (cases r) (simp_all only: prod.case sum.case t sc cc)
qed

lemma sendChatMessageTry_InrE:
  assumes "sendChatMessageTry env st u m n s = (Inr p, st')"
  obtains su st0 r1 st1 response ps st2 cs st3 where
    "getOrCreateSensayUser env st u = (Inr su, st0)"
    "systemActionStage env st0 su u m (tempSessionOf st u n s)
       (conversationContextOf st n (tempSessionOf st u n s))
       (systemContextOf env st u m (tempSessionOf st u n s)) None = (Inr r1, st1)"
    "replyStage env st1 su u m n (conversationContextOf st n (tempSessionOf st u n s))
       = (Inr (response, ps), st2)"
    "resolveSession env st2 u n s = (Inr cs, st3)"
    "st' = touchSession (saveMessages env st3 (cs_id cs) m response ps) (cs_id cs)"
    "p = \<lparr>pl_success = True, pl_message = content response, pl_sessionId = cs_id cs,
          pl_timestamp = now st', pl_isNewSession = n,
          pl_shopifyProducts = (if length ps > 0 then Some ps else None)\<rparr>"
  using assms unfolding sendChatMessageTry_alt Let_def
  by (auto split: prod.splits sum.splits)

lemma sendChatMessageTry_InlE:
  assumes "sendChatMessageTry env st u m n s = (Inl e, st')"
  obtains
    (user) "getOrCreateSensayUser env st u = (Inl e, st')"
  | (action) su st0 where
      "getOrCreateSensayUser env st u = (Inr su, st0)"
      "systemActionStage env st0 su u m (tempSessionOf st u n s)
         (conversationContextOf st n (tempSessionOf st u n s))
         (systemContextOf env st u m (tempSessionOf st u n s)) None = (Inl e, st')"
  | (reply) su st0 r1 st1 where
      "getOrCreateSensayUser env st u = (Inr su, st0)"
      "systemActionStage env st0 su u m (tempSessionOf st u n s)
         (conversationContextOf st n (tempSessionOf st u n s))
         (systemContextOf env st u m (tempSessionOf st u n s)) None = (Inr r1, st1)"
      "replyStage env st1 su u m n (conversationContextOf st n (tempSessionOf st u n s))
         = (Inl e, st')"
  | (session) su st0 r1 st1 response ps st2 where
      "getOrCreateSensayUser env st u = (Inr su, st0)"
      "systemActionStage env st0 su u m (tempSessionOf st u n s)
         (conversationContextOf st n (tempSessionOf st u n s))
         (systemContextOf env st u m (tempSessionOf st u n s)) None = (Inr r1, st1)"
      "replyStage env st1 su u m n (conversationContextOf st n (tempSessionOf st u n s))
         = (Inr (response, ps), st2)"
      "resolveSession env st2 u n s = (Inl e, st')"
  using assms unfolding sendChatMessageTry_alt Let_def
  by (auto split: prod.splits sum.splits)

lemma sendChatMessage_Inr:
  "sendChatMessage env st u m n s = (Inr p, st') \<longleftrightarrow>
   sendChatMessageTry env st u m n s = (Inr p, st')"
  by (auto simp: sendChatMessage_def split: prod.splits sum.splits)

lemma sendChatMessage_Inl:
  "sendChatMessage env st u m n s = (Inl msg, st') \<longleftrightarrow>
   (\<exists>e. sendChatMessageTry env st u m n s = (Inl e, st') \<and> msg = userFacingMessage e)"
  by (auto simp: sendChatMessage_def split: prod.splits sum.splits)

lemma sendChatMessage_snd:
  "snd (sendChatMessage env st u m n s) = snd (sendChatMessageTry env st u m n s)"
  by (auto simp: sendChatMessage_def split: prod.splits sum.splits)

text \<open>A turn that throws has written no message.\<close>

lemma sendChatMessageTry_Inl_messages:
  assumes "sendChatMessageTry env st u m n s = (Inl e, st')"
  shows "chatMessages st' = chatMessages st"
  using assms
proof (cases rule: sendChatMessageTry_InlE)
  case user
  then show ?thesis using getOrCreateSensayUser_frame by blast
next
  case (action su st0)
  then show ?thesis
    using getOrCreateSensayUser_frame[of env st u "Inr su" st0]
      systemActionStage_frame[of env st0 su u m _ _ _ "Inl e" st'] by simp
next
  case (reply su st0 r1 st1)
  then show ?thesis
    using getOrCreateSensayUser_frame[of env st u "Inr su" st0]
      systemActionStage_frame[of env st0 su u m _ _ _ "Inr r1" st1]
      replyStage_frame[of env st1 su u m n _ "Inl e" st'] by simp
next
  case (session su st0 r1 st1 response ps st2)
  then show ?thesis
    using getOrCreateSensayUser_frame[of env st u "Inr su" st0]
      systemActionStage_frame[of env st0 su u m _ _ _ "Inr r1" st1]
      replyStage_frame[of env st1 su u m n _ "Inr (response, ps)" st2]
      resolveSession_frame[of env st2 u n s "Inl e" st'] by simp
qed

text \<open>No turn removes a cart row; a turn without purchase intent leaves the cart as it is.\<close>

lemma sendChatMessageTry_cart:
  assumes "sendChatMessageTry env st u m n s = (r, st')"
  shows "prefix (cartItems st) (cartItems st')"
    and "\<not> isPurchaseIntent m \<Longrightarrow> cartItems st' = cartItems st"
proof -
  have "prefix (cartItems st) (cartItems st') \<and>
        (\<not> isPurchaseIntent m \<longrightarrow> cartItems st' = cartItems st)"
  proof (cases r)
    case (Inl e)
    with assms have a: "sendChatMessageTry env st u m n s = (Inl e, st')" by simp
    from a show ?thesis
    proof (cases rule: sendChatMessageTry_InlE)
      case user
      then show ?thesis using getOrCreateSensayUser_frame[of env st u "Inl e" st'] by simp
    next
      case (action su st0)
      then show ?thesis
        using getOrCreateSensayUser_frame[of env st u "Inr su" st0]
          systemActionStage_cart[of env st0 su u m _ _ _ "Inl e" st']
          systemActionStage_cart_same[of env st0 su u m _ _ _ "Inl e" st'] by simp
    next
      case (reply su st0 r1 st1)
      then show ?thesis
        using getOrCreateSensayUser_frame[of env st u "Inr su" st0]
          systemActionStage_cart[of env st0 su u m _ _ _ "Inr r1" st1]
          systemActionStage_cart_same[of env st0 su u m _ _ _ "Inr r1" st1]
          replyStage_frame[of env st1 su u m n _ "Inl e" st'] by simp
    next
      case (session su st0 r1 st1 response ps st2)
      then show ?thesis
        using getOrCreateSensayUser_frame[of env st u "Inr su" st0]
          systemActionStage_cart[of env st0 su u m _ _ _ "Inr r1" st1]
          systemActionStage_cart_same[of env st0 su u m _ _ _ "Inr r1" st1]
          replyStage_frame[of env st1 su u m n _ "Inr (response, ps)" st2]
          resolveSession_frame[of env st2 u n s "Inl e" st'] by simp
    qed
  next
    case (Inr p)
    with assms have a: "sendChatMessageTry env st u m n s = (Inr p, st')" by simp
    from a show ?thesis
    proof (cases rule: sendChatMessageTry_InrE)
      case (1 su st0 r1 st1 response ps st2 cs st3)
      then show ?thesis
        using getOrCreateSensayUser_frame[of env st u "Inr su" st0]
          systemActionStage_cart[of env st0 su u m _ _ _ "Inr r1" st1]
          systemActionStage_cart_same[of env st0 su u m _ _ _ "Inr r1" st1]
          replyStage_frame[of env st1 su u m n _ "Inr (response, ps)" st2]
          resolveSession_frame[of env st2 u n s "Inr cs" st3]
          saveMessages_frame[of env st3 "cs_id cs" m response ps]
          touchSession_frame[of "saveMessages env st3 (cs_id cs) m response ps" "cs_id cs"]
        by simp
    qed
  qed
  then show "prefix (cartItems st) (cartItems st')"
    and "\<not> isPurchaseIntent m \<Longrightarrow> cartItems st' = cartItems st" by simp_all
qed

section \<open>When a turn returns, and which session it uses\<close>

lemma isCartManagement_needs: "isCartManagement m \<Longrightarrow> needsSystemAction m"
  by (simp add: needsSystemAction_def)

lemma systemActionStage_ok:
  assumes "\<And>p. \<exists>r. chatWithReplica env SystemActionCall su p = Inr r"
  shows "\<exists>r1 st1. systemActionStage env st su u m t cc sc None = (Inr r1, st1)"
proof (cases "needsSystemAction m")
  case True
  obtain r where "chatWithReplica env SystemActionCall su (m @ cc @ sc) = Inr r"
    using assms by blast
  with True show ?thesis by (simp add: systemActionStage_def Let_def)
next
  case False
  then have "\<not> isCartManagement m" using isCartManagement_needs by blast
  with False show ?thesis by (simp add: systemActionStage_def)
qed

lemma searchFallback_ok:
  assumes "\<And>p. \<exists>r. chatWithReplica env FallbackCall su p = Inr r"
  shows "\<exists>r st1. searchFallback env st su m cc ps = (Inr (r, ps), st1)"
proof -
  obtain r where "chatWithReplica env FallbackCall su (fallbackMessage m cc) = Inr r"
    using assms by blast
  then show ?thesis by (simp add: searchFallback_def callReplica_def)
qed

lemma replyStage_ok:
  assumes "\<And>site p. \<exists>r. chatWithReplica env site su p = Inr r"
  shows "\<exists>r ps st1. replyStage env st su u m n cc = (Inr (r, ps), st1)"
proof (cases "isProductSearch m")
  case True
  define q where "q = (if isFollowUpQuestion m \<and> \<not> n then followUpQuery st u m else m)"
  show ?thesis
  proof (cases "searchProducts env q 5")
    case (Inl e)
    with True show ?thesis
      using searchFallback_ok[of env su st m cc "[]"] assms
      by (auto simp: replyStage_def Let_def q_def)
  next
    case (Inr res)
    obtain r where "chatWithReplica env SearchCall su (enhancedSearchMessage env m cc res) = Inr r"
      using assms by blast
    with True Inr show ?thesis
      by (auto simp: replyStage_def Let_def q_def callReplica_def)
  qed
next
  case False
  obtain r where "chatWithReplica env PlainCall su (contextualMessage m cc) = Inr r"
    using assms by blast
  with False show ?thesis by (simp add: replyStage_def callReplica_def)
qed

lemma createSession_ok:
  assumes "newId env (map cs_id (chatSessions st)) \<notin> set (map cs_id (chatSessions st))"
  shows "\<exists>cs st1. createSession env st u = (Inr cs, st1)"
  using assms by (simp add: createSession_def Let_def)

lemma resolveSession_ok:
  assumes "newId env (map cs_id (chatSessions st)) \<notin> set (map cs_id (chatSessions st))"
  shows "\<exists>cs st1. resolveSession env st u n s = (Inr cs, st1)"
  using createSession_ok[OF assms, of u]
  by (auto simp: resolveSession_def split: option.splits)

text \<open>When the user has a Sensay id (or gets one), every AI call succeeds and the
  database generates an unused session id, the turn returns a payload.\<close>

lemma sendChatMessageTry_ok:
  assumes user: "getOrCreateSensayUser env st u = (Inr su, st0)"
    and ai: "\<And>site p. \<exists>r. chatWithReplica env site su p = Inr r"
    and fresh: "newId env (map cs_id (chatSessions st)) \<notin> set (map cs_id (chatSessions st))"
  shows "\<exists>p st'. sendChatMessageTry env st u m n s = (Inr p, st')"
proof -
  let ?t = "tempSessionOf st u n s"
  let ?cc = "conversationContextOf st n ?t"
  let ?sc = "systemContextOf env st u m ?t"
  obtain r1 st1 where a: "systemActionStage env st0 su u m ?t ?cc ?sc None = (Inr r1, st1)"
    using systemActionStage_ok[of env su st0 u m ?t ?cc ?sc] ai by blast
  obtain r ps st2 where b: "replyStage env st1 su u m n ?cc = (Inr (r, ps), st2)"
    using replyStage_ok[of env su st1 u m n ?cc] ai by blast
  have "chatSessions st2 = chatSessions st"
    using getOrCreateSensayUser_frame[OF user] systemActionStage_frame[OF a]
      replyStage_frame[OF b] by simp
  with fresh obtain cs st3 where c: "resolveSession env st2 u n s = (Inr cs, st3)"
    using resolveSession_ok[of env st2 u n s] by auto
  show ?thesis
    by (simp add: sendChatMessageTry_alt Let_def user a b c)
qed

lemma sendChatMessage_ok:
  assumes "getOrCreateSensayUser env st u = (Inr su, st0)"
    and "\<And>site p. \<exists>r. chatWithReplica env site su p = Inr r"
    and "newId env (map cs_id (chatSessions st)) \<notin> set (map cs_id (chatSessions st))"
  shows "\<exists>p st'. sendChatMessage env st u m n s = (Inr p, st')"
  using sendChatMessageTry_ok[OF assms, of m n s] by (auto simp: sendChatMessage_Inr)

subsection \<open>Session resolution\<close>

lemma createSession_result:
  assumes "createSession env st u = (Inr cs, st')"
  shows "cs_id cs \<notin> set (map cs_id (chatSessions st)) \<and> cs_userId cs = u \<and>
         chatSessions st' = chatSessions st @ [cs]"
  using assms by (auto simp: createSession_def Let_def split: if_splits)

lemma resolveSession_result:
  assumes "resolveSession env st u n s = (Inr cs, st')"
  shows "(if n \<or> (if truthy s then findSessionById st (strOf s) u else findLatestSession st u) = None
          then cs_id cs \<notin> set (map cs_id (chatSessions st)) \<and> cs_userId cs = u \<and>
               chatSessions st' = chatSessions st @ [cs]
          else (if truthy s then findSessionById st (strOf s) u else findLatestSession st u) = Some cs
               \<and> st' = st)"
  using assms createSession_result[of env st u cs st']
  by (auto simp: resolveSession_def split: if_splits option.splits)

lemma findSessionById_Some:
  "findSessionById st i u = Some cs \<Longrightarrow> cs \<in> set (chatSessions st) \<and> cs_id cs = i \<and> cs_userId cs = u"
  by (auto simp: findSessionById_def find_Some_iff)

lemma findSessionById_None:
  "findSessionById st i u = None \<longleftrightarrow>
   \<not> (\<exists>cs\<in>set (chatSessions st). cs_id cs = i \<and> cs_userId cs = u)"
  by (auto simp: findSessionById_def find_None_iff)

lemma sortDesc_set [simp]: "set (sortDesc f xs) = set xs"
  by (simp add: sortDesc_def)

lemma sortDesc_length [simp]: "length (sortDesc f xs) = length xs"
  by (simp add: sortDesc_def)

lemma sortDesc_sorted: "sorted_wrt (\<lambda>a b. f b \<le> f a) (sortDesc f xs)"
proof -
  have "sorted (map f (sort_key f xs))" by simp
  then have "sorted_wrt (\<lambda>a b. f a \<le> f b) (sort_key f xs)"
    by (simp add: sorted_map)
  then show ?thesis by (simp add: sortDesc_def sorted_wrt_rev)
qed

lemma sortDesc_Nil [simp]: "sortDesc f xs = [] \<longleftrightarrow> xs = []"
  using sortDesc_length[of f xs] by (metis length_0_conv)

lemma sortDesc_empty [simp]: "sortDesc f [] = []"
  by (simp add: sortDesc_def)

lemma sortDesc_head_max:
  assumes "sortDesc f xs = x # rest"
  shows "x \<in> set xs \<and> (\<forall>y\<in>set xs. f y \<le> f x)"
proof -
  have s: "set xs = set (x # rest)" using assms sortDesc_set[of f xs] by simp
  have "sorted_wrt (\<lambda>a b. f b \<le> f a) (x # rest)" using sortDesc_sorted[of f xs] assms by simp
  then have "\<forall>y\<in>set rest. f y \<le> f x" by simp
  with s show ?thesis by auto
qed

lemma findLatestSession_Some:
  assumes "findLatestSession st u = Some cs"
  shows "cs \<in> set (chatSessions st) \<and> cs_userId cs = u \<and>
         (\<forall>x\<in>set (chatSessions st). cs_userId x = u \<longrightarrow> cs_updatedAt x \<le> cs_updatedAt cs)"
proof -
  from assms obtain rest where
    "sortDesc cs_updatedAt (filter (\<lambda>s. cs_userId s = u) (chatSessions st)) = cs # rest"
    by (auto simp: findLatestSession_def firstOf_def split: list.splits)
  from sortDesc_head_max[OF this] show ?thesis by auto
qed

lemma findLatestSession_None:
  "findLatestSession st u = None \<longleftrightarrow> \<not> (\<exists>cs\<in>set (chatSessions st). cs_userId cs = u)"
proof -
  have "findLatestSession st u = None \<longleftrightarrow>
        filter (\<lambda>s. cs_userId s = u) (chatSessions st) = []"
    using sortDesc_Nil[of cs_updatedAt "filter (\<lambda>s. cs_userId s = u) (chatSessions st)"]
    by (auto simp: findLatestSession_def firstOf_def split: list.splits)
  then show ?thesis by (auto simp: filter_empty_conv)
qed

lemma touchSession_sessions:
  "list_ex (\<lambda>cs. cs_id cs = i \<and> cs_userId cs = u) (chatSessions (touchSession st j))
   = list_ex (\<lambda>cs. cs_id cs = i \<and> cs_userId cs = u) (chatSessions st)"
proof -
  have "list_ex (\<lambda>cs. cs_id cs = i \<and> cs_userId cs = u)
          (map (\<lambda>s. if cs_id s = j then s\<lparr>cs_updatedAt := t\<rparr> else s) xs)
        = list_ex (\<lambda>cs. cs_id cs = i \<and> cs_userId cs = u) xs" for t xs
    by (induction xs) auto
  then show ?thesis by (simp add: touchSession_def)
qed

text \<open>The session of a returned payload, in terms of the state before the turn.\<close>

lemma sendChatMessageTry_session:
  assumes "sendChatMessageTry env st u m n s = (Inr p, st')"
  shows "if n \<or> (if truthy s then findSessionById st (strOf s) u else findLatestSession st u) = None
         then createdSession st st' u (pl_sessionId p)
         else \<exists>cs. (if truthy s then findSessionById st (strOf s) u else findLatestSession st u) = Some cs
                \<and> pl_sessionId p = cs_id cs"
  using assms
proof (cases rule: sendChatMessageTry_InrE)
  case (1 su st0 r1 st1 response ps st2 cs st3)
  have eq: "chatSessions st2 = chatSessions st"
    using getOrCreateSensayUser_frame[OF 1(1)] systemActionStage_frame[OF 1(2)]
      replyStage_frame[OF 1(3)] by simp
  have f1: "findSessionById st2 = findSessionById st"
    by (intro ext) (simp add: findSessionById_def eq)
  have f2: "findLatestSession st2 = findLatestSession st"
    by (intro ext) (simp add: findLatestSession_def eq)
  have sid: "pl_sessionId p = cs_id cs" using 1(6) by simp
  have ss: "chatSessions (saveMessages env st3 (cs_id cs) m response ps) = chatSessions st3"
    using saveMessages_frame by blast
  note r = resolveSession_result[OF 1(4), unfolded f1 f2 eq]
  show ?thesis
  proof (cases "n \<or> (if truthy s then findSessionById st (strOf s) u else findLatestSession st u) = None")
    case True
    with r have c: "cs_id cs \<notin> set (map cs_id (chatSessions st))" "cs_userId cs = u"
      "chatSessions st3 = chatSessions st @ [cs]" by (simp_all split: if_splits)
    have "list_ex (\<lambda>x. cs_id x = cs_id cs \<and> cs_userId x = u) (chatSessions st')"
      unfolding 1(5) touchSession_sessions ss c(3) using c(2) by simp
    with True c(1) sid show ?thesis by (simp add: createdSession_def)
  next
    case False
    with r sid show ?thesis by (simp split: if_splits)
  qed
qed

subsection \<open>The fixtures\<close>

lemma testEnv_ai [simp]: "chatWithReplica (testEnv ai) site su p = ai site"
  by (simp add: testEnv_def)

lemma shop_user:
  "getOrCreateSensayUser (testEnv ai) shopState ''u1'' = (Inr ''sensay-1'', shopState)"
  by (simp add: getOrCreateSensayUser_def shopState_def truthy_def strOf_def)

lemma shop_fresh:
  "newId (testEnv ai) (map cs_id (chatSessions shopState))
   \<notin> set (map cs_id (chatSessions shopState))"
  by (simp add: testEnv_def shopState_def)

lemma shop_returns:
  "\<exists>p st'. sendChatMessage (testEnv (\<lambda>site. okReply text)) shopState ''u1'' m n s = (Inr p, st')"
  by (rule sendChatMessage_ok[OF shop_user _ shop_fresh]) (simp add: okReply_def)

lemma shop_find_s1: "findSessionById shopState ''s1'' ''u1'' =
    Some \<lparr>cs_id = ''s1'', cs_userId = ''u1'', cs_updatedAt = 2\<rparr>"
  by (simp add: findSessionById_def shopState_def)

lemma shop_find_stale: "findSessionById shopState ''stale'' ''u1'' = None"
  by (simp add: findSessionById_def shopState_def)

lemma shop_latest: "findLatestSession shopState ''u1'' =
    Some \<lparr>cs_id = ''s1'', cs_userId = ''u1'', cs_updatedAt = 2\<rparr>"
  by (simp add: findLatestSession_def shopState_def sortDesc_def firstOf_def)

text \<open>
  Claim C5.  Session resolution of a turn that returns a payload: for a new chat a session
  is created, so the returned id is none of the earlier ids; otherwise, with a session id
  given, the session of that id and user is used, and a session is created when there is
  none; without a session id the most recently updated session of the user is used, and
  a session is created when the user has none.
\<close>

theorem session_resolution:
  assumes "sendChatMessage env st u m n s = (Inr p, st')"
  shows "(n \<longrightarrow> createdSession st st' u (pl_sessionId p)) \<and>
         (\<not> n \<and> truthy s \<longrightarrow>
            (case findSessionById st (strOf s) u of
               Some cs \<Rightarrow> pl_sessionId p = strOf s \<and> cs \<in> set (chatSessions st) \<and>
                          cs_id cs = strOf s \<and> cs_userId cs = u
             | None \<Rightarrow> createdSession st st' u (pl_sessionId p) \<and>
                       \<not> (\<exists>cs\<in>set (chatSessions st). cs_id cs = strOf s \<and> cs_userId cs = u))) \<and>
         (\<not> n \<and> \<not> truthy s \<longrightarrow>
            (case findLatestSession st u of
               Some cs \<Rightarrow> pl_sessionId p = cs_id cs \<and> cs \<in> set (chatSessions st) \<and>
                          cs_userId cs = u \<and>
                          (\<forall>x\<in>set (chatSessions st).
                              cs_userId x = u \<longrightarrow> cs_updatedAt x \<le> cs_updatedAt cs)
             | None \<Rightarrow> createdSession st st' u (pl_sessionId p) \<and>
                       \<not> (\<exists>cs\<in>set (chatSessions st). cs_userId cs = u)))"
proof -
  from assms have t: "sendChatMessageTry env st u m n s = (Inr p, st')"
    by (simp add: sendChatMessage_Inr)
  note r = sendChatMessageTry_session[OF t]
  have a: "n \<longrightarrow> createdSession st st' u (pl_sessionId p)" using r by simp
  have b: "\<not> n \<and> truthy s \<longrightarrow>
            (case findSessionById st (strOf s) u of
               Some cs \<Rightarrow> pl_sessionId p = strOf s \<and> cs \<in> set (chatSessions st) \<and>
                          cs_id cs = strOf s \<and> cs_userId cs = u
             | None \<Rightarrow> createdSession st st' u (pl_sessionId p) \<and>
                       \<not> (\<exists>cs\<in>set (chatSessions st). cs_id cs = strOf s \<and> cs_userId cs = u))"
    using r findSessionById_Some[of st "strOf s" u] findSessionById_None[of st "strOf s" u]
    by (auto split: option.splits if_splits)
  have c: "\<not> n \<and> \<not> truthy s \<longrightarrow>
            (case findLatestSession st u of
               Some cs \<Rightarrow> pl_sessionId p = cs_id cs \<and> cs \<in> set (chatSessions st) \<and>
                          cs_userId cs = u \<and>
                          (\<forall>x\<in>set (chatSessions st).
                              cs_userId x = u \<longrightarrow> cs_updatedAt x \<le> cs_updatedAt cs)
             | None \<Rightarrow> createdSession st st' u (pl_sessionId p) \<and>
                       \<not> (\<exists>cs\<in>set (chatSessions st). cs_userId cs = u))"
    using r findLatestSession_Some[of st u] findLatestSession_None[of st u]
    by (auto split: option.splits if_splits)
  from a b c show ?thesis by blast
qed

theorem session_resolution_witness:
  "(\<exists>p st'. sendChatMessage (testEnv (\<lambda>site. okReply ''Hi'')) shopState ''u1'' ''hello'' True
                (Some ''s1'') = (Inr p, st') \<and>
             createdSession shopState st' ''u1'' (pl_sessionId p)) \<and>
   (\<exists>p st'. sendChatMessage (testEnv (\<lambda>site. okReply ''Hi'')) shopState ''u1'' ''hello'' False
                (Some ''stale'') = (Inr p, st') \<and>
             createdSession shopState st' ''u1'' (pl_sessionId p)) \<and>
   (\<exists>p st'. sendChatMessage (testEnv (\<lambda>site. okReply ''Hi'')) shopState ''u1'' ''hello'' False
                (Some ''s1'') = (Inr p, st') \<and> pl_sessionId p = ''s1'') \<and>
   (\<exists>p st'. sendChatMessage (testEnv (\<lambda>site. okReply ''Hi'')) shopState ''u1'' ''hello'' False
                None = (Inr p, st') \<and> pl_sessionId p = ''s1'')"
proof -
  let ?E = "testEnv (\<lambda>site. okReply ''Hi'')"
  obtain p1 s1 where r1: "sendChatMessage ?E shopState ''u1'' ''hello'' True (Some ''s1'') = (Inr p1, s1)"
    using shop_returns by blast
  obtain p2 s2 where r2: "sendChatMessage ?E shopState ''u1'' ''hello'' False (Some ''stale'') = (Inr p2, s2)"
    using shop_returns by blast
  obtain p3 s3 where r3: "sendChatMessage ?E shopState ''u1'' ''hello'' False (Some ''s1'') = (Inr p3, s3)"
    using shop_returns by blast
  obtain p4 s4 where r4: "sendChatMessage ?E shopState ''u1'' ''hello'' False None = (Inr p4, s4)"
    using shop_returns by blast
  have c1: "createdSession shopState s1 ''u1'' (pl_sessionId p1)"
    using session_resolution[OF r1] by simp
  have c2: "createdSession shopState s2 ''u1'' (pl_sessionId p2)"
    using session_resolution[OF r2] shop_find_stale by (simp add: truthy_def strOf_def)
  have c3: "pl_sessionId p3 = ''s1''"
    using session_resolution[OF r3] shop_find_s1 by (simp add: truthy_def strOf_def)
  have c4: "pl_sessionId p4 = ''s1''"
    using session_resolution[OF r4] shop_latest by (simp add: truthy_def strOf_def)
  from r1 r2 r3 r4 c1 c2 c3 c4 show ?thesis by blast
qed

text \<open>
  Claim C10.  The field \<open>isNewSession\<close> of a returned payload is the argument \<open>isNewChat\<close>,
  also when the turn created a session because the given session id matched no session of
  the user or the user had none.
\<close>

theorem isNewSession_is_isNewChat:
  assumes "sendChatMessage env st u m n s = (Inr p, st')"
  shows "pl_isNewSession p = n"
proof -
  from assms have "sendChatMessageTry env st u m n s = (Inr p, st')"
    by (simp add: sendChatMessage_Inr)
  then show ?thesis by (cases rule: sendChatMessageTry_InrE) simp
qed

theorem isNewSession_is_isNewChat_witness:
  "\<exists>p st'. sendChatMessage (testEnv (\<lambda>site. okReply ''Hi'')) shopState ''u1'' ''hello'' False
               (Some ''stale'') = (Inr p, st') \<and>
            pl_isNewSession p = False \<and>
            createdSession shopState st' ''u1'' (pl_sessionId p)"
proof -
  let ?E = "testEnv (\<lambda>site. okReply ''Hi'')"
  obtain p st' where r: "sendChatMessage ?E shopState ''u1'' ''hello'' False (Some ''stale'') = (Inr p, st')"
    using shop_returns by blast
  have a: "pl_isNewSession p = False" using isNewSession_is_isNewChat[OF r] .
  from r have "sendChatMessageTry ?E shopState ''u1'' ''hello'' False (Some ''stale'') = (Inr p, st')"
    by (simp add: sendChatMessage_Inr)
  from sendChatMessageTry_session[OF this] shop_find_stale
  have "createdSession shopState st' ''u1'' (pl_sessionId p)"
    by (simp add: truthy_def strOf_def)
  with r a show ?thesis by blast
qed

section \<open>Saving the turn: properties\<close>

lemma saveMessages_messages:
  "chatMessages (saveMessages env st sid m r ps) =
     chatMessages st @
     (if userMessageSaveFails env then []
      else \<lparr>cm_sessionId = sid, cm_role = ''user'', cm_content = m, cm_timestamp = now st,
             cm_link = detectLink m, cm_shopifyProducts = None\<rparr> #
           (if aiMessageSaveFails env then []
            else [\<lparr>cm_sessionId = sid, cm_role = ''assistant'', cm_content = content r,
                    cm_timestamp = Suc (now st), cm_link = None,
                    cm_shopifyProducts = (if length ps > 0 then Some (JArray ps) else None)\<rparr>]))"
  by (simp add: saveMessages_def createMessage_def Let_def)

text \<open>The stages before the messages are saved do not look at the two failure flags of the
  message inserts.\<close>

lemma flags_getOrCreateSensayUser:
  "getOrCreateSensayUser (env\<lparr>userMessageSaveFails := a, aiMessageSaveFails := b\<rparr>) st u
   = getOrCreateSensayUser env st u"
  by (simp add: getOrCreateSensayUser_def cong: option.case_cong sum.case_cong if_cong)

lemma flags_historyData:
  "historyData (env\<lparr>userMessageSaveFails := a, aiMessageSaveFails := b\<rparr>) st u
   = historyData env st u"
proof -
  have "historyLine (env\<lparr>userMessageSaveFails := a, aiMessageSaveFails := b\<rparr>) = historyLine env"
    by (intro ext) (simp add: historyLine_def cong: prod.case_cong)
  then show ?thesis by (simp add: historyData_def historyFoundData_def Let_def)
qed

lemma flags_productHistoryData:
  "productHistoryData (env\<lparr>userMessageSaveFails := a, aiMessageSaveFails := b\<rparr>) st u m p
   = productHistoryData env st u m p"
  by (simp add: productHistoryData_def cong: option.case_cong list.case_cong)

lemma flags_cartData:
  "cartData (env\<lparr>userMessageSaveFails := a, aiMessageSaveFails := b\<rparr>) st u
   = cartData env st u"
proof -
  have "cartLine (env\<lparr>userMessageSaveFails := a, aiMessageSaveFails := b\<rparr>) = cartLine env"
    by (intro ext) (simp add: cartLine_def cong: prod.case_cong)
  then show ?thesis by (simp add: cartData_def Let_def)
qed

lemma flags_quantityText:
  "quantityText (env\<lparr>userMessageSaveFails := a, aiMessageSaveFails := b\<rparr>) q = quantityText env q"
  by (cases q) (simp_all add: quantityText_def)

lemma flags_purchaseProductData:
  "purchaseProductData (env\<lparr>userMessageSaveFails := a, aiMessageSaveFails := b\<rparr>) p q
   = purchaseProductData env p q"
  by (simp add: purchaseProductData_def flags_quantityText)

lemma flags_purchaseNoProductData:
  "purchaseNoProductData (env\<lparr>userMessageSaveFails := a, aiMessageSaveFails := b\<rparr>) m q
   = purchaseNoProductData env m q"
  by (simp add: purchaseNoProductData_def flags_quantityText)

lemma flags_gatherSystemData:
  "gatherSystemData (env\<lparr>userMessageSaveFails := a, aiMessageSaveFails := b\<rparr>) st u m t
   = gatherSystemData env st u m t"
  unfolding gatherSystemData_def
  by (simp only: flags_historyData flags_productHistoryData flags_cartData
      flags_purchaseProductData flags_purchaseNoProductData)

lemma flags_systemContextOf:
  "systemContextOf (env\<lparr>userMessageSaveFails := a, aiMessageSaveFails := b\<rparr>) st u m t
   = systemContextOf env st u m t"
  unfolding systemContextOf_def by (simp only: flags_gatherSystemData)

lemma flags_createCartItem:
  "createCartItem (env\<lparr>userMessageSaveFails := a, aiMessageSaveFails := b\<rparr>) st item
   = createCartItem env st item"
  by (simp add: createCartItem_def)

lemma flags_addFocusProductToCart:
  "addFocusProductToCart (env\<lparr>userMessageSaveFails := a, aiMessageSaveFails := b\<rparr>) st u m t
   = addFocusProductToCart env st u m t"
  unfolding addFocusProductToCart_def flags_createCartItem
  by (simp cong: option.case_cong jsNumber.case_cong)

lemma flags_systemActionStage:
  "systemActionStage (env\<lparr>userMessageSaveFails := a, aiMessageSaveFails := b\<rparr>) st su u m t cc sc r
   = systemActionStage env st su u m t cc sc r"
  unfolding systemActionStage_def flags_addFocusProductToCart
  by (simp cong: option.case_cong sum.case_cong if_cong)

lemma flags_replyStage:
  "replyStage (env\<lparr>userMessageSaveFails := a, aiMessageSaveFails := b\<rparr>) st su u m n cc
   = replyStage env st su u m n cc"
  unfolding replyStage_def searchFallback_def callReplica_def enhancedSearchMessage_def
    productLine_def
  by (simp cong: option.case_cong sum.case_cong prod.case_cong if_cong)

lemma flags_resolveSession:
  "resolveSession (env\<lparr>userMessageSaveFails := a, aiMessageSaveFails := b\<rparr>) st u n s
   = resolveSession env st u n s"
  by (simp add: resolveSession_def createSession_def cong: option.case_cong if_cong)

text \<open>The reply that the reply stage returns is the answer of the last AI call.\<close>

lemma replyStage_reply:
  assumes "replyStage env st su u m n cc = (Inr (r, ps), st')"
  shows "\<exists>site prompt. aiLog st' \<noteq> [] \<and> last (aiLog st') = (site, prompt) \<and>
           chatWithReplica env site su prompt = Inr r"
  using assms
  by (auto simp: replyStage_def searchFallback_def callReplica_def Let_def
      split: if_splits sum.splits prod.splits)

text \<open>A returning turn returns whatever the two flags are, with the same reply and session;
  the flags decide which messages are written.\<close>

lemma sendChatMessageTry_flags:
  assumes "sendChatMessageTry env st u m n s = (Inr p, st')"
  shows "\<exists>su site prompt r cs p2 st2 t1 t2.
           sendChatMessageTry (env\<lparr>userMessageSaveFails := a, aiMessageSaveFails := b\<rparr>)
             st u m n s = (Inr p2, st2) \<and>
           pl_success p2 \<and> pl_message p2 = pl_message p \<and> pl_sessionId p2 = pl_sessionId p \<and>
           fst (getOrCreateSensayUser env st u) = Inr su \<and>
           chatWithReplica env site su prompt = Inr r \<and> last (aiLog st2) = (site, prompt) \<and>
           pl_message p2 = content r \<and>
           chatMessages st2 =
             chatMessages st @
             (if a then []
              else \<lparr>cm_sessionId = pl_sessionId p, cm_role = ''user'', cm_content = m,
                     cm_timestamp = t1, cm_link = detectLink m, cm_shopifyProducts = None\<rparr> #
                   (if b then []
                    else [\<lparr>cm_sessionId = pl_sessionId p, cm_role = ''assistant'',
                            cm_content = pl_message p, cm_timestamp = t2, cm_link = None,
                            cm_shopifyProducts = map_option JArray (pl_shopifyProducts p)\<rparr>]))"
  using assms
proof (cases rule: sendChatMessageTry_InrE)
  case (1 su st0 r1 st1 response ps st2 cs st3)
  let ?E = "env\<lparr>userMessageSaveFails := a, aiMessageSaveFails := b\<rparr>"
  let ?st' = "touchSession (saveMessages ?E st3 (cs_id cs) m response ps) (cs_id cs)"
  let ?p = "\<lparr>pl_success = True, pl_message = content response, pl_sessionId = cs_id cs,
             pl_timestamp = now ?st', pl_isNewSession = n,
             pl_shopifyProducts = (if length ps > 0 then Some ps else None)\<rparr>"
  have run: "sendChatMessageTry ?E st u m n s = (Inr ?p, ?st')"
    by (simp add: sendChatMessageTry_alt Let_def flags_getOrCreateSensayUser
        flags_systemContextOf flags_systemActionStage flags_replyStage flags_resolveSession 1)
  obtain site prompt where lg: "aiLog st2 \<noteq> []" "last (aiLog st2) = (site, prompt)"
      "chatWithReplica env site su prompt = Inr response"
    using replyStage_reply[OF 1(3)] by blast
  have log: "aiLog ?st' = aiLog st2"
    using resolveSession_frame[OF 1(4)] saveMessages_frame[of ?E st3 "cs_id cs" m response ps]
      touchSession_frame[of "saveMessages ?E st3 (cs_id cs) m response ps" "cs_id cs"] by simp
  have msgs0: "chatMessages st3 = chatMessages st"
    using getOrCreateSensayUser_frame[OF 1(1)] systemActionStage_frame[OF 1(2)]
      replyStage_frame[OF 1(3)] resolveSession_frame[OF 1(4)] by simp
  have msgs: "chatMessages ?st' =
      chatMessages st @
      (if a then []
       else \<lparr>cm_sessionId = cs_id cs, cm_role = ''user'', cm_content = m,
              cm_timestamp = now st3, cm_link = detectLink m, cm_shopifyProducts = None\<rparr> #
            (if b then []
             else [\<lparr>cm_sessionId = cs_id cs, cm_role = ''assistant'',
                     cm_content = content response, cm_timestamp = Suc (now st3), cm_link = None,
                     cm_shopifyProducts = map_option JArray (if length ps > 0 then Some ps else None)\<rparr>]))"
    using touchSession_frame[of "saveMessages ?E st3 (cs_id cs) m response ps" "cs_id cs"]
    by (simp add: saveMessages_messages msgs0)
  have p: "pl_message p = content response" "pl_sessionId p = cs_id cs"
    "pl_shopifyProducts p = (if length ps > 0 then Some ps else None)"
    using 1(6) by simp_all
  have all: "sendChatMessageTry ?E st u m n s = (Inr ?p, ?st') \<and>
           pl_success ?p \<and> pl_message ?p = pl_message p \<and> pl_sessionId ?p = pl_sessionId p \<and>
           fst (getOrCreateSensayUser env st u) = Inr su \<and>
           chatWithReplica env site su prompt = Inr response \<and> last (aiLog ?st') = (site, prompt) \<and>
           pl_message ?p = content response \<and>
           chatMessages ?st' =
             chatMessages st @
             (if a then []
              else \<lparr>cm_sessionId = pl_sessionId p, cm_role = ''user'', cm_content = m,
                     cm_timestamp = now st3, cm_link = detectLink m, cm_shopifyProducts = None\<rparr> #
                   (if b then []
                    else [\<lparr>cm_sessionId = pl_sessionId p, cm_role = ''assistant'',
                            cm_content = pl_message p, cm_timestamp = Suc (now st3), cm_link = None,
                            cm_shopifyProducts = map_option JArray (pl_shopifyProducts p)\<rparr>]))"
    using run lg log msgs p 1(1) by simp
  show ?thesis by (rule exI)+ (rule all)
qed

text \<open>
  Claim C6.  A turn that returns does so whether or not the inserts of the two messages
  fail: for every setting of the two failure flags it returns a success payload with the
  same reply, which is the answer of the last AI call, and the same session id.  When no
  insert fails, the user message and then the assistant message are appended to the
  messages of that session; when the first insert fails nothing is written, and when only
  the second fails the user message alone is.
\<close>

theorem persistence_failure_swallowed:
  assumes "sendChatMessage env st u m n s = (Inr p, st')"
  shows "\<exists>su site prompt r cs p2 st2 t1 t2.
           sendChatMessage (env\<lparr>userMessageSaveFails := a, aiMessageSaveFails := b\<rparr>)
             st u m n s = (Inr p2, st2) \<and>
           pl_success p2 \<and> pl_message p2 = pl_message p \<and> pl_sessionId p2 = pl_sessionId p \<and>
           fst (getOrCreateSensayUser env st u) = Inr su \<and>
           chatWithReplica env site su prompt = Inr r \<and> last (aiLog st2) = (site, prompt) \<and>
           pl_message p2 = content r \<and>
           chatMessages st2 =
             chatMessages st @
             (if a then []
              else \<lparr>cm_sessionId = pl_sessionId p, cm_role = ''user'', cm_content = m,
                     cm_timestamp = t1, cm_link = detectLink m, cm_shopifyProducts = None\<rparr> #
                   (if b then []
                    else [\<lparr>cm_sessionId = pl_sessionId p, cm_role = ''assistant'',
                            cm_content = pl_message p, cm_timestamp = t2, cm_link = None,
                            cm_shopifyProducts = map_option JArray (pl_shopifyProducts p)\<rparr>]))"
  using sendChatMessageTry_flags[OF assms[unfolded sendChatMessage_Inr], where a=a and b=b]
  unfolding sendChatMessage_Inr .

theorem persistence_failure_swallowed_witness:
  "(\<exists>p2 st2. sendChatMessage
       ((testEnv (\<lambda>site. okReply ''Hi''))\<lparr>userMessageSaveFails := True, aiMessageSaveFails := False\<rparr>)
       shopState ''u1'' ''hello'' False (Some ''s1'') = (Inr p2, st2) \<and>
       pl_success p2 \<and> pl_message p2 = ''Hi'' \<and> chatMessages st2 = chatMessages shopState) \<and>
   (\<exists>p2 st2 t1 t2. sendChatMessage
       ((testEnv (\<lambda>site. okReply ''Hi''))\<lparr>userMessageSaveFails := False, aiMessageSaveFails := False\<rparr>)
       shopState ''u1'' ''hello'' False (Some ''s1'') = (Inr p2, st2) \<and>
       pl_success p2 \<and> pl_message p2 = ''Hi'' \<and>
       chatMessages st2 = chatMessages shopState @
         [\<lparr>cm_sessionId = pl_sessionId p2, cm_role = ''user'', cm_content = ''hello'',
            cm_timestamp = t1, cm_link = detectLink ''hello'', cm_shopifyProducts = None\<rparr>,
          \<lparr>cm_sessionId = pl_sessionId p2, cm_role = ''assistant'', cm_content = ''Hi'',
            cm_timestamp = t2, cm_link = None,
            cm_shopifyProducts = map_option JArray (pl_shopifyProducts p2)\<rparr>])"
proof -
  let ?E = "testEnv (\<lambda>site. okReply ''Hi'')"
  obtain p st' where r: "sendChatMessage ?E shopState ''u1'' ''hello'' False (Some ''s1'') = (Inr p, st')"
    using shop_returns by blast
  from persistence_failure_swallowed[OF r, where a=True and b=False]
  have a: "\<exists>p2 st2. sendChatMessage (?E\<lparr>userMessageSaveFails := True, aiMessageSaveFails := False\<rparr>)
       shopState ''u1'' ''hello'' False (Some ''s1'') = (Inr p2, st2) \<and>
       pl_success p2 \<and> pl_message p2 = ''Hi'' \<and> chatMessages st2 = chatMessages shopState"
    by (auto simp: okReply_def)
  from persistence_failure_swallowed[OF r, where a=False and b=False]
  obtain p2 st2 t1 t2 r2 where b:
      "sendChatMessage (?E\<lparr>userMessageSaveFails := False, aiMessageSaveFails := False\<rparr>)
         shopState ''u1'' ''hello'' False (Some ''s1'') = (Inr p2, st2)"
      "pl_success p2" "pl_message p2 = pl_message p" "pl_sessionId p2 = pl_sessionId p"
      "pl_message p2 = content r2" "okReply ''Hi'' = Inr r2"
      "chatMessages st2 = chatMessages shopState @
         [\<lparr>cm_sessionId = pl_sessionId p, cm_role = ''user'', cm_content = ''hello'',
            cm_timestamp = t1, cm_link = detectLink ''hello'', cm_shopifyProducts = None\<rparr>,
          \<lparr>cm_sessionId = pl_sessionId p, cm_role = ''assistant'', cm_content = pl_message p,
            cm_timestamp = t2, cm_link = None,
            cm_shopifyProducts = map_option JArray (pl_shopifyProducts p)\<rparr>]"
    by auto
  have sp: "pl_shopifyProducts p2 = pl_shopifyProducts p"
  proof -
    have "?E\<lparr>userMessageSaveFails := False, aiMessageSaveFails := False\<rparr> = ?E"
      by (simp add: testEnv_def)
    with b(1) r show ?thesis by simp
  qed
  have hi: "pl_message p = ''Hi''" using b(3,5,6) by (auto simp: okReply_def)
  have "\<exists>p2 st2 t1 t2. sendChatMessage
       (?E\<lparr>userMessageSaveFails := False, aiMessageSaveFails := False\<rparr>)
       shopState ''u1'' ''hello'' False (Some ''s1'') = (Inr p2, st2) \<and>
       pl_success p2 \<and> pl_message p2 = ''Hi'' \<and>
       chatMessages st2 = chatMessages shopState @
         [\<lparr>cm_sessionId = pl_sessionId p2, cm_role = ''user'', cm_content = ''hello'',
            cm_timestamp = t1, cm_link = detectLink ''hello'', cm_shopifyProducts = None\<rparr>,
          \<lparr>cm_sessionId = pl_sessionId p2, cm_role = ''assistant'', cm_content = ''Hi'',
            cm_timestamp = t2, cm_link = None,
            cm_shopifyProducts = map_option JArray (pl_shopifyProducts p2)\<rparr>]"
    using b(1,2,3,4,7) sp hi by auto
  with a show ?thesis by blast
qed

section \<open>Plain chat\<close>

lemma systemActionStage_plain:
  "\<not> needsSystemAction m \<Longrightarrow>
   systemActionStage env st su u m t cc sc None = (Inr None, st)"
  using isCartManagement_needs[of m] by (auto simp: systemActionStage_def)

lemma replyStage_plain:
  "\<not> isProductSearch m \<Longrightarrow> replyStage env st su u m n cc = (r, st') \<Longrightarrow>
   aiLog st' = aiLog st @ [(PlainCall, contextualMessage m cc)]"
  by (auto simp: replyStage_def callReplica_def split: sum.splits)

lemma sendChatMessageTry_plain_log:
  assumes plain: "\<not> needsSystemAction m" "\<not> isProductSearch m"
    and user: "getOrCreateSensayUser env st u = (Inr su, st0)"
    and run: "sendChatMessageTry env st u m n s = (r, st')"
  shows "aiLog st' = aiLog st @
     [(PlainCall, contextualMessage m (conversationContextOf st n (tempSessionOf st u n s)))]"
proof -
  let ?cc = "conversationContextOf st n (tempSessionOf st u n s)"
  have l0: "aiLog st0 = aiLog st" using getOrCreateSensayUser_frame[OF user] by simp
  obtain rr st2 where rs: "replyStage env st0 su u m n ?cc = (rr, st2)"
    by (cases "replyStage env st0 su u m n ?cc") auto
  have l2: "aiLog st2 = aiLog st @ [(PlainCall, contextualMessage m ?cc)]"
    using replyStage_plain[OF plain(2) rs] l0 by simp
  show ?thesis
  proof (cases rr)
    case (Inl e)
    with run rs show ?thesis
      using l2 by (simp add: sendChatMessageTry_alt Let_def user systemActionStage_plain[OF plain(1)])
  next
    case (Inr rp)
    obtain response ps where rp: "rp = (response, ps)" by (cases rp) auto
    obtain rc st3 where rv: "resolveSession env st2 u n s = (rc, st3)"
      by (cases "resolveSession env st2 u n s") auto
    have l3: "aiLog st3 = aiLog st2" using resolveSession_frame[OF rv] by simp
    show ?thesis
    proof (cases rc)
      case (Inl e)
      with run rs Inr rp rv show ?thesis
        using l2 l3
        by (simp add: sendChatMessageTry_alt Let_def user systemActionStage_plain[OF plain(1)])
    next
      case (Inr cs)
      have "st' = touchSession (saveMessages env st3 (cs_id cs) m response ps) (cs_id cs)"
        using run rs \<open>rr = Inr rp\<close> rp rv Inr
        by (simp add: sendChatMessageTry_alt Let_def user systemActionStage_plain[OF plain(1)])
      then show ?thesis
        using l2 l3 saveMessages_frame[of env st3 "cs_id cs" m response ps]
          touchSession_frame[of "saveMessages env st3 (cs_id cs) m response ps" "cs_id cs"]
        by simp
    qed
  qed
qed

lemma hello_plain: "\<not> needsSystemAction ''hello'' \<and> \<not> isProductSearch ''hello''"
  by code_simp

lemma shop_context:
  "conversationContextOf shopState False (tempSessionOf shopState ''u1'' False (Some ''s1'')) =
     nl @ nl @ ''[CONVERSATION CONTEXT - Last 15 messages for context:]'' @ nl @
     ''User: hello'' @ nl @ ''Assistant: Here is a tee'' @ nl @ ''[END CONTEXT]'' @ nl"
  by code_simp

section \<open>The cart in the chat turn\<close>

lemma sendChatMessage_cart_unchanged:
  assumes "\<not> isPurchaseIntent m"
  shows "cartItems (snd (sendChatMessage env st u m n s)) = cartItems st"
  using sendChatMessageTry_cart(2)[OF surjective_pairing assms, of env st u n s]
  by (simp add: sendChatMessage_snd)

lemma sendChatMessage_reply:
  assumes "sendChatMessage env st u m n s = (Inr p, st')"
  shows "\<exists>su site prompt r. fst (getOrCreateSensayUser env st u) = Inr su \<and>
           chatWithReplica env site su prompt = Inr r \<and> pl_message p = content r"
  using sendChatMessageTry_flags[OF assms[unfolded sendChatMessage_Inr], where a=False and b=False]
  by metis

lemma remove_it_flags:
  "isCartManagement ''remove it'' \<and> \<not> isPurchaseIntent ''remove it''"
  by code_simp

lemma removed_reply: "shouldReduceCart (toLowerCase ''I have removed the item.'')"
  by code_simp

lemma shop_cart: "userCart shopState ''u1'' = [teeRow]"
  by (simp add: userCart_def shopState_def teeRow_def sortDesc_def)

text \<open>
  Claim C1, at a concrete turn.  The message \<open>remove it\<close> is a cart-management message,
  the reply \<open>I have removed the item.\<close> carries a removal signal and the cart of the user
  holds one row; the turn returns that reply and the cart still holds the row.  The
  removal is written in the branch \<^verbatim>\<open>else if (isCartManagement && response.content)\<close> of
  \<^verbatim>\<open>if (needsSystemAction)\<close>, which a cart-management message never reaches.
\<close>

theorem cart_management_removes_nothing:
  "isCartManagement ''remove it'' \<and>
   shouldReduceCart (toLowerCase ''I have removed the item.'') \<and>
   userCart shopState ''u1'' = [teeRow] \<and>
   (\<exists>p st'. sendChatMessage (testEnv (\<lambda>site. okReply ''I have removed the item.'')) shopState
                ''u1'' ''remove it'' False (Some ''s1'') = (Inr p, st') \<and>
             pl_message p = ''I have removed the item.'' \<and>
             cartItems st' = cartItems shopState \<and> userCart st' ''u1'' = [teeRow])"
proof -
  let ?E = "testEnv (\<lambda>site. okReply ''I have removed the item.'')"
  obtain p st' where r: "sendChatMessage ?E shopState ''u1'' ''remove it'' False (Some ''s1'') = (Inr p, st')"
    using shop_returns by blast
  have m: "pl_message p = ''I have removed the item.''"
    using sendChatMessage_reply[OF r] by (auto simp: okReply_def)
  have c: "cartItems st' = cartItems shopState"
    using sendChatMessage_cart_unchanged[OF conjunct2[OF remove_it_flags], of ?E shopState "''u1''" False "Some ''s1''"] r
    by simp
  have "userCart st' ''u1'' = [teeRow]" using c shop_cart by (simp add: userCart_def)
  with r m c remove_it_flags removed_reply shop_cart show ?thesis by blast
qed

lemma isPurchaseIntent_needs: "isPurchaseIntent m \<Longrightarrow> needsSystemAction m"
  by (simp add: needsSystemAction_def)

text \<open>The add of the chat turn: with purchase intent, a product in focus, an affirmative
  reply and a successful insert, one row is appended to the cart, whatever the cart holds.\<close>

lemma systemActionStage_adds:
  assumes "isPurchaseIntent m"
    and "chatWithReplica env SystemActionCall su (m @ cc @ sc) = Inr r"
    and "content r \<noteq> []" and "shouldAddToCart (toLowerCase (content r))"
    and "resolveFocusProduct st t = Some pd"
    and "\<not> cartCreateFails env"
    and "newId env (map ci_id (cartItems st)) \<notin> set (map ci_id (cartItems st))"
    and "requestedQuantity m = Finite q"
  shows "cartItems (snd (systemActionStage env st su u m t cc sc None)) =
           cartItems st @
           [\<lparr>ci_id = newId env (map ci_id (cartItems st)),
             ci_userId = u,
             ci_productId = p_id pd,
             ci_productName = p_title pd,
             ci_description = p_description pd,
             ci_price = parseFloat env (p_amount pd),
             ci_quantity = int q,
             ci_total = parseFloat env (p_amount pd) * of_nat q,
             ci_imageUrl = p_imageUrl pd,
             ci_productUrl = Some (''https://shoppysensay.myshopify.com/products/'' @ p_handle pd),
             ci_createdAt = now st\<rparr>]"
proof -
  have rf: "resolveFocusProduct (logCall SystemActionCall (m @ cc @ sc) st) t = Some pd"
    using assms(5) resolveFocusProduct_cong[of "logCall SystemActionCall (m @ cc @ sc) st" st t]
    by simp
  show ?thesis
    using assms(1-4,6,7,8) isPurchaseIntent_needs[OF assms(1)]
    by (simp add: systemActionStage_def Let_def addFocusProductToCart_def rf createCartItem_def)
qed

lemma sendChatMessage_adds:
  assumes user: "getOrCreateSensayUser env st u = (Inr su, st0)"
    and pi: "isPurchaseIntent m"
    and ai: "chatWithReplica env SystemActionCall su
               (m @ conversationContextOf st n (tempSessionOf st u n s) @
                systemContextOf env st u m (tempSessionOf st u n s)) = Inr r"
    and yes: "content r \<noteq> []" "shouldAddToCart (toLowerCase (content r))"
    and fp: "resolveFocusProduct st (tempSessionOf st u n s) = Some pd"
    and ok: "\<not> cartCreateFails env"
      "newId env (map ci_id (cartItems st)) \<notin> set (map ci_id (cartItems st))"
    and rq: "requestedQuantity m = Finite q"
  shows "cartItems (snd (sendChatMessage env st u m n s)) =
           cartItems st @
           [\<lparr>ci_id = newId env (map ci_id (cartItems st)),
             ci_userId = u,
             ci_productId = p_id pd,
             ci_productName = p_title pd,
             ci_description = p_description pd,
             ci_price = parseFloat env (p_amount pd),
             ci_quantity = int q,
             ci_total = parseFloat env (p_amount pd) * of_nat q,
             ci_imageUrl = p_imageUrl pd,
             ci_productUrl = Some (''https://shoppysensay.myshopify.com/products/'' @ p_handle pd),
             ci_createdAt = now st\<rparr>]"
proof -
  let ?t = "tempSessionOf st u n s"
  let ?cc = "conversationContextOf st n ?t"
  let ?sc = "systemContextOf env st u m ?t"
  note fr = getOrCreateSensayUser_frame[OF user]
  have p0: "resolveFocusProduct st0 ?t = Some pd"
    using fp fr resolveFocusProduct_cong[of st0 st ?t] by simp
  have ok0: "newId env (map ci_id (cartItems st0)) \<notin> set (map ci_id (cartItems st0))"
    using ok(2) fr by simp
  obtain x st1 where a: "systemActionStage env st0 su u m ?t ?cc ?sc None = (x, st1)"
    by (cases "systemActionStage env st0 su u m ?t ?cc ?sc None") auto
  have c1: "cartItems st1 =
           cartItems st @
           [\<lparr>ci_id = newId env (map ci_id (cartItems st)),
             ci_userId = u,
             ci_productId = p_id pd,
             ci_productName = p_title pd,
             ci_description = p_description pd,
             ci_price = parseFloat env (p_amount pd),
             ci_quantity = int q,
             ci_total = parseFloat env (p_amount pd) * of_nat q,
             ci_imageUrl = p_imageUrl pd,
             ci_productUrl = Some (''https://shoppysensay.myshopify.com/products/'' @ p_handle pd),
             ci_createdAt = now st\<rparr>]"
    using systemActionStage_adds[OF pi ai yes p0 ok(1) ok0 rq, of u] a fr by simp
  obtain y st' where run: "sendChatMessageTry env st u m n s = (y, st')"
    by (cases "sendChatMessageTry env st u m n s") auto
  have "cartItems st' = cartItems st1"
  proof (cases x)
    case (Inl e)
    with run a user show ?thesis by (simp add: sendChatMessageTry_alt Let_def)
  next
    case (Inr r1)
    obtain rr st2 where b: "replyStage env st1 su u m n ?cc = (rr, st2)"
      by (cases "replyStage env st1 su u m n ?cc") auto
    have c2: "cartItems st2 = cartItems st1" using replyStage_frame[OF b] by simp
    show ?thesis
    proof (cases rr)
      case (Inl e)
      with run a user \<open>x = Inr r1\<close> b c2 show ?thesis
        by (simp add: sendChatMessageTry_alt Let_def)
    next
      case (Inr rp)
      obtain response ps where rp: "rp = (response, ps)" by (cases rp) auto
      obtain rc st3 where rv: "resolveSession env st2 u n s = (rc, st3)"
        by (cases "resolveSession env st2 u n s") auto
      have c3: "cartItems st3 = cartItems st2" using resolveSession_frame[OF rv] by simp
      show ?thesis
      proof (cases rc)
        case (Inl e)
        with run a user \<open>x = Inr r1\<close> b \<open>rr = Inr rp\<close> rp rv c2 c3 show ?thesis
          by (simp add: sendChatMessageTry_alt Let_def)
      next
        case (Inr cs)
        have "st' = touchSession (saveMessages env st3 (cs_id cs) m response ps) (cs_id cs)"
          using run a user \<open>x = Inr r1\<close> b \<open>rr = Inr rp\<close> rp rv Inr
          by (simp add: sendChatMessageTry_alt Let_def)
        then show ?thesis
          using c2 c3 saveMessages_frame[of env st3 "cs_id cs" m response ps]
            touchSession_frame[of "saveMessages env st3 (cs_id cs) m response ps" "cs_id cs"]
          by simp
      qed
    qed
  qed
  with c1 run show ?thesis by (simp add: sendChatMessage_snd)
qed

lemma yes_add_it: "isPurchaseIntent ''yes add it'' \<and> requestedQuantity ''yes add it'' = Finite 1"
  by code_simp

lemma added_reply: "shouldAddToCart (toLowerCase ''Added to cart!'')"
  by code_simp

lemma shop_focus:
  "resolveFocusProduct shopState (tempSessionOf shopState ''u1'' False (Some ''s1'')) = Some tee"
  by code_simp

lemma shop_newRow: "newId (testEnv ai) (map ci_id (cartItems shopState)) = ''new-1''"
  by code_simp

lemma ten: "parseFloat (testEnv ai) (p_amount tee) = 10"
  by (simp add: testEnv_def tee_def decimalOf_def isDigit_def decimalValue_def digitVal_def)

subsection \<open>The cart route\<close>

text \<open>\<^verbatim>\<open>POST /cart/add\<close> for a product that the user's cart already holds: the rows with the
  id of the first matching row get the quantity added and the total recomputed from the
  price of the request, and no row is added.\<close>

lemma cartAdd_existing:
  assumes "productId \<noteq> []" "productName \<noteq> []" "price \<noteq> 0"
    and "find (\<lambda>c. ci_userId c = userId \<and> ci_productId c = productId) (cartItems st) = Some row"
  shows "cartAdd env st userId productId productName description price quantity imageUrl productUrl =
           (Inr (row\<lparr>ci_quantity := ci_quantity row + quantity,
                      ci_total := price * of_int (ci_quantity row + quantity)\<rparr>),
            st\<lparr>cartItems :=
                 map (\<lambda>c. if ci_id c = ci_id row
                          then c\<lparr>ci_quantity := ci_quantity row + quantity,
                                 ci_total := price * of_int (ci_quantity row + quantity)\<rparr>
                          else c) (cartItems st)\<rparr>)"
  using assms by (simp add: cartAdd_def Let_def)

lemma cartAdd_twice_example:
  "cartItems (snd (cartAdd (testEnv (\<lambda>site. okReply ''Hi'')) shopState ''u1'' ''p1'' ''Tee''
                     ''A shirt'' 10 1 None None))
     = [teeRow\<lparr>ci_quantity := 2, ci_total := 20\<rparr>]"
proof -
  have "find (\<lambda>c. ci_userId c = ''u1'' \<and> ci_productId c = ''p1'') (cartItems shopState) = Some teeRow"
    by (simp add: shopState_def teeRow_def)
  from cartAdd_existing[OF _ _ _ this, of "''Tee''" 10 "testEnv (\<lambda>site. okReply ''Hi'')"
      "''A shirt''" 1 None None]
  show ?thesis by (simp add: shopState_def teeRow_def)
qed

text \<open>
  Claim C2, at a concrete turn.  The cart of the user holds one tee (product \<open>p1\<close>,
  quantity 1, total 10) and the tee is the product in focus; after the message
  \<open>yes add it\<close> and the reply \<open>Added to cart!\<close> the cart holds two rows of product \<open>p1\<close>,
  each with quantity 1 and total 10: the chat turn inserts a row without looking for an
  existing one, where \<^verbatim>\<open>POST /cart/add\<close> would have made the one row quantity 2, total 20.
\<close>

theorem chat_add_does_not_upsert:
  "cartItems shopState = [teeRow] \<and> ci_productId teeRow = p_id tee \<and>
   cartItems (snd (sendChatMessage (testEnv (\<lambda>site. okReply ''Added to cart!'')) shopState
                     ''u1'' ''yes add it'' False (Some ''s1'')))
     = [teeRow, teeRow\<lparr>ci_id := ''new-1'', ci_createdAt := 4\<rparr>] \<and>
   ci_quantity teeRow = 1 \<and> ci_total teeRow = 10"
proof -
  let ?E = "testEnv (\<lambda>site. okReply ''Added to cart!'')"
  have fresh: "newId ?E (map ci_id (cartItems shopState)) \<notin> set (map ci_id (cartItems shopState))"
    unfolding shop_newRow by (simp add: shopState_def teeRow_def)
  have "cartItems (snd (sendChatMessage ?E shopState ''u1'' ''yes add it'' False (Some ''s1''))) =
          cartItems shopState @
          [\<lparr>ci_id = newId ?E (map ci_id (cartItems shopState)),
            ci_userId = ''u1'',
            ci_productId = p_id tee,
            ci_productName = p_title tee,
            ci_description = p_description tee,
            ci_price = parseFloat ?E (p_amount tee),
            ci_quantity = int 1,
            ci_total = parseFloat ?E (p_amount tee) * of_nat 1,
            ci_imageUrl = p_imageUrl tee,
            ci_productUrl = Some (''https://shoppysensay.myshopify.com/products/'' @ p_handle tee),
            ci_createdAt = now shopState\<rparr>]"
    by (rule sendChatMessage_adds[OF shop_user conjunct1[OF yes_add_it] _ _ _ shop_focus _ fresh
            conjunct2[OF yes_add_it], where r = "\<lparr>content = ''Added to cart!''\<rparr>"])
      (simp_all add: okReply_def added_reply, simp add: testEnv_def)
  then have "cartItems (snd (sendChatMessage ?E shopState ''u1'' ''yes add it'' False (Some ''s1'')))
     = [teeRow, teeRow\<lparr>ci_id := ''new-1'', ci_createdAt := 4\<rparr>]"
    unfolding shop_newRow ten
    by (simp add: shopState_def teeRow_def tee_def)
  then show ?thesis by (simp add: shopState_def teeRow_def tee_def)
qed

section \<open>System data: properties\<close>

subsection \<open>Substrings\<close>

lemma includesStr_sublist: "includesStr s sub \<longleftrightarrow> sublist sub s"
  by (induction s) (auto simp: sublist_Cons_right)

lemma includesStr_append: "includesStr (a @ sub @ b) sub"
  by (simp add: includesStr_sublist)

lemma includesStr_mid: "includesStr b sub \<Longrightarrow> includesStr (a @ b @ c) sub"
  unfolding includesStr_sublist
  by (meson sublist_appendI sublist_order.order_trans)

subsection \<open>The purchase history block\<close>

lemma recentPurchases_length: "length (recentPurchases st u) \<le> 10"
  by (simp add: recentPurchases_def)

lemma recentPurchases_set:
  "p \<in> set (recentPurchases st u) \<Longrightarrow> p \<in> set (purchaseHistory st) \<and> ph_userId p = u"
  by (auto simp: recentPurchases_def dest!: in_set_takeD)

lemma sorted_wrt_take: "sorted_wrt P xs \<Longrightarrow> sorted_wrt P (take n xs)"
  by (metis append_take_drop_id sorted_wrt_append)

lemma recentPurchases_sorted:
  "sorted_wrt (\<lambda>a b. ph_purchaseDate b \<le> ph_purchaseDate a) (recentPurchases st u)"
  unfolding recentPurchases_def by (rule sorted_wrt_take) (rule sortDesc_sorted)

text \<open>A purchase of the user that is not listed is not newer than any listed one.\<close>

lemma recentPurchases_newest:
  assumes "q \<in> set (purchaseHistory st)" "ph_userId q = u" "q \<notin> set (recentPurchases st u)"
    and "p \<in> set (recentPurchases st u)"
  shows "ph_purchaseDate q \<le> ph_purchaseDate p"
proof -
  let ?xs = "sortDesc ph_purchaseDate (filter (\<lambda>p. ph_userId p = u) (purchaseHistory st))"
  have q: "q \<in> set ?xs" using assms(1,2) by simp
  have "q \<notin> set (take 10 ?xs)" using assms(3) by (simp add: recentPurchases_def)
  with q have qd: "q \<in> set (drop 10 ?xs)"
    by (metis Un_iff append_take_drop_id set_append)
  have pt: "p \<in> set (take 10 ?xs)" using assms(4) by (simp add: recentPurchases_def)
  have "sorted_wrt (\<lambda>a b. ph_purchaseDate b \<le> ph_purchaseDate a) (take 10 ?xs @ drop 10 ?xs)"
    using sortDesc_sorted[of ph_purchaseDate] by simp
  then show ?thesis using pt qd unfolding sorted_wrt_append by blast
qed

lemma gatherSystemData_history:
  "isHistoryInquiry m \<Longrightarrow> \<not> isPurchaseIntent m \<Longrightarrow>
   gatherSystemData env st u m t = historyData env st u"
  by (simp add: gatherSystemData_def)

lemma isHistoryInquiry_needs: "isHistoryInquiry m \<Longrightarrow> needsSystemAction m"
  by (simp add: needsSystemAction_def)

text \<open>The first prompt of a turn that needs a system action carries the system context.\<close>

lemma systemActionStage_log:
  assumes "needsSystemAction m" "systemActionStage env st su u m t cc sc None = (x, st1)"
  shows "\<exists>rest. aiLog st1 = aiLog st @ (SystemActionCall, m @ cc @ sc) # rest"
  using assms
  by (auto simp: systemActionStage_def Let_def addFocusProductToCart_frame
      split: sum.splits if_splits)

lemma sendChatMessageTry_system_log:
  assumes needs: "needsSystemAction m"
    and user: "getOrCreateSensayUser env st u = (Inr su, st0)"
    and run: "sendChatMessageTry env st u m n s = (r, st')"
  shows "\<exists>rest. sentInTurn st st' =
           (SystemActionCall,
            m @ conversationContextOf st n (tempSessionOf st u n s) @
            systemContextOf env st u m (tempSessionOf st u n s)) # rest"
proof -
  let ?t = "tempSessionOf st u n s"
  let ?cc = "conversationContextOf st n ?t"
  let ?sc = "systemContextOf env st u m ?t"
  have l0: "aiLog st0 = aiLog st" using getOrCreateSensayUser_frame[OF user] by simp
  obtain x st1 where a: "systemActionStage env st0 su u m ?t ?cc ?sc None = (x, st1)"
    by (cases "systemActionStage env st0 su u m ?t ?cc ?sc None") auto
  obtain rest1 where l1: "aiLog st1 = aiLog st @ (SystemActionCall, m @ ?cc @ ?sc) # rest1"
    using systemActionStage_log[OF needs a] l0 by auto
  have "\<exists>more. aiLog st' = aiLog st1 @ more"
  proof (cases x)
    case (Inl e)
    with run a user show ?thesis by (simp add: sendChatMessageTry_alt Let_def)
  next
    case (Inr r1)
    obtain rr st2 where b: "replyStage env st1 su u m n ?cc = (rr, st2)"
      by (cases "replyStage env st1 su u m n ?cc") auto
    have l2: "\<exists>more. aiLog st2 = aiLog st1 @ more"
      using b by (auto simp: replyStage_def searchFallback_def callReplica_def Let_def
          split: if_splits sum.splits)
    show ?thesis
    proof (cases rr)
      case (Inl e)
      with run a user \<open>x = Inr r1\<close> b l2 show ?thesis
        by (simp add: sendChatMessageTry_alt Let_def)
    next
      case (Inr rp)
      obtain response ps where rp: "rp = (response, ps)" by (cases rp) auto
      obtain rc st3 where rv: "resolveSession env st2 u n s = (rc, st3)"
        by (cases "resolveSession env st2 u n s") auto
      have l3: "aiLog st3 = aiLog st2" using resolveSession_frame[OF rv] by simp
      show ?thesis
      proof (cases rc)
        case (Inl e)
        with run a user \<open>x = Inr r1\<close> b \<open>rr = Inr rp\<close> rp rv l2 l3 show ?thesis
          by (simp add: sendChatMessageTry_alt Let_def)
      next
        case (Inr cs)
        have "st' = touchSession (saveMessages env st3 (cs_id cs) m response ps) (cs_id cs)"
          using run a user \<open>x = Inr r1\<close> b \<open>rr = Inr rp\<close> rp rv Inr
          by (simp add: sendChatMessageTry_alt Let_def)
        then show ?thesis
          using l2 l3 saveMessages_frame[of env st3 "cs_id cs" m response ps]
            touchSession_frame[of "saveMessages env st3 (cs_id cs) m response ps" "cs_id cs"]
          by simp
      qed
    qed
  qed
  then obtain more where "aiLog st' = aiLog st1 @ more" by blast
  with l1 show ?thesis by (simp add: sentInTurn_def)
qed

lemma sendChatMessage_system_log:
  assumes "needsSystemAction m"
    and "getOrCreateSensayUser env st u = (Inr su, st0)"
    and "sendChatMessage env st u m n s = (r, st')"
  shows "\<exists>rest. sentInTurn st st' =
           (SystemActionCall,
            m @ conversationContextOf st n (tempSessionOf st u n s) @
            systemContextOf env st u m (tempSessionOf st u n s)) # rest"
proof -
  obtain r0 where "sendChatMessageTry env st u m n s = (r0, st')"
    using assms(3) by (cases "sendChatMessageTry env st u m n s")
      (auto simp: sendChatMessage_def split: sum.splits)
  from sendChatMessageTry_system_log[OF assms(1,2) this] show ?thesis .
qed

lemma sortDesc_mset: "mset (sortDesc f xs) = mset xs"
  by (simp add: sortDesc_def)

text \<open>The number of purchases listed: all of the user's when there are at most ten.\<close>

lemma recentPurchases_count:
  "length (recentPurchases st u) =
     min 10 (length (filter (\<lambda>p. ph_userId p = u) (purchaseHistory st)))"
  by (simp add: recentPurchases_def min.commute)

lemma recentPurchases_Nil:
  "recentPurchases st u = [] \<longleftrightarrow> (\<forall>p\<in>set (purchaseHistory st). ph_userId p \<noteq> u)"
  by (simp add: recentPurchases_def filter_empty_conv)

text \<open>The purchases of the user are the listed ones and the rest, and no purchase of the
  rest is newer than a listed one.\<close>

lemma recentPurchases_split:
  "\<exists>older. mset (recentPurchases st u) + mset older =
              mset (filter (\<lambda>p. ph_userId p = u) (purchaseHistory st)) \<and>
           (\<forall>p\<in>set (recentPurchases st u). \<forall>q\<in>set older.
               ph_purchaseDate q \<le> ph_purchaseDate p)"
proof -
  let ?xs = "sortDesc ph_purchaseDate (filter (\<lambda>p. ph_userId p = u) (purchaseHistory st))"
  have "mset (take 10 ?xs) + mset (drop 10 ?xs) = mset ?xs"
    by (metis append_take_drop_id mset_append)
  then have a: "mset (recentPurchases st u) + mset (drop 10 ?xs) =
                mset (filter (\<lambda>p. ph_userId p = u) (purchaseHistory st))"
    by (simp only: recentPurchases_def sortDesc_mset)
  have "sorted_wrt (\<lambda>a b. ph_purchaseDate b \<le> ph_purchaseDate a) (take 10 ?xs @ drop 10 ?xs)"
    using sortDesc_sorted[of ph_purchaseDate] by simp
  then have b: "\<forall>p\<in>set (recentPurchases st u). \<forall>q\<in>set (drop 10 ?xs).
               ph_purchaseDate q \<le> ph_purchaseDate p"
    unfolding sorted_wrt_append recentPurchases_def by blast
  from a b show ?thesis by blast
qed

lemma joinWith_nth:
  "i < length ls \<Longrightarrow> \<exists>a b. joinWith sep ls = a @ ls ! i @ b"
proof (induction sep ls arbitrary: i rule: joinWith.induct)
  case (1 sep)
  then show ?case by simp
next
  case (2 sep l)
  then have "joinWith sep [l] = [] @ [l] ! i @ []" by simp
  then show ?case by blast
next
  case (3 sep l k ls)
  show ?case
  proof (cases i)
    case 0
    then have "joinWith sep (l # k # ls) = [] @ (l # k # ls) ! i @ (sep @ joinWith sep (k # ls))"
      by simp
    then show ?thesis by blast
  next
    case (Suc j)
    with 3 have "j < length (k # ls)" by simp
    from "3.IH"[OF this] obtain a b where "joinWith sep (k # ls) = a @ (k # ls) ! j @ b" by blast
    then have "joinWith sep (l # k # ls) = (l @ sep @ a) @ (l # k # ls) ! i @ b"
      using Suc by simp
    then show ?thesis by blast
  qed
qed

text \<open>Every listed purchase has its line in the block.\<close>

lemma historyFoundData_line:
  assumes "i < length h"
  shows "includesStr (historyFoundData env h) (historyLine env (i, h ! i))"
proof -
  let ?ls = "map (historyLine env) (enumerate 0 h)"
  have i: "i < length ?ls" using assms by simp
  have n: "?ls ! i = historyLine env (i, h ! i)"
    using assms by (simp add: nth_enumerate_eq)
  from joinWith_nth[OF i, of nl] obtain a b where
    j: "joinWith nl ?ls = a @ ?ls ! i @ b" by blast
  have "historyFoundData env h =
          (''[SYSTEM DATA - PURCHASE HISTORY]'' @ nl @
           ''Total purchases: '' @ showNat (length h) @ nl @
           ''Recent purchases:'' @ nl @ a) @
          historyLine env (i, h ! i) @
          (b @ nl @ [] @ nl @
           ''[SYSTEM ACTION: Provide natural response about user'' @ ap @ ''s purchase history]'')"
    unfolding historyFoundData_def joinLines_def joinWith.simps j n by simp
  then show ?thesis by (metis includesStr_append)
qed

lemma buy_again_flags:
  "isHistoryInquiry ''what did i buy? i want to buy it again'' \<and>
   isPurchaseIntent ''what did i buy? i want to buy it again'' \<and>
   requestedQuantity ''what did i buy? i want to buy it again'' = Finite 1"
  by code_simp

lemma what_did_i_buy_flags:
  "isHistoryInquiry ''what did i buy'' \<and> \<not> isPurchaseIntent ''what did i buy''"
  by code_simp

lemma hist_recent: "recentPurchases histState ''u1'' = [capPurchase, mugPurchase]"
  by code_simp

text \<open>
  Claim C8 as stated fails: the blocks are filled by a chain that tests purchase intent
  first.  The message below asks what the user bought and says that the user wants to buy;
  for a user with two purchases on record its system data is the purchase-intent block,
  which lists no purchase and does not say that no history was found.
\<close>

theorem history_block_counterexample:
  "isHistoryInquiry ''what did i buy? i want to buy it again'' \<and>
   recentPurchases histState ''u1'' = [capPurchase, mugPurchase] \<and>
   systemDataOf (testEnv (\<lambda>site. okReply ''Hi'')) histState ''u1''
      ''what did i buy? i want to buy it again'' (tempSessionOf histState ''u1'' True None)
     = purchaseNoProductData (testEnv (\<lambda>site. okReply ''Hi''))
         ''what did i buy? i want to buy it again'' (Finite 1) \<and>
   \<not> includesStr (purchaseNoProductData (testEnv (\<lambda>site. okReply ''Hi''))
         ''what did i buy? i want to buy it again'' (Finite 1)) (ph_productName capPurchase) \<and>
   \<not> includesStr (purchaseNoProductData (testEnv (\<lambda>site. okReply ''Hi''))
         ''what did i buy? i want to buy it again'' (Finite 1)) (ph_productName mugPurchase) \<and>
   \<not> includesStr (purchaseNoProductData (testEnv (\<lambda>site. okReply ''Hi''))
         ''what did i buy? i want to buy it again'' (Finite 1)) ''No purchase history found''"
proof -
  let ?E = "testEnv (\<lambda>site. okReply ''Hi'')"
  let ?M = "''what did i buy? i want to buy it again''"
  have a: "systemDataOf ?E histState ''u1'' ?M (tempSessionOf histState ''u1'' True None)
             = purchaseNoProductData ?E ?M (Finite 1)"
    using buy_again_flags
    by (simp add: systemDataOf_def gatherSystemData_def needsSystemAction_def tempSessionOf_def
        resolveFocusProduct_def)
  have t: "purchaseNoProductData ?E ?M (Finite 1) = joinLines
    [''[SYSTEM DATA - PURCHASE INTENT DETECTED]'',
     ''No specific product found in conversation context.'',
     ''User message: '' @ dq @ ?M @ dq,
     ''Detected quantity: 1'',
     [],
     ''[SYSTEM ACTION: Ask user to specify which product they want to purchase]'']"
    by code_simp
  have b: "\<not> includesStr (purchaseNoProductData ?E ?M (Finite 1)) (ph_productName capPurchase)"
    unfolding t by code_simp
  have c: "\<not> includesStr (purchaseNoProductData ?E ?M (Finite 1)) (ph_productName mugPurchase)"
    unfolding t by code_simp
  have d: "\<not> includesStr (purchaseNoProductData ?E ?M (Finite 1)) ''No purchase history found''"
    unfolding t by code_simp
  from a b c d conjunct1[OF buy_again_flags] hist_recent show ?thesis by (intro conjI)
qed

text \<open>
  Claim C8, amended.  For a message with a purchase-history phrase and without purchase
  intent the system data is the history block, and the first prompt of the turn carries
  it.  The block is built from the purchases of the user, newest first by purchase date:
  all of them when there are at most 10, else 10 of them, and no purchase left out is
  newer than a listed one.  Each listed purchase has its numbered line in the block, with
  product name, quantity, date and price.  For a user without purchases, and only then,
  the block says that no purchase history was found.
\<close>

theorem history_block:
  assumes "isHistoryInquiry m" and "\<not> isPurchaseIntent m"
  shows "systemDataOf env st u m t = historyData env st u \<and>
         historyData env st u =
           (if recentPurchases st u = [] then historyEmptyData
            else historyFoundData env (recentPurchases st u)) \<and>
         (recentPurchases st u = [] \<longleftrightarrow> (\<forall>p\<in>set (purchaseHistory st). ph_userId p \<noteq> u)) \<and>
         length (recentPurchases st u) =
           min 10 (length (filter (\<lambda>p. ph_userId p = u) (purchaseHistory st))) \<and>
         (\<exists>older. mset (recentPurchases st u) + mset older =
                    mset (filter (\<lambda>p. ph_userId p = u) (purchaseHistory st)) \<and>
                  (\<forall>p\<in>set (recentPurchases st u). \<forall>q\<in>set older.
                      ph_purchaseDate q \<le> ph_purchaseDate p)) \<and>
         sorted_wrt (\<lambda>a b. ph_purchaseDate b \<le> ph_purchaseDate a) (recentPurchases st u) \<and>
         (\<forall>h. historyFoundData env h = joinLines
            [''[SYSTEM DATA - PURCHASE HISTORY]'',
             ''Total purchases: '' @ showNat (length h),
             ''Recent purchases:'',
             joinWith nl (map (historyLine env) (enumerate 0 h)),
             [],
             ''[SYSTEM ACTION: Provide natural response about user'' @ ap @ ''s purchase history]'']) \<and>
         (\<forall>i<length (recentPurchases st u).
             includesStr (historyFoundData env (recentPurchases st u))
               (historyLine env (i, recentPurchases st u ! i))) \<and>
         (\<forall>i p. historyLine env (i, p) =
             showNat (i + 1) @ ''. Product: '' @ ph_productName p @
             '', Quantity: '' @ showInt (ph_quantity p) @
             '', Date: '' @ toLocaleDateString env (ph_purchaseDate p) @
             '', Price: '' @ numberToString env (ph_price p)) \<and>
         includesStr historyEmptyData ''No purchase history found for this user.'' \<and>
         (\<forall>su st0 n s r st'.
             getOrCreateSensayUser env st u = (Inr su, st0) \<and>
             sendChatMessage env st u m n s = (r, st')
             \<longrightarrow> (\<exists>rest. sentInTurn st st' =
                    (SystemActionCall,
                     m @ conversationContextOf st n (tempSessionOf st u n s) @
                     nl @ nl @ historyData env st u @ nl @ nl @ systemInstruction) # rest))"
proof -
  have needs: "needsSystemAction m" using assms(1) by (rule isHistoryInquiry_needs)
  have a: "systemDataOf env st u m t = historyData env st u"
    using needs gatherSystemData_history[OF assms] by (simp add: systemDataOf_def)
  have b: "historyData env st u =
           (if recentPurchases st u = [] then historyEmptyData
            else historyFoundData env (recentPurchases st u))"
    by (simp add: historyData_def Let_def)
  have c: "\<forall>h. historyFoundData env h = joinLines
            [''[SYSTEM DATA - PURCHASE HISTORY]'',
             ''Total purchases: '' @ showNat (length h),
             ''Recent purchases:'',
             joinWith nl (map (historyLine env) (enumerate 0 h)),
             [],
             ''[SYSTEM ACTION: Provide natural response about user'' @ ap @ ''s purchase history]'']"
    by (simp add: historyFoundData_def)
  have l: "\<forall>i<length (recentPurchases st u).
             includesStr (historyFoundData env (recentPurchases st u))
               (historyLine env (i, recentPurchases st u ! i))"
    using historyFoundData_line by blast
  have f: "\<forall>i p. historyLine env (i, p) =
             showNat (i + 1) @ ''. Product: '' @ ph_productName p @
             '', Quantity: '' @ showInt (ph_quantity p) @
             '', Date: '' @ toLocaleDateString env (ph_purchaseDate p) @
             '', Price: '' @ numberToString env (ph_price p)"
    by (simp add: historyLine_def)
  have d: "includesStr historyEmptyData ''No purchase history found for this user.''"
    by code_simp
  have e: "\<forall>su st0 n s r st'.
             getOrCreateSensayUser env st u = (Inr su, st0) \<and>
             sendChatMessage env st u m n s = (r, st')
             \<longrightarrow> (\<exists>rest. sentInTurn st st' =
                    (SystemActionCall,
                     m @ conversationContextOf st n (tempSessionOf st u n s) @
                     nl @ nl @ historyData env st u @ nl @ nl @ systemInstruction) # rest)"
  proof (intro allI impI)
    fix su st0 n s r st'
    assume h: "getOrCreateSensayUser env st u = (Inr su, st0) \<and>
               sendChatMessage env st u m n s = (r, st')"
    have "systemContextOf env st u m (tempSessionOf st u n s) =
            nl @ nl @ historyData env st u @ nl @ nl @ systemInstruction"
      using needs gatherSystemData_history[OF assms] by (simp add: systemContextOf_def)
    with sendChatMessage_system_log[OF needs conjunct1[OF h] conjunct2[OF h]]
    show "\<exists>rest. sentInTurn st st' =
                    (SystemActionCall,
                     m @ conversationContextOf st n (tempSessionOf st u n s) @
                     nl @ nl @ historyData env st u @ nl @ nl @ systemInstruction) # rest"
      by simp
  qed
  from a b recentPurchases_Nil[of st u] recentPurchases_count[of st u]
    recentPurchases_split[of st u] recentPurchases_sorted[of st u] c l f d e
  show ?thesis by (intro conjI)
qed

lemma hist_user:
  "getOrCreateSensayUser (testEnv ai) histState ''u1'' = (Inr ''sensay-1'', histState)"
  by (simp add: getOrCreateSensayUser_def histState_def shopState_def truthy_def strOf_def)

lemma hist_block_text:
  "historyFoundData (testEnv ai) [capPurchase, mugPurchase] = joinLines
     [''[SYSTEM DATA - PURCHASE HISTORY]'',
      ''Total purchases: 2'',
      ''Recent purchases:'',
      ''1. Product: Cap, Quantity: 1, Date: 3, Price: 8'',
      ''2. Product: Mug, Quantity: 2, Date: 1, Price: 5'',
      [],
      ''[SYSTEM ACTION: Provide natural response about user'' @ ap @ ''s purchase history]'']"
  by code_simp

lemma hist_filter:
  "filter (\<lambda>p. ph_userId p = ''u1'') (purchaseHistory histState) = [mugPurchase, capPurchase]"
  by (simp add: histState_def mugPurchase_def penPurchase_def capPurchase_def)

theorem history_block_witness:
  "length (recentPurchases histState ''u1'') = 2 \<and>
   systemDataOf (testEnv (\<lambda>site. okReply ''Hi'')) histState ''u1'' ''what did i buy'' None
     = joinLines
        [''[SYSTEM DATA - PURCHASE HISTORY]'',
         ''Total purchases: 2'',
         ''Recent purchases:'',
         ''1. Product: Cap, Quantity: 1, Date: 3, Price: 8'',
         ''2. Product: Mug, Quantity: 2, Date: 1, Price: 5'',
         [],
         ''[SYSTEM ACTION: Provide natural response about user'' @ ap @ ''s purchase history]''] \<and>
   (\<exists>rest. sentInTurn histState
        (snd (sendChatMessage (testEnv (\<lambda>site. okReply ''Hi'')) histState ''u1''
                ''what did i buy'' True None))
      = (SystemActionCall,
         ''what did i buy'' @ nl @ nl @
         historyFoundData (testEnv (\<lambda>site. okReply ''Hi'')) [capPurchase, mugPurchase] @
         nl @ nl @ systemInstruction) # rest)"
proof -
  let ?E = "testEnv (\<lambda>site. okReply ''Hi'')"
  note hb = history_block[OF conjunct1[OF what_did_i_buy_flags] conjunct2[OF what_did_i_buy_flags],
      of ?E histState "''u1''" None]
  have n: "length (recentPurchases histState ''u1'') = 2"
    using hb unfolding hist_filter by simp
  have hd: "historyData ?E histState ''u1'' = historyFoundData ?E [capPurchase, mugPurchase]"
    using hb hist_recent by simp
  have a: "systemDataOf ?E histState ''u1'' ''what did i buy'' None
             = historyFoundData ?E [capPurchase, mugPurchase]"
    using hb hd by simp
  have c0: "conversationContextOf histState True (tempSessionOf histState ''u1'' True None) = []"
    by (simp add: conversationContextOf_def)
  from hb have "\<forall>su st0 n s r st'.
             getOrCreateSensayUser ?E histState ''u1'' = (Inr su, st0) \<and>
             sendChatMessage ?E histState ''u1'' ''what did i buy'' n s = (r, st')
             \<longrightarrow> (\<exists>rest. sentInTurn histState st' =
                    (SystemActionCall,
                     ''what did i buy'' @ conversationContextOf histState n (tempSessionOf histState ''u1'' n s) @
                     nl @ nl @ historyData ?E histState ''u1'' @ nl @ nl @ systemInstruction) # rest)"
    by blast
  then have "\<exists>rest. sentInTurn histState
        (snd (sendChatMessage ?E histState ''u1'' ''what did i buy'' True None))
      = (SystemActionCall,
         ''what did i buy'' @ conversationContextOf histState True (tempSessionOf histState ''u1'' True None) @
         nl @ nl @ historyData ?E histState ''u1'' @ nl @ nl @ systemInstruction) # rest"
    using hist_user[of "\<lambda>site. okReply ''Hi''"] surjective_pairing by blast
  then have b: "\<exists>rest. sentInTurn histState
        (snd (sendChatMessage ?E histState ''u1'' ''what did i buy'' True None))
      = (SystemActionCall,
         ''what did i buy'' @ nl @ nl @ historyFoundData ?E [capPurchase, mugPurchase] @
         nl @ nl @ systemInstruction) # rest"
    unfolding c0 hd by simp
  from n a b show ?thesis unfolding hist_block_text by blast
qed

section \<open>The product in focus: properties\<close>

lemma productFromMessages_find:
  "productFromMessages ms =
     (case find hasProduct ms of None \<Rightarrow> None | Some msg \<Rightarrow> productOf msg)"
  by (induction ms) (auto simp: hasProduct_def split: option.splits)

lemma resolveFocusProduct_find:
  "resolveFocusProduct st (Some cs) =
     (case find hasProduct (take 10 (sessionMessages st (cs_id cs))) of
        None \<Rightarrow> None
      | Some msg \<Rightarrow> productOf msg)"
  by (simp add: resolveFocusProduct_def recentMessages_def productFromMessages_find)

lemma productOf_Some:
  "productOf msg = Some p \<longleftrightarrow>
   cm_role msg = ''assistant'' \<and>
   (\<exists>js. cm_shopifyProducts msg = Some js \<and> asArray js \<noteq> [] \<and> p = hd (asArray js))"
  by (auto simp: productOf_def firstOf_def split: option.splits list.splits)

lemma sessionMessages_set:
  "set (sessionMessages st sid) = {msg \<in> set (chatMessages st). cm_sessionId msg = sid}"
  by (auto simp: sessionMessages_def)

lemma sessionMessages_sorted:
  "sorted_wrt (\<lambda>a b. cm_timestamp b \<le> cm_timestamp a) (sessionMessages st sid)"
  unfolding sessionMessages_def by (rule sortDesc_sorted)

lemma resolveFocusProduct_none:
  assumes "\<forall>msg\<in>set (chatMessages st). cm_sessionId msg = cs_id cs \<longrightarrow> \<not> hasProduct msg"
  shows "resolveFocusProduct st (Some cs) = None"
proof -
  have "\<forall>msg\<in>set (take 10 (sessionMessages st (cs_id cs))). \<not> hasProduct msg"
    using assms sessionMessages_set[of st "cs_id cs"] by (auto dest!: in_set_takeD)
  then have "find hasProduct (take 10 (sessionMessages st (cs_id cs))) = None"
    by (simp add: find_None_iff)
  then show ?thesis by (simp add: resolveFocusProduct_find)
qed

text \<open>Without a product in focus the system-action stage leaves the cart as it is.\<close>

lemma systemActionStage_no_product:
  assumes "resolveFocusProduct st t = None"
  shows "cartItems (snd (systemActionStage env st su u m t cc sc None)) = cartItems st"
proof -
  have "resolveFocusProduct (logCall SystemActionCall (m @ cc @ sc) st) t = None"
    using assms resolveFocusProduct_cong[of "logCall SystemActionCall (m @ cc @ sc) st" st t]
    by simp
  then show ?thesis
    by (auto simp: systemActionStage_def Let_def addFocusProductToCart_def
        split: sum.splits if_splits)
qed

text \<open>The cart after a turn is the cart after its system-action stage.\<close>

lemma sendChatMessage_cart_stage:
  assumes user: "getOrCreateSensayUser env st u = (Inr su, st0)"
  shows "cartItems (snd (sendChatMessage env st u m n s)) =
         cartItems (snd (systemActionStage env st0 su u m (tempSessionOf st u n s)
            (conversationContextOf st n (tempSessionOf st u n s))
            (systemContextOf env st u m (tempSessionOf st u n s)) None))"
proof -
  let ?t = "tempSessionOf st u n s"
  let ?cc = "conversationContextOf st n ?t"
  let ?sc = "systemContextOf env st u m ?t"
  obtain x st1 where a: "systemActionStage env st0 su u m ?t ?cc ?sc None = (x, st1)"
    by (cases "systemActionStage env st0 su u m ?t ?cc ?sc None") auto
  obtain y st' where run: "sendChatMessageTry env st u m n s = (y, st')"
    by (cases "sendChatMessageTry env st u m n s") auto
  have "cartItems st' = cartItems st1"
  proof (cases x)
    case (Inl e)
    with run a user show ?thesis by (simp add: sendChatMessageTry_alt Let_def)
  next
    case (Inr r1)
    obtain rr st2 where b: "replyStage env st1 su u m n ?cc = (rr, st2)"
      by (cases "replyStage env st1 su u m n ?cc") auto
    have c2: "cartItems st2 = cartItems st1" using replyStage_frame[OF b] by simp
    show ?thesis
    proof (cases rr)
      case (Inl e)
      with run a user \<open>x = Inr r1\<close> b c2 show ?thesis
        by (simp add: sendChatMessageTry_alt Let_def)
    next
      case (Inr rp)
      obtain response ps where rp: "rp = (response, ps)" by (cases rp) auto
      obtain rc st3 where rv: "resolveSession env st2 u n s = (rc, st3)"
        by (cases "resolveSession env st2 u n s") auto
      have c3: "cartItems st3 = cartItems st2" using resolveSession_frame[OF rv] by simp
      show ?thesis
      proof (cases rc)
        case (Inl e)
        with run a user \<open>x = Inr r1\<close> b \<open>rr = Inr rp\<close> rp rv c2 c3 show ?thesis
          by (simp add: sendChatMessageTry_alt Let_def)
      next
        case (Inr cs)
        have "st' = touchSession (saveMessages env st3 (cs_id cs) m response ps) (cs_id cs)"
          using run a user \<open>x = Inr r1\<close> b \<open>rr = Inr rp\<close> rp rv Inr
          by (simp add: sendChatMessageTry_alt Let_def)
        then show ?thesis
          using c2 c3 saveMessages_frame[of env st3 "cs_id cs" m response ps]
            touchSession_frame[of "saveMessages env st3 (cs_id cs) m response ps" "cs_id cs"]
          by simp
      qed
    qed
  qed
  with a run show ?thesis by (simp add: sendChatMessage_snd)
qed

lemma sendChatMessage_no_product:
  assumes "getOrCreateSensayUser env st u = (Inr su, st0)"
    and "resolveFocusProduct st (tempSessionOf st u n s) = None"
  shows "cartItems (snd (sendChatMessage env st u m n s)) = cartItems st"
proof -
  note fr = getOrCreateSensayUser_frame[OF assms(1)]
  have "resolveFocusProduct st0 (tempSessionOf st u n s) = None"
    using assms(2) fr resolveFocusProduct_cong[of st0 st] by simp
  from systemActionStage_no_product[OF this] sendChatMessage_cart_stage[OF assms(1)] fr
  show ?thesis by simp
qed

lemma purchaseNoProductData_instruction:
  "includesStr (purchaseNoProductData env m q)
     ''[SYSTEM ACTION: Ask user to specify which product they want to purchase]''"
proof -
  have "\<exists>pre. purchaseNoProductData env m q =
          pre @ ''[SYSTEM ACTION: Ask user to specify which product they want to purchase]''"
    unfolding purchaseNoProductData_def joinLines_def joinWith.simps
    by (metis append.assoc)
  then show ?thesis unfolding includesStr_sublist by auto
qed

lemma long_cex:
  "specFocusProduct longState ''s1'' = Some tee \<and>
   resolveFocusProduct longState (Some s1Session) = None"
  by code_simp

text \<open>
  Claim C3 as stated fails on a session with more than ten messages: the scan reads the
  ten newest messages only.  In the session below the assistant message with the tee is
  the eleventh newest; it is the most recent assistant message with a product, and the
  scan returns nothing.
\<close>

theorem focus_product_counterexample:
  "specFocusProduct longState ''s1'' = Some tee \<and>
   resolveFocusProduct longState (Some s1Session) = None"
  by (rule long_cex)

text \<open>
  Claim C3, amended.  The product in focus is found by scanning the ten newest messages of
  the session, newest first, and is the first product of the first assistant message
  among them whose products are present and not an empty array; it is none without a
  session, and none when no message of the session carries a product.  For a message with
  purchase intent and no product in focus, the system data is the block that tells the AI
  to ask the user which product is meant, the first prompt of the turn carries it, and
  the turn leaves the cart as it is.
\<close>

theorem focus_product:
  "resolveFocusProduct st None = None \<and>
   resolveFocusProduct st (Some cs) =
     (case find hasProduct (take 10 (sessionMessages st (cs_id cs))) of
        None \<Rightarrow> None
      | Some msg \<Rightarrow> productOf msg) \<and>
   set (sessionMessages st sid) = {msg \<in> set (chatMessages st). cm_sessionId msg = sid} \<and>
   sorted_wrt (\<lambda>a b. cm_timestamp b \<le> cm_timestamp a) (sessionMessages st sid) \<and>
   (\<forall>msg p. hasProduct msg = (productOf msg \<noteq> None) \<and>
      (productOf msg = Some p \<longleftrightarrow>
         cm_role msg = ''assistant'' \<and>
         (\<exists>js. cm_shopifyProducts msg = Some js \<and> asArray js \<noteq> [] \<and> p = hd (asArray js)))) \<and>
   ((\<forall>msg\<in>set (chatMessages st). cm_sessionId msg = cs_id cs \<longrightarrow> \<not> hasProduct msg)
      \<longrightarrow> resolveFocusProduct st (Some cs) = None) \<and>
   (isPurchaseIntent m \<and> resolveFocusProduct st (tempSessionOf st u n s) = None \<and>
    getOrCreateSensayUser env st u = (Inr su, st0) \<and>
    sendChatMessage env st u m n s = (r, st')
    \<longrightarrow> systemDataOf env st u m (tempSessionOf st u n s)
          = purchaseNoProductData env m (requestedQuantity m) \<and>
        includesStr (purchaseNoProductData env m (requestedQuantity m))
          ''[SYSTEM ACTION: Ask user to specify which product they want to purchase]'' \<and>
        (\<exists>rest. sentInTurn st st' =
           (SystemActionCall,
            m @ conversationContextOf st n (tempSessionOf st u n s) @
            nl @ nl @ purchaseNoProductData env m (requestedQuantity m) @ nl @ nl @
            systemInstruction) # rest) \<and>
        cartItems st' = cartItems st)"
proof -
  have a: "resolveFocusProduct st None = None" by (simp add: resolveFocusProduct_def)
  have e: "\<forall>msg p. hasProduct msg = (productOf msg \<noteq> None) \<and>
      (productOf msg = Some p \<longleftrightarrow>
         cm_role msg = ''assistant'' \<and>
         (\<exists>js. cm_shopifyProducts msg = Some js \<and> asArray js \<noteq> [] \<and> p = hd (asArray js)))"
    using productOf_Some by (simp add: hasProduct_def)
  have f: "(\<forall>msg\<in>set (chatMessages st). cm_sessionId msg = cs_id cs \<longrightarrow> \<not> hasProduct msg)
      \<longrightarrow> resolveFocusProduct st (Some cs) = None"
    using resolveFocusProduct_none by blast
  have g: "isPurchaseIntent m \<and> resolveFocusProduct st (tempSessionOf st u n s) = None \<and>
    getOrCreateSensayUser env st u = (Inr su, st0) \<and>
    sendChatMessage env st u m n s = (r, st')
    \<longrightarrow> systemDataOf env st u m (tempSessionOf st u n s)
          = purchaseNoProductData env m (requestedQuantity m) \<and>
        includesStr (purchaseNoProductData env m (requestedQuantity m))
          ''[SYSTEM ACTION: Ask user to specify which product they want to purchase]'' \<and>
        (\<exists>rest. sentInTurn st st' =
           (SystemActionCall,
            m @ conversationContextOf st n (tempSessionOf st u n s) @
            nl @ nl @ purchaseNoProductData env m (requestedQuantity m) @ nl @ nl @
            systemInstruction) # rest) \<and>
        cartItems st' = cartItems st"
  proof
    assume h: "isPurchaseIntent m \<and> resolveFocusProduct st (tempSessionOf st u n s) = None \<and>
      getOrCreateSensayUser env st u = (Inr su, st0) \<and>
      sendChatMessage env st u m n s = (r, st')"
    then have pi: "isPurchaseIntent m"
      and none: "resolveFocusProduct st (tempSessionOf st u n s) = None"
      and user: "getOrCreateSensayUser env st u = (Inr su, st0)"
      and run: "sendChatMessage env st u m n s = (r, st')" by simp_all
    have needs: "needsSystemAction m" using pi by (rule isPurchaseIntent_needs)
    have gd: "gatherSystemData env st u m (tempSessionOf st u n s)
              = purchaseNoProductData env m (requestedQuantity m)"
      using pi none by (simp add: gatherSystemData_def)
    have sd: "systemDataOf env st u m (tempSessionOf st u n s)
              = purchaseNoProductData env m (requestedQuantity m)"
      using needs gd by (simp add: systemDataOf_def)
    have sc: "systemContextOf env st u m (tempSessionOf st u n s)
              = nl @ nl @ purchaseNoProductData env m (requestedQuantity m) @ nl @ nl @ systemInstruction"
      using needs gd by (simp add: systemContextOf_def)
    have lg: "\<exists>rest. sentInTurn st st' =
           (SystemActionCall,
            m @ conversationContextOf st n (tempSessionOf st u n s) @
            nl @ nl @ purchaseNoProductData env m (requestedQuantity m) @ nl @ nl @
            systemInstruction) # rest"
      using sendChatMessage_system_log[OF needs user run] sc by simp
    have ct: "cartItems st' = cartItems st"
      using sendChatMessage_no_product[OF user none, of m] run by simp
    from sd lg ct purchaseNoProductData_instruction
    show "systemDataOf env st u m (tempSessionOf st u n s)
          = purchaseNoProductData env m (requestedQuantity m) \<and>
        includesStr (purchaseNoProductData env m (requestedQuantity m))
          ''[SYSTEM ACTION: Ask user to specify which product they want to purchase]'' \<and>
        (\<exists>rest. sentInTurn st st' =
           (SystemActionCall,
            m @ conversationContextOf st n (tempSessionOf st u n s) @
            nl @ nl @ purchaseNoProductData env m (requestedQuantity m) @ nl @ nl @
            systemInstruction) # rest) \<and>
        cartItems st' = cartItems st" by blast
  qed
  from a resolveFocusProduct_find[of st cs] sessionMessages_set[of st sid]
    sessionMessages_sorted[of st sid] e f g
  show ?thesis by blast
qed

lemma shop_find_product:
  "(case find hasProduct (take 10 (sessionMessages shopState (cs_id s1Session))) of
      None \<Rightarrow> None
    | Some msg \<Rightarrow> productOf msg) = Some tee"
  by code_simp

theorem focus_product_witness:
  "resolveFocusProduct shopState (Some s1Session) = Some tee \<and>
   systemDataOf (testEnv (\<lambda>site. okReply ''Which product?'')) shopState ''u1'' ''yes add it''
      (tempSessionOf shopState ''u1'' True None)
     = purchaseNoProductData (testEnv (\<lambda>site. okReply ''Which product?'')) ''yes add it'' (Finite 1) \<and>
   cartItems (snd (sendChatMessage (testEnv (\<lambda>site. okReply ''Which product?'')) shopState ''u1''
                     ''yes add it'' True None)) = cartItems shopState"
proof -
  let ?E = "testEnv (\<lambda>site. okReply ''Which product?'')"
  note fp = focus_product[of shopState s1Session _ "''yes add it''" "''u1''" True None ?E
      "''sensay-1''" shopState
      "fst (sendChatMessage ?E shopState ''u1'' ''yes add it'' True None)"
      "snd (sendChatMessage ?E shopState ''u1'' ''yes add it'' True None)"]
  have a: "resolveFocusProduct shopState (Some s1Session) = Some tee"
    using fp shop_find_product by simp
  have none: "resolveFocusProduct shopState (tempSessionOf shopState ''u1'' True None) = None"
    by (simp add: tempSessionOf_def resolveFocusProduct_def)
  have "systemDataOf ?E shopState ''u1'' ''yes add it'' (tempSessionOf shopState ''u1'' True None)
          = purchaseNoProductData ?E ''yes add it'' (requestedQuantity ''yes add it'') \<and>
        cartItems (snd (sendChatMessage ?E shopState ''u1'' ''yes add it'' True None))
          = cartItems shopState"
    using fp conjunct1[OF yes_add_it] none shop_user[of "\<lambda>site. okReply ''Which product?''"]
    by simp
  with a conjunct2[OF yes_add_it] show ?thesis by simp
qed

section \<open>Failing AI calls: properties\<close>

lemma sentInTurn_append: "aiLog st' = aiLog st @ xs \<Longrightarrow> sentInTurn st st' = xs"
  by (simp add: sentInTurn_def)

text \<open>The system-action stage sends one prompt when a system action is needed, and fails
  exactly when that call fails.\<close>

lemma systemActionStage_outcome:
  assumes "systemActionStage env st su u m t cc sc None = (x, st1)"
  shows "aiLog st1 = aiLog st @ (if needsSystemAction m then [(SystemActionCall, m @ cc @ sc)] else [])
         \<and> (needsSystemAction m \<longrightarrow>
              (\<forall>e. chatWithReplica env SystemActionCall su (m @ cc @ sc) = Inl e \<longrightarrow> x = Inl e) \<and>
              (\<forall>r. chatWithReplica env SystemActionCall su (m @ cc @ sc) = Inr r \<longrightarrow> x = Inr (Some r)))
         \<and> (\<not> needsSystemAction m \<longrightarrow> x = Inr None)"
  using assms isCartManagement_needs[of m]
  by (auto simp: systemActionStage_def Let_def addFocusProductToCart_frame
      split: sum.splits if_splits)

text \<open>In the reply stage the failure of a call other than the search call is the failure
  of the stage; the failure of the search call is followed by the fallback call.\<close>

lemma replyStage_outcome:
  assumes "replyStage env st su u m n cc = (x, st2)"
  shows "\<exists>ys. aiLog st2 = aiLog st @ ys \<and>
           (\<forall>site p e. (site, p) \<in> set ys \<and> site \<noteq> SearchCall \<and>
               chatWithReplica env site su p = Inl e \<longrightarrow> x = Inl e) \<and>
           (\<forall>p e. (SearchCall, p) \<in> set ys \<and> chatWithReplica env SearchCall su p = Inl e
               \<longrightarrow> (FallbackCall, fallbackMessage m cc) \<in> set ys) \<and>
           (\<forall>res. isProductSearch m \<and> (\<forall>q. searchProducts env q 5 = Inr res)
               \<longrightarrow> (SearchCall, enhancedSearchMessage env m cc res) \<in> set ys)"
proof (cases "isProductSearch m")
  case False
  with assms show ?thesis
    by (auto simp: replyStage_def callReplica_def split: sum.splits)
next
  case True
  define q where "q = (if isFollowUpQuestion m \<and> \<not> n then followUpQuery st u m else m)"
  show ?thesis
  proof (cases "searchProducts env q 5")
    case (Inl e0)
    have "aiLog st2 = aiLog st @ [(FallbackCall, fallbackMessage m cc)] \<and>
          (\<forall>e. chatWithReplica env FallbackCall su (fallbackMessage m cc) = Inl e \<longrightarrow> x = Inl e)"
      using assms True Inl
      by (auto simp: replyStage_def Let_def q_def searchFallback_def callReplica_def
          split: sum.splits)
    moreover have "\<not> (\<forall>q. searchProducts env q 5 = Inr res)" for res
      using Inl by (metis Inl_Inr_False)
    ultimately show ?thesis by auto
  next
    case (Inr res)
    let ?p = "enhancedSearchMessage env m cc res"
    show ?thesis
    proof (cases "chatWithReplica env SearchCall su ?p")
      case (Inl e1)
      have "aiLog st2 = aiLog st @ [(SearchCall, ?p), (FallbackCall, fallbackMessage m cc)] \<and>
          (\<forall>e. chatWithReplica env FallbackCall su (fallbackMessage m cc) = Inl e \<longrightarrow> x = Inl e)"
        using assms True Inr Inl
        by (auto simp: replyStage_def Let_def q_def searchFallback_def callReplica_def
            split: sum.splits)
      moreover have "(\<forall>q. searchProducts env q 5 = Inr res') \<longrightarrow> res' = res" for res'
        using Inr by (metis sum.inject(2))
      ultimately show ?thesis by auto
    next
      case (Inr r)
      have "aiLog st2 = aiLog st @ [(SearchCall, ?p)]"
        using assms True \<open>searchProducts env q 5 = Inr res\<close> Inr
        by (auto simp: replyStage_def Let_def q_def searchFallback_def callReplica_def
            split: sum.splits)
      moreover have "(\<forall>q. searchProducts env q 5 = Inr res') \<longrightarrow> res' = res" for res'
        using \<open>searchProducts env q 5 = Inr res\<close> by (metis sum.inject(2))
      ultimately show ?thesis using Inr by auto
    qed
  qed
qed

text \<open>The prompts of a turn: the system-action prompt when one is needed, then those of
  the reply stage.  The failure of a call other than the search call is the failure of
  the turn; the failure of the search call is followed by the fallback call.\<close>

lemma sendChatMessageTry_log:
  assumes user: "getOrCreateSensayUser env st u = (Inr su, st0)"
    and run: "sendChatMessageTry env st u m n s = (r, st')"
    and cc: "cc = conversationContextOf st n (tempSessionOf st u n s)"
    and sc: "sc = systemContextOf env st u m (tempSessionOf st u n s)"
  shows "\<exists>ys. sentInTurn st st' =
             (if needsSystemAction m then [(SystemActionCall, m @ cc @ sc)] else []) @ ys \<and>
           (\<forall>e. needsSystemAction m \<and>
                chatWithReplica env SystemActionCall su (m @ cc @ sc) = Inl e \<longrightarrow> r = Inl e) \<and>
           (\<forall>site p e. (site, p) \<in> set ys \<and> site \<noteq> SearchCall \<and>
               chatWithReplica env site su p = Inl e \<longrightarrow> r = Inl e) \<and>
           (\<forall>p e. (SearchCall, p) \<in> set ys \<and> chatWithReplica env SearchCall su p = Inl e
               \<longrightarrow> (FallbackCall, fallbackMessage m cc) \<in> set ys) \<and>
           (\<forall>res pl. r = Inr pl \<and> isProductSearch m \<and> (\<forall>q. searchProducts env q 5 = Inr res)
               \<longrightarrow> (SearchCall, enhancedSearchMessage env m cc res) \<in> set ys)"
proof -
  let ?t = "tempSessionOf st u n s"
  have l0: "aiLog st0 = aiLog st" using getOrCreateSensayUser_frame[OF user] by simp
  obtain x st1 where a: "systemActionStage env st0 su u m ?t cc sc None = (x, st1)"
    by (cases "systemActionStage env st0 su u m ?t cc sc None") auto
  note o = systemActionStage_outcome[OF a]
  have l1: "aiLog st1 =
      aiLog st @ (if needsSystemAction m then [(SystemActionCall, m @ cc @ sc)] else [])"
    using o l0 by simp
  show ?thesis
  proof (cases x)
    case (Inl e')
    have "r = Inl e'" "st' = st1"
      using run a user Inl by (simp_all add: sendChatMessageTry_alt Let_def cc sc)
    then have "sentInTurn st st' =
        (if needsSystemAction m then [(SystemActionCall, m @ cc @ sc)] else []) @ []"
      using l1 by (simp add: sentInTurn_def)
    moreover have "\<forall>e. needsSystemAction m \<and>
        chatWithReplica env SystemActionCall su (m @ cc @ sc) = Inl e \<longrightarrow> r = Inl e"
      using o Inl \<open>r = Inl e'\<close> by auto
    ultimately show ?thesis using \<open>r = Inl e'\<close> by (intro exI[of _ "[]"]) simp
  next
    case (Inr r1)
    have sys: "\<forall>e. needsSystemAction m \<and>
        chatWithReplica env SystemActionCall su (m @ cc @ sc) = Inl e \<longrightarrow> r = Inl e"
      using o Inr by auto
    obtain x2 st2 where b: "replyStage env st1 su u m n cc = (x2, st2)"
      by (cases "replyStage env st1 su u m n cc") auto
    from replyStage_outcome[OF b] obtain ys where ys: "aiLog st2 = aiLog st1 @ ys"
      "\<forall>site p e. (site, p) \<in> set ys \<and> site \<noteq> SearchCall \<and>
          chatWithReplica env site su p = Inl e \<longrightarrow> x2 = Inl e"
      "\<forall>p e. (SearchCall, p) \<in> set ys \<and> chatWithReplica env SearchCall su p = Inl e
          \<longrightarrow> (FallbackCall, fallbackMessage m cc) \<in> set ys"
      "\<forall>res. isProductSearch m \<and> (\<forall>q. searchProducts env q 5 = Inr res)
          \<longrightarrow> (SearchCall, enhancedSearchMessage env m cc res) \<in> set ys"
      by blast
    have "aiLog st' = aiLog st2 \<and> (\<forall>e. x2 = Inl e \<longrightarrow> r = Inl e)"
    proof (cases x2)
      case (Inl e2)
      then show ?thesis
        using run a user \<open>x = Inr r1\<close> b by (simp add: sendChatMessageTry_alt Let_def cc sc)
    next
      case (Inr rp)
      obtain response ps where rp: "rp = (response, ps)" by (cases rp) auto
      obtain rc st3 where rv: "resolveSession env st2 u n s = (rc, st3)"
        by (cases "resolveSession env st2 u n s") auto
      have l3: "aiLog st3 = aiLog st2" using resolveSession_frame[OF rv] by simp
      show ?thesis
      proof (cases rc)
        case (Inl e3)
        then show ?thesis
          using run a user \<open>x = Inr r1\<close> b \<open>x2 = Inr rp\<close> rp rv l3
          by (simp add: sendChatMessageTry_alt Let_def cc sc)
      next
        case (Inr cs)
        have "st' = touchSession (saveMessages env st3 (cs_id cs) m response ps) (cs_id cs)"
          using run a user \<open>x = Inr r1\<close> b \<open>x2 = Inr rp\<close> rp rv Inr
          by (simp add: sendChatMessageTry_alt Let_def cc sc)
        then show ?thesis
          using l3 \<open>x2 = Inr rp\<close> saveMessages_frame[of env st3 "cs_id cs" m response ps]
            touchSession_frame[of "saveMessages env st3 (cs_id cs) m response ps" "cs_id cs"]
          by simp
      qed
    qed
    then have l2: "aiLog st' = aiLog st2" and x2: "\<forall>e. x2 = Inl e \<longrightarrow> r = Inl e" by simp_all
    have "sentInTurn st st' =
        (if needsSystemAction m then [(SystemActionCall, m @ cc @ sc)] else []) @ ys"
      using l1 l2 ys(1) by (simp add: sentInTurn_def)
    with sys ys(2,3,4) x2 show ?thesis by (intro exI[of _ ys]) auto
  qed
qed

lemma sendChatMessageTry_ai_failure:
  assumes user: "getOrCreateSensayUser env st u = (Inr su, st0)"
    and run: "sendChatMessageTry env st u m n s = (r, st')"
    and sent: "(site, p) \<in> set (sentInTurn st st')"
    and site: "site \<noteq> SearchCall"
    and fails: "chatWithReplica env site su p = Inl e"
  shows "r = Inl e"
proof -
  from sendChatMessageTry_log[OF user run refl refl] obtain ys where
    ys: "sentInTurn st st' =
           (if needsSystemAction m
            then [(SystemActionCall,
                   m @ conversationContextOf st n (tempSessionOf st u n s) @
                   systemContextOf env st u m (tempSessionOf st u n s))] else []) @ ys"
      "\<forall>e. needsSystemAction m \<and>
          chatWithReplica env SystemActionCall su
            (m @ conversationContextOf st n (tempSessionOf st u n s) @
             systemContextOf env st u m (tempSessionOf st u n s)) = Inl e \<longrightarrow> r = Inl e"
      "\<forall>site p e. (site, p) \<in> set ys \<and> site \<noteq> SearchCall \<and>
          chatWithReplica env site su p = Inl e \<longrightarrow> r = Inl e"
    by blast
  from sent ys(1) have "(needsSystemAction m \<and> site = SystemActionCall \<and>
       p = m @ conversationContextOf st n (tempSessionOf st u n s) @
           systemContextOf env st u m (tempSessionOf st u n s)) \<or> (site, p) \<in> set ys"
    by (auto split: if_splits)
  then show ?thesis using ys(2,3) site fails by auto
qed

lemma replyStage_ok_but_search:
  assumes "\<And>site p. site \<noteq> SearchCall \<Longrightarrow> \<exists>r. chatWithReplica env site su p = Inr r"
  shows "\<exists>r ps st1. replyStage env st su u m n cc = (Inr (r, ps), st1)"
proof (cases "isProductSearch m")
  case True
  define q where "q = (if isFollowUpQuestion m \<and> \<not> n then followUpQuery st u m else m)"
  have fb: "\<exists>r st1. searchFallback env st' su m cc ps = (Inr (r, ps), st1)" for st' ps
    using searchFallback_ok[of env su st' m cc ps] assms by simp
  show ?thesis
  proof (cases "searchProducts env q 5")
    case (Inl e)
    with True show ?thesis
      using fb[of st "[]"] by (auto simp: replyStage_def Let_def q_def)
  next
    case (Inr res)
    show ?thesis
    proof (cases "chatWithReplica env SearchCall su (enhancedSearchMessage env m cc res)")
      case (Inl e)
      with True \<open>searchProducts env q 5 = Inr res\<close> show ?thesis
        using fb[of "logCall SearchCall (enhancedSearchMessage env m cc res) st" res]
        by (auto simp: replyStage_def Let_def q_def callReplica_def)
    next
      case (Inr r)
      with True \<open>searchProducts env q 5 = Inr res\<close> show ?thesis
        by (auto simp: replyStage_def Let_def q_def callReplica_def)
    qed
  qed
next
  case False
  obtain r where "chatWithReplica env PlainCall su (contextualMessage m cc) = Inr r"
    using assms[of PlainCall] by auto
  with False show ?thesis by (simp add: replyStage_def callReplica_def)
qed

text \<open>A turn also returns when only the AI call of the search branch fails.\<close>

lemma sendChatMessage_ok_but_search:
  assumes user: "getOrCreateSensayUser env st u = (Inr su, st0)"
    and ai: "\<And>site p. site \<noteq> SearchCall \<Longrightarrow> \<exists>r. chatWithReplica env site su p = Inr r"
    and fresh: "newId env (map cs_id (chatSessions st)) \<notin> set (map cs_id (chatSessions st))"
  shows "\<exists>p st'. sendChatMessage env st u m n s = (Inr p, st')"
proof -
  let ?t = "tempSessionOf st u n s"
  let ?cc = "conversationContextOf st n ?t"
  let ?sc = "systemContextOf env st u m ?t"
  obtain r1 st1 where a: "systemActionStage env st0 su u m ?t ?cc ?sc None = (Inr r1, st1)"
    using systemActionStage_ok[of env su st0 u m ?t ?cc ?sc] ai[of SystemActionCall] by auto
  obtain r ps st2 where b: "replyStage env st1 su u m n ?cc = (Inr (r, ps), st2)"
    using replyStage_ok_but_search[of env su st1 u m n ?cc] ai by blast
  have "chatSessions st2 = chatSessions st"
    using getOrCreateSensayUser_frame[OF user] systemActionStage_frame[OF a]
      replyStage_frame[OF b] by simp
  with fresh obtain cs st3 where c: "resolveSession env st2 u n s = (Inr cs, st3)"
    using resolveSession_ok[of env st2 u n s] by auto
  have "\<exists>p st'. sendChatMessageTry env st u m n s = (Inr p, st')"
    by (simp add: sendChatMessageTry_alt Let_def user a b c)
  then show ?thesis by (simp add: sendChatMessage_Inr)
qed

lemma sendChatMessage_log:
  assumes "getOrCreateSensayUser env st u = (Inr su, st0)"
    and "sendChatMessage env st u m n s = (r, st')"
    and "(SearchCall, p) \<in> set (sentInTurn st st')"
    and "chatWithReplica env SearchCall su p = Inl e"
  shows "(FallbackCall, fallbackMessage m (conversationContextOf st n (tempSessionOf st u n s)))
           \<in> set (sentInTurn st st')"
proof -
  obtain r0 where run: "sendChatMessageTry env st u m n s = (r0, st')"
    using assms(2) by (cases "sendChatMessageTry env st u m n s")
      (auto simp: sendChatMessage_def split: sum.splits)
  from sendChatMessageTry_log[OF assms(1) run refl refl] obtain ys where
    ys: "sentInTurn st st' =
           (if needsSystemAction m
            then [(SystemActionCall,
                   m @ conversationContextOf st n (tempSessionOf st u n s) @
                   systemContextOf env st u m (tempSessionOf st u n s))] else []) @ ys"
      "\<forall>p e. (SearchCall, p) \<in> set ys \<and> chatWithReplica env SearchCall su p = Inl e
          \<longrightarrow> (FallbackCall,
                fallbackMessage m (conversationContextOf st n (tempSessionOf st u n s))) \<in> set ys"
    by blast
  from assms(3) ys(1) have "(SearchCall, p) \<in> set ys" by (auto split: if_splits)
  with ys(2) assms(4) have "(FallbackCall,
      fallbackMessage m (conversationContextOf st n (tempSessionOf st u n s))) \<in> set ys" by blast
  with ys(1) show ?thesis by simp
qed

subsection \<open>What the answer of a call does to the turn\<close>

text \<open>What the reply stage hands on decides the turn: its error is the error of the turn,
  and its reply is the message of the payload, which is returned unless the session
  cannot be created.\<close>

lemma sendChatMessageTry_after_reply:
  assumes user: "getOrCreateSensayUser env st u = (Inr su, st0)"
    and a: "systemActionStage env st0 su u m (tempSessionOf st u n s)
              (conversationContextOf st n (tempSessionOf st u n s))
              (systemContextOf env st u m (tempSessionOf st u n s)) None = (Inr r1, st1)"
    and b: "replyStage env st1 su u m n (conversationContextOf st n (tempSessionOf st u n s))
              = (x2, st2)"
    and run: "sendChatMessageTry env st u m n s = (r, st')"
  shows "aiLog st' = aiLog st2 \<and>
         (\<forall>e. x2 = Inl e \<longrightarrow> r = Inl e) \<and>
         (\<forall>rep ps. x2 = Inr (rep, ps) \<longrightarrow>
            (\<forall>pl. r = Inr pl \<longrightarrow>
               pl_message pl = content rep \<and>
               pl_shopifyProducts pl = (if length ps > 0 then Some ps else None)) \<and>
            (newId env (map cs_id (chatSessions st)) \<notin> set (map cs_id (chatSessions st))
               \<longrightarrow> (\<exists>pl. r = Inr pl)))"
proof (cases x2)
  case (Inl e2)
  then show ?thesis
    using run a user b by (simp add: sendChatMessageTry_alt Let_def)
next
  case (Inr rp)
  obtain response ps where rp: "rp = (response, ps)" by (cases rp) auto
  obtain rc st3 where rv: "resolveSession env st2 u n s = (rc, st3)"
    by (cases "resolveSession env st2 u n s") auto
  have l3: "aiLog st3 = aiLog st2" using resolveSession_frame[OF rv] by simp
  have cs: "chatSessions st2 = chatSessions st"
    using getOrCreateSensayUser_frame[OF user] systemActionStage_frame[OF a]
      replyStage_frame[OF b] by simp
  show ?thesis
  proof (cases rc)
    case (Inl e3)
    have r: "r = Inl e3" "st' = st3"
      using run a user b \<open>x2 = Inr rp\<close> rp rv Inl
      by (simp_all add: sendChatMessageTry_alt Let_def)
    have "\<not> newId env (map cs_id (chatSessions st)) \<notin> set (map cs_id (chatSessions st))"
      using resolveSession_ok[of env st2 u n s] rv Inl cs by auto
    with r l3 \<open>x2 = Inr rp\<close> rp show ?thesis by simp
  next
    case (Inr c)
    have x: "x2 = Inr (response, ps)" using \<open>x2 = Inr rp\<close> rp by simp
    have "sendChatMessageTry env st u m n s =
           (Inr \<lparr>pl_success = True, pl_message = content response,
                  pl_sessionId = cs_id c,
                  pl_timestamp = now (touchSession (saveMessages env st3 (cs_id c) m response ps) (cs_id c)),
                  pl_isNewSession = n,
                  pl_shopifyProducts = (if length ps > 0 then Some ps else None)\<rparr>,
            touchSession (saveMessages env st3 (cs_id c) m response ps) (cs_id c))"
      using a user b[unfolded x] rv[unfolded Inr]
      by (simp add: sendChatMessageTry_alt Let_def)
    from trans[OF run[symmetric] this]
    have r: "r = Inr \<lparr>pl_success = True, pl_message = content response,
                  pl_sessionId = cs_id c,
                  pl_timestamp = now (touchSession (saveMessages env st3 (cs_id c) m response ps) (cs_id c)),
                  pl_isNewSession = n,
                  pl_shopifyProducts = (if length ps > 0 then Some ps else None)\<rparr>"
      and st': "st' = touchSession (saveMessages env st3 (cs_id c) m response ps) (cs_id c)"
      by (simp_all only: prod.inject)
    have l: "aiLog st' = aiLog st2"
      unfolding st' using l3 saveMessages_frame[of env st3 "cs_id c" m response ps]
        touchSession_frame[of "saveMessages env st3 (cs_id c) m response ps" "cs_id c"]
      by simp
    show ?thesis unfolding x r using l by simp
  qed
qed

text \<open>When the search call of the reply stage fails, the fallback call is made and the
  stage hands on what the fallback call gives.\<close>

lemma replyStage_search_failure:
  assumes "replyStage env st su u m n cc = (x, st2)"
    and "aiLog st2 = aiLog st @ ys"
    and "(SearchCall, p) \<in> set ys"
    and "chatWithReplica env SearchCall su p = Inl e"
  shows "(FallbackCall, fallbackMessage m cc) \<in> set ys \<and>
         (\<forall>e'. chatWithReplica env FallbackCall su (fallbackMessage m cc) = Inl e' \<longrightarrow> x = Inl e') \<and>
         (\<forall>rep. chatWithReplica env FallbackCall su (fallbackMessage m cc) = Inr rep \<longrightarrow>
            (\<exists>ps. x = Inr (rep, ps)))"
proof (cases "isProductSearch m")
  case False
  with assms(1) have "aiLog st2 = aiLog st @ [(PlainCall, contextualMessage m cc)]"
    by (auto simp: replyStage_def callReplica_def split: sum.splits)
  with assms(2) have "ys = [(PlainCall, contextualMessage m cc)]" by simp
  with assms(3) show ?thesis by simp
next
  case True
  define q where "q = (if isFollowUpQuestion m \<and> \<not> n then followUpQuery st u m else m)"
  show ?thesis
  proof (cases "searchProducts env q 5")
    case (Inl e0)
    have "aiLog st2 = aiLog st @ [(FallbackCall, fallbackMessage m cc)]"
      using assms(1) True Inl
      by (auto simp: replyStage_def Let_def q_def searchFallback_def callReplica_def
          split: sum.splits)
    with assms(2) have "ys = [(FallbackCall, fallbackMessage m cc)]" by simp
    with assms(3) show ?thesis by simp
  next
    case (Inr res)
    let ?p = "enhancedSearchMessage env m cc res"
    show ?thesis
    proof (cases "chatWithReplica env SearchCall su ?p")
      case (Inl e1)
      have "aiLog st2 = aiLog st @ [(SearchCall, ?p), (FallbackCall, fallbackMessage m cc)]"
        and "\<forall>e'. chatWithReplica env FallbackCall su (fallbackMessage m cc) = Inl e' \<longrightarrow> x = Inl e'"
        and "\<forall>rep. chatWithReplica env FallbackCall su (fallbackMessage m cc) = Inr rep \<longrightarrow>
               x = Inr (rep, res)"
        using assms(1) True Inr Inl
        by (auto simp: replyStage_def Let_def q_def searchFallback_def callReplica_def
            split: sum.splits)
      moreover from this(1) assms(2)
      have "ys = [(SearchCall, ?p), (FallbackCall, fallbackMessage m cc)]" by simp
      ultimately show ?thesis by simp
    next
      case (Inr r)
      have "aiLog st2 = aiLog st @ [(SearchCall, ?p)]"
        using assms(1) True \<open>searchProducts env q 5 = Inr res\<close> Inr
        by (auto simp: replyStage_def Let_def q_def searchFallback_def callReplica_def
            split: sum.splits)
      with assms(2) have "ys = [(SearchCall, ?p)]" by simp
      with assms(3) have "p = ?p" by simp
      with assms(4) Inr show ?thesis by simp
    qed
  qed
qed

text \<open>In plain chat the reply stage makes the one call, and hands on what it gives.\<close>

lemma replyStage_plain_outcome:
  assumes "\<not> isProductSearch m" and "replyStage env st su u m n cc = (x, st2)"
  shows "(\<forall>e. chatWithReplica env PlainCall su (contextualMessage m cc) = Inl e \<longrightarrow> x = Inl e) \<and>
         (\<forall>rep. chatWithReplica env PlainCall su (contextualMessage m cc) = Inr rep \<longrightarrow>
            x = Inr (rep, []))"
  using assms by (auto simp: replyStage_def callReplica_def split: sum.splits)

lemma sendChatMessageTry_search_failure:
  assumes user: "getOrCreateSensayUser env st u = (Inr su, st0)"
    and run: "sendChatMessageTry env st u m n s = (r, st')"
    and sent: "(SearchCall, p) \<in> set (sentInTurn st st')"
    and fails: "chatWithReplica env SearchCall su p = Inl e"
    and fm: "fm = fallbackMessage m (conversationContextOf st n (tempSessionOf st u n s))"
  shows "(FallbackCall, fm) \<in> set (sentInTurn st st') \<and>
         (\<forall>e'. chatWithReplica env FallbackCall su fm = Inl e' \<longrightarrow> r = Inl e') \<and>
         (\<forall>rep. chatWithReplica env FallbackCall su fm = Inr rep \<longrightarrow>
            (\<forall>pl. r = Inr pl \<longrightarrow> pl_message pl = content rep) \<and>
            (newId env (map cs_id (chatSessions st)) \<notin> set (map cs_id (chatSessions st))
               \<longrightarrow> (\<exists>pl. r = Inr pl)))"
proof -
  let ?t = "tempSessionOf st u n s"
  let ?cc = "conversationContextOf st n ?t"
  let ?sc = "systemContextOf env st u m ?t"
  let ?sys = "if needsSystemAction m then [(SystemActionCall, m @ ?cc @ ?sc)] else []"
  have l0: "aiLog st0 = aiLog st" using getOrCreateSensayUser_frame[OF user] by simp
  obtain x st1 where a: "systemActionStage env st0 su u m ?t ?cc ?sc None = (x, st1)"
    by (cases "systemActionStage env st0 su u m ?t ?cc ?sc None") auto
  have l1: "aiLog st1 = aiLog st @ ?sys"
    using systemActionStage_outcome[OF a] l0 by simp
  show ?thesis
  proof (cases x)
    case (Inl e')
    have "st' = st1" using run a user Inl by (simp add: sendChatMessageTry_alt Let_def)
    with l1 have "sentInTurn st st' = ?sys" by (simp add: sentInTurn_def)
    with sent show ?thesis by (auto split: if_splits)
  next
    case (Inr r1)
    obtain x2 st2 where b: "replyStage env st1 su u m n ?cc = (x2, st2)"
      by (cases "replyStage env st1 su u m n ?cc") auto
    from replyStage_outcome[OF b] obtain ys where ys: "aiLog st2 = aiLog st1 @ ys" by blast
    note ar = sendChatMessageTry_after_reply[OF user a[unfolded Inr] b run]
    note ar1 = conjunct1[OF ar]
    note ar2 = conjunct1[OF conjunct2[OF ar], rule_format]
    note ar3 = conjunct2[OF conjunct2[OF ar], rule_format]
    have s: "sentInTurn st st' = ?sys @ ys"
      using ar1 l1 ys by (simp add: sentInTurn_def)
    with sent have in_ys: "(SearchCall, p) \<in> set ys" by (auto split: if_splits)
    note sf = replyStage_search_failure[OF b ys in_ys fails, folded fm]
    note sf1 = conjunct1[OF sf]
    note sf2 = conjunct1[OF conjunct2[OF sf], rule_format]
    note sf3 = conjunct2[OF conjunct2[OF sf], rule_format]
    have 1: "(FallbackCall, fm) \<in> set (sentInTurn st st')" using sf1 s by simp
    have 2: "\<forall>e'. chatWithReplica env FallbackCall su fm = Inl e' \<longrightarrow> r = Inl e'"
    proof (intro allI impI)
      fix e'
      assume "chatWithReplica env FallbackCall su fm = Inl e'"
      from ar2[OF sf2[OF this]] show "r = Inl e'" .
    qed
    have 3: "\<forall>rep. chatWithReplica env FallbackCall su fm = Inr rep \<longrightarrow>
            (\<forall>pl. r = Inr pl \<longrightarrow> pl_message pl = content rep) \<and>
            (newId env (map cs_id (chatSessions st)) \<notin> set (map cs_id (chatSessions st))
               \<longrightarrow> (\<exists>pl. r = Inr pl))"
    proof (intro allI impI)
      fix rep
      assume "chatWithReplica env FallbackCall su fm = Inr rep"
      from sf3[OF this] obtain ps where x2: "x2 = Inr (rep, ps)" by (rule exE)
      from ar3[OF x2]
      show "(\<forall>pl. r = Inr pl \<longrightarrow> pl_message pl = content rep) \<and>
            (newId env (map cs_id (chatSessions st)) \<notin> set (map cs_id (chatSessions st))
               \<longrightarrow> (\<exists>pl. r = Inr pl))" by simp
    qed
    from 1 2 3 show ?thesis by (intro conjI)
  qed
qed

lemma sendChatMessageTry_plain_outcome:
  assumes plain: "\<not> needsSystemAction m" "\<not> isProductSearch m"
    and user: "getOrCreateSensayUser env st u = (Inr su, st0)"
    and run: "sendChatMessageTry env st u m n s = (r, st')"
    and pr: "prompt = contextualMessage m (conversationContextOf st n (tempSessionOf st u n s))"
  shows "(\<forall>e. chatWithReplica env PlainCall su prompt = Inl e \<longrightarrow> r = Inl e) \<and>
         (\<forall>rep. chatWithReplica env PlainCall su prompt = Inr rep \<longrightarrow>
            (\<forall>pl. r = Inr pl \<longrightarrow> pl_message pl = content rep \<and> pl_shopifyProducts pl = None) \<and>
            (newId env (map cs_id (chatSessions st)) \<notin> set (map cs_id (chatSessions st))
               \<longrightarrow> (\<exists>pl. r = Inr pl)))"
proof -
  let ?t = "tempSessionOf st u n s"
  let ?cc = "conversationContextOf st n ?t"
  let ?sc = "systemContextOf env st u m ?t"
  have a: "systemActionStage env st0 su u m ?t ?cc ?sc None = (Inr None, st0)"
    by (rule systemActionStage_plain[OF plain(1)])
  obtain x2 st2 where b: "replyStage env st0 su u m n ?cc = (x2, st2)"
    by (cases "replyStage env st0 su u m n ?cc") auto
  note ar = sendChatMessageTry_after_reply[OF user a b run]
  note ar2 = conjunct1[OF conjunct2[OF ar], rule_format]
  note ar3 = conjunct2[OF conjunct2[OF ar], rule_format]
  note po = replyStage_plain_outcome[OF plain(2) b, folded pr]
  note po1 = conjunct1[OF po, rule_format]
  note po2 = conjunct2[OF po, rule_format]
  have 1: "\<forall>e. chatWithReplica env PlainCall su prompt = Inl e \<longrightarrow> r = Inl e"
  proof (intro allI impI)
    fix e
    assume "chatWithReplica env PlainCall su prompt = Inl e"
    from ar2[OF po1[OF this]] show "r = Inl e" .
  qed
  have 2: "\<forall>rep. chatWithReplica env PlainCall su prompt = Inr rep \<longrightarrow>
            (\<forall>pl. r = Inr pl \<longrightarrow> pl_message pl = content rep \<and> pl_shopifyProducts pl = None) \<and>
            (newId env (map cs_id (chatSessions st)) \<notin> set (map cs_id (chatSessions st))
               \<longrightarrow> (\<exists>pl. r = Inr pl))"
  proof (intro allI impI)
    fix rep
    assume "chatWithReplica env PlainCall su prompt = Inr rep"
    from ar3[OF po2[OF this]] show "(\<forall>pl. r = Inr pl \<longrightarrow> pl_message pl = content rep \<and> pl_shopifyProducts pl = None) \<and>
            (newId env (map cs_id (chatSessions st)) \<notin> set (map cs_id (chatSessions st))
               \<longrightarrow> (\<exists>pl. r = Inr pl))" by simp
  qed
  from 1 2 show ?thesis by (intro conjI)
qed

subsection \<open>The search call aborted\<close>

lemma searchAborts_ai:
  "chatWithReplica searchAbortsEnv site su p =
     (if site = SearchCall then Inl abortError else okReply ''Here you go'')"
  by (simp add: searchAbortsEnv_def)

lemma searchAborts_user:
  "getOrCreateSensayUser searchAbortsEnv shopState ''u1'' = (Inr ''sensay-1'', shopState)"
  unfolding searchAbortsEnv_def by (rule shop_user)

lemma searchAborts_returns:
  "\<exists>p st'. sendChatMessage searchAbortsEnv shopState ''u1'' m n s = (Inr p, st')"
proof (rule sendChatMessage_ok_but_search[OF searchAborts_user])
  show "newId searchAbortsEnv (map cs_id (chatSessions shopState))
        \<notin> set (map cs_id (chatSessions shopState))"
    unfolding searchAbortsEnv_def by (rule shop_fresh)
qed (simp add: searchAborts_ai okReply_def)

lemma show_me_shoes: "isProductSearch ''show me shoes''"
  by code_simp

lemma searchAborts_turn:
  "\<not> isl (fst (sendChatMessage searchAbortsEnv shopState ''u1'' ''show me shoes'' False (Some ''s1''))) \<and>
   (SearchCall,
    enhancedSearchMessage searchAbortsEnv ''show me shoes''
      (conversationContextOf shopState False (tempSessionOf shopState ''u1'' False (Some ''s1''))) [])
     \<in> set (sentInTurn shopState
          (snd (sendChatMessage searchAbortsEnv shopState ''u1'' ''show me shoes'' False (Some ''s1'')))) \<and>
   length (chatMessages
      (snd (sendChatMessage searchAbortsEnv shopState ''u1'' ''show me shoes'' False (Some ''s1''))))
     = length (chatMessages shopState) + 2"
proof -
  let ?cc = "conversationContextOf shopState False (tempSessionOf shopState ''u1'' False (Some ''s1''))"
  obtain p st' where r:
    "sendChatMessage searchAbortsEnv shopState ''u1'' ''show me shoes'' False (Some ''s1'') = (Inr p, st')"
    using searchAborts_returns by blast
  then have t:
    "sendChatMessageTry searchAbortsEnv shopState ''u1'' ''show me shoes'' False (Some ''s1'') = (Inr p, st')"
    by (simp add: sendChatMessage_Inr)
  have sr: "\<forall>q. searchProducts searchAbortsEnv q 5 = Inr []"
    by (simp add: searchAbortsEnv_def testEnv_def)
  from sendChatMessageTry_log[OF searchAborts_user t refl refl] obtain ys where
    ys: "sentInTurn shopState st' =
           (if needsSystemAction ''show me shoes''
            then [(SystemActionCall,
                   ''show me shoes'' @ ?cc @
                   systemContextOf searchAbortsEnv shopState ''u1'' ''show me shoes''
                     (tempSessionOf shopState ''u1'' False (Some ''s1'')))] else []) @ ys"
      "\<forall>res pl. Inr p = (Inr pl :: jsError + payload) \<and> isProductSearch ''show me shoes'' \<and>
          (\<forall>q. searchProducts searchAbortsEnv q 5 = Inr res)
          \<longrightarrow> (SearchCall, enhancedSearchMessage searchAbortsEnv ''show me shoes'' ?cc res) \<in> set ys"
    by blast
  from ys(2) show_me_shoes sr
  have "(SearchCall, enhancedSearchMessage searchAbortsEnv ''show me shoes'' ?cc []) \<in> set ys"
    by blast
  with ys(1) have a: "(SearchCall, enhancedSearchMessage searchAbortsEnv ''show me shoes'' ?cc [])
      \<in> set (sentInTurn shopState st')" by simp
  have id: "searchAbortsEnv\<lparr>userMessageSaveFails := False, aiMessageSaveFails := False\<rparr>
            = searchAbortsEnv"
    by (simp add: searchAbortsEnv_def testEnv_def)
  from sendChatMessageTry_flags[OF t, where a=False and b=False]
  have "length (chatMessages st') = length (chatMessages shopState) + 2"
    unfolding id t by auto
  with r a show ?thesis by simp
qed

text \<open>
  Claim C4 as stated fails in the search branch: there the AI call is made inside the
  \<^verbatim>\<open>try\<close> whose \<^verbatim>\<open>catch\<close> makes the fallback call.  In the turn below the AI call of the
  search branch is aborted; the turn still returns a payload and both messages are saved.
\<close>

theorem ai_failure_counterexample:
  "chatWithReplica searchAbortsEnv SearchCall ''sensay-1''
     (enhancedSearchMessage searchAbortsEnv ''show me shoes''
        (conversationContextOf shopState False (tempSessionOf shopState ''u1'' False (Some ''s1''))) [])
     = Inl abortError \<and>
   (SearchCall,
    enhancedSearchMessage searchAbortsEnv ''show me shoes''
      (conversationContextOf shopState False (tempSessionOf shopState ''u1'' False (Some ''s1''))) [])
     \<in> set (sentInTurn shopState
          (snd (sendChatMessage searchAbortsEnv shopState ''u1'' ''show me shoes'' False (Some ''s1'')))) \<and>
   \<not> isl (fst (sendChatMessage searchAbortsEnv shopState ''u1'' ''show me shoes'' False (Some ''s1''))) \<and>
   length (chatMessages
      (snd (sendChatMessage searchAbortsEnv shopState ''u1'' ''show me shoes'' False (Some ''s1''))))
     = length (chatMessages shopState) + 2"
  using searchAborts_turn by (simp add: searchAborts_ai)

lemma hello_sent:
  "sentInTurn shopState (snd (sendChatMessage (testEnv ai) shopState ''u1'' ''hello'' True None))
     = [(PlainCall, ''hello'')]"
proof -
  have c0: "conversationContextOf shopState True (tempSessionOf shopState ''u1'' True None) = []"
    by (simp add: conversationContextOf_def)
  have "aiLog (snd (sendChatMessageTry (testEnv ai) shopState ''u1'' ''hello'' True None)) =
          aiLog shopState @ [(PlainCall, contextualMessage ''hello'' [])]"
    using sendChatMessageTry_plain_log[OF conjunct1[OF hello_plain] conjunct2[OF hello_plain]
        shop_user surjective_pairing, of ai True None]
    unfolding c0 .
  then show ?thesis
    by (simp add: sentInTurn_def sendChatMessage_snd contextualMessage_def)
qed

lemma userFacingMessage_examples:
  "userFacingMessage abortError
     = ''The request timed out. The AI service might be busy. Please try again.'' \<and>
   userFacingMessage (mkError ''HTTP 401 Unauthorized'')
     = ''Authentication error. Please try logging out and back in.'' \<and>
   userFacingMessage (mkError ''429 Too Many Requests'')
     = ''Too many requests. Please wait a moment before trying again.'' \<and>
   userFacingMessage (mkError ''socket hang up'') = genericApology"
  by code_simp

lemma userFacingMessage_phrases:
  "includesStr ''The request timed out. The AI service might be busy. Please try again.''
     ''timed out'' \<and>
   includesStr ''Authentication error. Please try logging out and back in.''
     ''try logging out and back in'' \<and>
   includesStr ''Too many requests. Please wait a moment before trying again.''
     ''Too many requests''"
  by code_simp

lemma sendChatMessage_search_failure:
  assumes user: "getOrCreateSensayUser env st u = (Inr su, st0)"
    and run: "sendChatMessage env st u m n s = (r, st')"
    and sent: "(SearchCall, p) \<in> set (sentInTurn st st')"
    and fails: "chatWithReplica env SearchCall su p = Inl e"
    and fm: "fm = fallbackMessage m (conversationContextOf st n (tempSessionOf st u n s))"
  shows "(FallbackCall, fm) \<in> set (sentInTurn st st') \<and>
         (\<forall>e'. chatWithReplica env FallbackCall su fm = Inl e' \<longrightarrow> r = Inl (userFacingMessage e')) \<and>
         (\<forall>rep. chatWithReplica env FallbackCall su fm = Inr rep \<longrightarrow>
            (\<forall>pl. r = Inr pl \<longrightarrow> pl_message pl = content rep) \<and>
            (newId env (map cs_id (chatSessions st)) \<notin> set (map cs_id (chatSessions st))
               \<longrightarrow> (\<exists>pl. r = Inr pl)))"
proof -
  obtain r0 where t: "sendChatMessageTry env st u m n s = (r0, st')"
    and r: "r = (case r0 of Inl e \<Rightarrow> Inl (userFacingMessage e) | Inr pl \<Rightarrow> Inr pl)"
    using run by (cases "sendChatMessageTry env st u m n s")
      (auto simp: sendChatMessage_def split: sum.splits)
  note o = sendChatMessageTry_search_failure[OF user t sent fails fm]
  note o1 = conjunct1[OF o]
  note o2 = conjunct1[OF conjunct2[OF o], rule_format]
  note o3 = conjunct2[OF conjunct2[OF o], rule_format]
  have 2: "\<forall>e'. chatWithReplica env FallbackCall su fm = Inl e' \<longrightarrow> r = Inl (userFacingMessage e')"
  proof (intro allI impI)
    fix e'
    assume "chatWithReplica env FallbackCall su fm = Inl e'"
    from o2[OF this] show "r = Inl (userFacingMessage e')" unfolding r by simp
  qed
  have 3: "\<forall>rep. chatWithReplica env FallbackCall su fm = Inr rep \<longrightarrow>
            (\<forall>pl. r = Inr pl \<longrightarrow> pl_message pl = content rep) \<and>
            (newId env (map cs_id (chatSessions st)) \<notin> set (map cs_id (chatSessions st))
               \<longrightarrow> (\<exists>pl. r = Inr pl))"
  proof (intro allI impI)
    fix rep
    assume "chatWithReplica env FallbackCall su fm = Inr rep"
    from o3[OF this]
    show "(\<forall>pl. r = Inr pl \<longrightarrow> pl_message pl = content rep) \<and>
            (newId env (map cs_id (chatSessions st)) \<notin> set (map cs_id (chatSessions st))
               \<longrightarrow> (\<exists>pl. r = Inr pl))"
      unfolding r by (cases r0) auto
  qed
  from o1 2 3 show ?thesis by (intro conjI)
qed

lemma sendChatMessage_ai_failure:
  assumes user: "getOrCreateSensayUser env st u = (Inr su, st0)"
    and run: "sendChatMessage env st u m n s = (r, st')"
    and sent: "(site, p) \<in> set (sentInTurn st st')"
    and site: "site \<noteq> SearchCall"
    and fails: "chatWithReplica env site su p = Inl e"
  shows "r = Inl (userFacingMessage e) \<and> chatMessages st' = chatMessages st"
proof -
  obtain r0 where t: "sendChatMessageTry env st u m n s = (r0, st')"
    and r: "r = (case r0 of Inl e \<Rightarrow> Inl (userFacingMessage e) | Inr pl \<Rightarrow> Inr pl)"
    using run by (cases "sendChatMessageTry env st u m n s")
      (auto simp: sendChatMessage_def split: sum.splits)
  have r0: "r0 = Inl e"
    using sendChatMessageTry_ai_failure[OF user t sent site fails] .
  have a: "r = Inl (userFacingMessage e)" using r r0 by simp
  have b: "chatMessages st' = chatMessages st"
    using sendChatMessageTry_Inl_messages[of env st u m n s e st'] t r0 by simp
  from a b show ?thesis by (rule conjI)
qed

text \<open>
  Claim C4, amended.  When an AI call of the turn other than the one of the search branch
  fails (the system-action call, the plain call or the fallback call), the turn throws
  the user-facing message chosen for that error and no message is saved.  The message is
  chosen by the first test that holds: a timeout (code \<open>UND_ERR_CONNECT_TIMEOUT\<close> or name
  \<open>AbortError\<close>) gives a message with \<open>timed out\<close>; else \<open>fetch failed\<close> in the error
  message gives the message about the connection; else \<open>401\<close> or \<open>Unauthorized\<close> gives the
  message to log out and back in; else \<open>429\<close> or \<open>rate limit\<close> gives the message about too
  many requests; else the generic apology.  When the AI call of the search branch fails,
  the turn does not end there: the fallback call is made, and its answer decides the turn
  as that of any other call does; its error is reported, its reply is the message of the
  payload, which is returned unless the session cannot be created.
\<close>

theorem ai_failure_aborts:
  assumes "getOrCreateSensayUser env st u = (Inr su, st0)"
    and "sendChatMessage env st u m n s = (r, st')"
    and "fm = fallbackMessage m (conversationContextOf st n (tempSessionOf st u n s))"
  shows "(\<forall>site p e. (site, p) \<in> set (sentInTurn st st') \<and> site \<noteq> SearchCall \<and>
             chatWithReplica env site su p = Inl e
             \<longrightarrow> r = Inl (userFacingMessage e) \<and> chatMessages st' = chatMessages st) \<and>
         (\<forall>e. userFacingMessage e =
           (if e_code e = Some ''UND_ERR_CONNECT_TIMEOUT'' \<or> e_name e = ''AbortError''
            then ''The request timed out. The AI service might be busy. Please try again.''
            else if messageIncludes e ''fetch failed''
            then ''Unable to connect to the AI service. Please check your internet connection and try again.''
            else if messageIncludes e ''401'' \<or> messageIncludes e ''Unauthorized''
            then ''Authentication error. Please try logging out and back in.''
            else if messageIncludes e ''429'' \<or> messageIncludes e ''rate limit''
            then ''Too many requests. Please wait a moment before trying again.''
            else ''Sorry, I'' @ ap @ ''m having trouble connecting right now. Please try again in a moment.'')) \<and>
         includesStr ''The request timed out. The AI service might be busy. Please try again.''
           ''timed out'' \<and>
         includesStr ''Authentication error. Please try logging out and back in.''
           ''try logging out and back in'' \<and>
         includesStr ''Too many requests. Please wait a moment before trying again.''
           ''Too many requests'' \<and>
         (\<forall>p e. (SearchCall, p) \<in> set (sentInTurn st st') \<and>
             chatWithReplica env SearchCall su p = Inl e
             \<longrightarrow> (FallbackCall, fm) \<in> set (sentInTurn st st') \<and>
                 (\<forall>e'. chatWithReplica env FallbackCall su fm = Inl e'
                        \<longrightarrow> r = Inl (userFacingMessage e')) \<and>
                 (\<forall>rep. chatWithReplica env FallbackCall su fm = Inr rep \<longrightarrow>
                    (\<forall>pl. r = Inr pl \<longrightarrow> pl_message pl = content rep) \<and>
                    (newId env (map cs_id (chatSessions st)) \<notin> set (map cs_id (chatSessions st))
                       \<longrightarrow> (\<exists>pl. r = Inr pl))))"
proof -
  have a: "\<forall>site p e. (site, p) \<in> set (sentInTurn st st') \<and> site \<noteq> SearchCall \<and>
             chatWithReplica env site su p = Inl e
             \<longrightarrow> r = Inl (userFacingMessage e) \<and> chatMessages st' = chatMessages st"
  proof (intro allI impI)
    fix site p e
    assume h: "(site, p) \<in> set (sentInTurn st st') \<and> site \<noteq> SearchCall \<and>
             chatWithReplica env site su p = Inl e"
    show "r = Inl (userFacingMessage e) \<and> chatMessages st' = chatMessages st"
      by (rule sendChatMessage_ai_failure[OF assms(1,2) conjunct1[OF h]
            conjunct1[OF conjunct2[OF h]] conjunct2[OF conjunct2[OF h]]])
  qed
  have b: "\<forall>e. userFacingMessage e =
           (if e_code e = Some ''UND_ERR_CONNECT_TIMEOUT'' \<or> e_name e = ''AbortError''
            then ''The request timed out. The AI service might be busy. Please try again.''
            else if messageIncludes e ''fetch failed''
            then ''Unable to connect to the AI service. Please check your internet connection and try again.''
            else if messageIncludes e ''401'' \<or> messageIncludes e ''Unauthorized''
            then ''Authentication error. Please try logging out and back in.''
            else if messageIncludes e ''429'' \<or> messageIncludes e ''rate limit''
            then ''Too many requests. Please wait a moment before trying again.''
            else ''Sorry, I'' @ ap @ ''m having trouble connecting right now. Please try again in a moment.'')"
    by (simp add: userFacingMessage_def genericApology_def)
  have c: "\<forall>p e. (SearchCall, p) \<in> set (sentInTurn st st') \<and>
             chatWithReplica env SearchCall su p = Inl e
             \<longrightarrow> (FallbackCall, fm) \<in> set (sentInTurn st st') \<and>
                 (\<forall>e'. chatWithReplica env FallbackCall su fm = Inl e'
                        \<longrightarrow> r = Inl (userFacingMessage e')) \<and>
                 (\<forall>rep. chatWithReplica env FallbackCall su fm = Inr rep \<longrightarrow>
                    (\<forall>pl. r = Inr pl \<longrightarrow> pl_message pl = content rep) \<and>
                    (newId env (map cs_id (chatSessions st)) \<notin> set (map cs_id (chatSessions st))
                       \<longrightarrow> (\<exists>pl. r = Inr pl)))"
  proof (intro allI impI)
    fix p e
    assume h: "(SearchCall, p) \<in> set (sentInTurn st st') \<and>
             chatWithReplica env SearchCall su p = Inl e"
    show "(FallbackCall, fm) \<in> set (sentInTurn st st') \<and>
                 (\<forall>e'. chatWithReplica env FallbackCall su fm = Inl e'
                        \<longrightarrow> r = Inl (userFacingMessage e')) \<and>
                 (\<forall>rep. chatWithReplica env FallbackCall su fm = Inr rep \<longrightarrow>
                    (\<forall>pl. r = Inr pl \<longrightarrow> pl_message pl = content rep) \<and>
                    (newId env (map cs_id (chatSessions st)) \<notin> set (map cs_id (chatSessions st))
                       \<longrightarrow> (\<exists>pl. r = Inr pl)))"
      by (rule sendChatMessage_search_failure[OF assms(1,2) conjunct1[OF h] conjunct2[OF h]
            assms(3)])
  qed
  note ph = userFacingMessage_phrases
  from a b conjunct1[OF ph] conjunct1[OF conjunct2[OF ph]] conjunct2[OF conjunct2[OF ph]] c
  show ?thesis by (intro conjI)
qed

lemma searchAborts_fresh:
  "newId searchAbortsEnv (map cs_id (chatSessions shopState))
     \<notin> set (map cs_id (chatSessions shopState))"
  unfolding searchAbortsEnv_def by (rule shop_fresh)

theorem ai_failure_aborts_witness:
  "fst (sendChatMessage (testEnv (\<lambda>site. Inl abortError)) shopState ''u1'' ''hello'' True None)
     = Inl ''The request timed out. The AI service might be busy. Please try again.'' \<and>
   chatMessages (snd (sendChatMessage (testEnv (\<lambda>site. Inl abortError)) shopState ''u1'' ''hello''
                        True None)) = chatMessages shopState \<and>
   fst (sendChatMessage (testEnv (\<lambda>site. Inl (mkError ''HTTP 401 Unauthorized''))) shopState ''u1''
          ''hello'' True None)
     = Inl ''Authentication error. Please try logging out and back in.'' \<and>
   fst (sendChatMessage (testEnv (\<lambda>site. Inl (mkError ''429 Too Many Requests''))) shopState ''u1''
          ''hello'' True None)
     = Inl ''Too many requests. Please wait a moment before trying again.'' \<and>
   fst (sendChatMessage (testEnv (\<lambda>site. Inl (mkError ''socket hang up''))) shopState ''u1''
          ''hello'' True None)
     = Inl genericApology \<and>
   (FallbackCall,
    fallbackMessage ''show me shoes''
      (conversationContextOf shopState False (tempSessionOf shopState ''u1'' False (Some ''s1''))))
     \<in> set (sentInTurn shopState
          (snd (sendChatMessage searchAbortsEnv shopState ''u1'' ''show me shoes'' False (Some ''s1'')))) \<and>
   (\<exists>pl. fst (sendChatMessage searchAbortsEnv shopState ''u1'' ''show me shoes'' False (Some ''s1''))
            = Inr pl \<and> pl_message pl = ''Here you go'')"
proof -
  have sent: "(PlainCall, ''hello'')
      \<in> set (sentInTurn shopState (snd (sendChatMessage (testEnv ai) shopState ''u1'' ''hello'' True None)))"
    for ai by (simp add: hello_sent)
  have step: "fst (sendChatMessage (testEnv (\<lambda>site. Inl err)) shopState ''u1'' ''hello'' True None)
                = Inl (userFacingMessage err) \<and>
              chatMessages (snd (sendChatMessage (testEnv (\<lambda>site. Inl err)) shopState ''u1'' ''hello''
                        True None)) = chatMessages shopState" for err
  proof -
    note t = ai_failure_aborts[OF shop_user surjective_pairing refl,
        of "\<lambda>site. Inl err" "''hello''" True None, THEN conjunct1, rule_format]
    have h: "(PlainCall, ''hello'')
        \<in> set (sentInTurn shopState
             (snd (sendChatMessage (testEnv (\<lambda>site. Inl err)) shopState ''u1'' ''hello'' True None))) \<and>
        PlainCall \<noteq> SearchCall \<and>
        chatWithReplica (testEnv (\<lambda>site. Inl err)) PlainCall ''sensay-1'' ''hello'' = Inl err"
      by (simp add: sent)
    from t[OF h] show ?thesis .
  qed
  let ?cc = "conversationContextOf shopState False (tempSessionOf shopState ''u1'' False (Some ''s1''))"
  let ?run = "sendChatMessage searchAbortsEnv shopState ''u1'' ''show me shoes'' False (Some ''s1'')"
  note s = ai_failure_aborts[OF searchAborts_user surjective_pairing refl,
      of "''show me shoes''" False "Some ''s1''",
      THEN conjunct2, THEN conjunct2, THEN conjunct2, THEN conjunct2, THEN conjunct2, rule_format]
  have sc: "(SearchCall, enhancedSearchMessage searchAbortsEnv ''show me shoes'' ?cc [])
      \<in> set (sentInTurn shopState (snd ?run)) \<and>
      chatWithReplica searchAbortsEnv SearchCall ''sensay-1''
        (enhancedSearchMessage searchAbortsEnv ''show me shoes'' ?cc []) = Inl abortError"
    using searchAborts_turn by (simp add: searchAborts_ai)
  note s' = s[OF sc]
  have fb: "(FallbackCall, fallbackMessage ''show me shoes'' ?cc) \<in> set (sentInTurn shopState (snd ?run))"
    by (rule conjunct1[OF s'])
  have ok: "chatWithReplica searchAbortsEnv FallbackCall ''sensay-1''
              (fallbackMessage ''show me shoes'' ?cc) = Inr \<lparr>content = ''Here you go''\<rparr>"
    by (simp add: searchAborts_ai okReply_def)
  note s3 = conjunct2[OF conjunct2[OF s'], rule_format, OF ok]
  from conjunct2[OF s3, rule_format, OF searchAborts_fresh] obtain pl where
    pl: "fst ?run = Inr pl" by (rule exE)
  from conjunct1[OF s3, rule_format, OF pl] have "pl_message pl = ''Here you go''" by simp
  with pl have rt: "\<exists>pl. fst ?run = Inr pl \<and> pl_message pl = ''Here you go''" by blast
  from step[of abortError] step[of "mkError ''HTTP 401 Unauthorized''"]
    step[of "mkError ''429 Too Many Requests''"] step[of "mkError ''socket hang up''"]
    userFacingMessage_examples fb rt
  show ?thesis by simp
qed

section \<open>Plain chat: the prompt and the answer\<close>

lemma sendChatMessage_plain_outcome:
  assumes plain: "\<not> needsSystemAction m" "\<not> isProductSearch m"
    and user: "getOrCreateSensayUser env st u = (Inr su, st0)"
    and run: "sendChatMessage env st u m n s = (r, st')"
    and pr: "prompt = contextualMessage m (conversationContextOf st n (tempSessionOf st u n s))"
  shows "(\<forall>e. chatWithReplica env PlainCall su prompt = Inl e \<longrightarrow> r = Inl (userFacingMessage e)) \<and>
         (\<forall>rep. chatWithReplica env PlainCall su prompt = Inr rep \<longrightarrow>
            (\<forall>pl. r = Inr pl \<longrightarrow> pl_message pl = content rep \<and> pl_shopifyProducts pl = None) \<and>
            (newId env (map cs_id (chatSessions st)) \<notin> set (map cs_id (chatSessions st))
               \<longrightarrow> (\<exists>pl. r = Inr pl)))"
proof -
  obtain r0 where t: "sendChatMessageTry env st u m n s = (r0, st')"
    and r: "r = (case r0 of Inl e \<Rightarrow> Inl (userFacingMessage e) | Inr pl \<Rightarrow> Inr pl)"
    using run by (cases "sendChatMessageTry env st u m n s")
      (auto simp: sendChatMessage_def split: sum.splits)
  note o = sendChatMessageTry_plain_outcome[OF plain user t pr]
  note o1 = conjunct1[OF o, rule_format]
  note o2 = conjunct2[OF o, rule_format]
  have 1: "\<forall>e. chatWithReplica env PlainCall su prompt = Inl e \<longrightarrow> r = Inl (userFacingMessage e)"
  proof (intro allI impI)
    fix e
    assume "chatWithReplica env PlainCall su prompt = Inl e"
    from o1[OF this] show "r = Inl (userFacingMessage e)" unfolding r by simp
  qed
  have 2: "\<forall>rep. chatWithReplica env PlainCall su prompt = Inr rep \<longrightarrow>
            (\<forall>pl. r = Inr pl \<longrightarrow> pl_message pl = content rep \<and> pl_shopifyProducts pl = None) \<and>
            (newId env (map cs_id (chatSessions st)) \<notin> set (map cs_id (chatSessions st))
               \<longrightarrow> (\<exists>pl. r = Inr pl))"
  proof (intro allI impI)
    fix rep
    assume "chatWithReplica env PlainCall su prompt = Inr rep"
    from o2[OF this]
    show "(\<forall>pl. r = Inr pl \<longrightarrow> pl_message pl = content rep \<and> pl_shopifyProducts pl = None) \<and>
            (newId env (map cs_id (chatSessions st)) \<notin> set (map cs_id (chatSessions st))
               \<longrightarrow> (\<exists>pl. r = Inr pl))"
      unfolding r by (cases r0) auto
  qed
  from 1 2 show ?thesis by (rule conjI)
qed

lemma hello_flags:
  "\<not> isPurchaseIntent ''hello'' \<and> \<not> isHistoryInquiry ''hello'' \<and>
   \<not> isSpecificProductHistoryInquiry ''hello'' \<and> \<not> isCartManagement ''hello'' \<and>
   \<not> hasSpecificIntent ''hello'' \<and> \<not> hasDetailedRequirements ''hello'' \<and>
   \<not> isAnsweringQuestions ''hello'' \<and> \<not> isFollowUpQuestion ''hello''"
  by code_simp

lemma shop_plain_sent:
  "sentInTurn shopState
     (snd (sendChatMessage (testEnv ai) shopState ''u1'' ''hello'' False (Some ''s1'')))
   = [(PlainCall,
       contextualMessage ''hello''
         (conversationContextOf shopState False (tempSessionOf shopState ''u1'' False (Some ''s1''))))]"
proof -
  have "aiLog (snd (sendChatMessageTry (testEnv ai) shopState ''u1'' ''hello'' False (Some ''s1''))) =
          aiLog shopState @
          [(PlainCall, contextualMessage ''hello''
             (conversationContextOf shopState False
                (tempSessionOf shopState ''u1'' False (Some ''s1''))))]"
    by (rule sendChatMessageTry_plain_log[OF conjunct1[OF hello_plain] conjunct2[OF hello_plain]
        shop_user surjective_pairing])
  then show ?thesis by (simp add: sentInTurn_def sendChatMessage_snd)
qed

text \<open>
  Claim C9 as stated fails when there is conversation context: the prompt is not the
  message with the context only, a note to the AI follows the context.  In the turn below
  the message \<open>hello\<close> matches no keyword or phrase list and the session has two messages.
\<close>

theorem plain_chat_counterexample:
  "\<not> needsSystemAction ''hello'' \<and> \<not> isProductSearch ''hello'' \<and>
   conversationContextOf shopState False (tempSessionOf shopState ''u1'' False (Some ''s1'')) =
     nl @ nl @ ''[CONVERSATION CONTEXT - Last 15 messages for context:]'' @ nl @
     ''User: hello'' @ nl @ ''Assistant: Here is a tee'' @ nl @ ''[END CONTEXT]'' @ nl \<and>
   sentInTurn shopState
     (snd (sendChatMessage (testEnv (\<lambda>site. okReply ''Hi'')) shopState ''u1'' ''hello'' False
             (Some ''s1'')))
     = [(PlainCall,
         ''hello'' @
         (nl @ nl @ ''[CONVERSATION CONTEXT - Last 15 messages for context:]'' @ nl @
          ''User: hello'' @ nl @ ''Assistant: Here is a tee'' @ nl @ ''[END CONTEXT]'' @ nl) @
         nl @ nl @ ''[SYSTEM: Use the conversation context above to provide relevant and contextual responses. Remember what the user was previously discussing.]'')] \<and>
   ''hello'' @
     (nl @ nl @ ''[CONVERSATION CONTEXT - Last 15 messages for context:]'' @ nl @
      ''User: hello'' @ nl @ ''Assistant: Here is a tee'' @ nl @ ''[END CONTEXT]'' @ nl) @
     nl @ nl @ ''[SYSTEM: Use the conversation context above to provide relevant and contextual responses. Remember what the user was previously discussing.]''
   \<noteq> ''hello'' @
     (nl @ nl @ ''[CONVERSATION CONTEXT - Last 15 messages for context:]'' @ nl @
      ''User: hello'' @ nl @ ''Assistant: Here is a tee'' @ nl @ ''[END CONTEXT]'' @ nl)"
proof -
  have s: "sentInTurn shopState
     (snd (sendChatMessage (testEnv (\<lambda>site. okReply ''Hi'')) shopState ''u1'' ''hello'' False
             (Some ''s1'')))
     = [(PlainCall,
         ''hello'' @
         (nl @ nl @ ''[CONVERSATION CONTEXT - Last 15 messages for context:]'' @ nl @
          ''User: hello'' @ nl @ ''Assistant: Here is a tee'' @ nl @ ''[END CONTEXT]'' @ nl) @
         nl @ nl @ ''[SYSTEM: Use the conversation context above to provide relevant and contextual responses. Remember what the user was previously discussing.]'')]"
    unfolding shop_plain_sent shop_context by (simp add: contextualMessage_def nl_def)
  from hello_plain shop_context s show ?thesis by simp
qed

text \<open>
  Claim C9, amended.  A message that matches none of the keyword and phrase lists needs no
  system action and starts no product search: the system data is empty and exactly one
  call is made to the AI service.  Its prompt is the message followed by the conversation
  context and, when that context is not empty, by the note that asks the AI to use it;
  without context the prompt is the message itself.  The answer to this call decides the
  turn: its error is reported to the user, its reply is the message of the payload, with
  no products, and the payload is returned unless the session cannot be created.
\<close>

theorem plain_chat_prompt:
  assumes "\<not> isPurchaseIntent m" and "\<not> isHistoryInquiry m"
    and "\<not> isSpecificProductHistoryInquiry m" and "\<not> isCartManagement m"
    and "\<not> hasSpecificIntent m" and "\<not> hasDetailedRequirements m"
    and "\<not> isAnsweringQuestions m" and "\<not> isFollowUpQuestion m"
    and "getOrCreateSensayUser env st u = (Inr su, st0)"
    and "sendChatMessage env st u m n s = (r, st')"
    and "cc = conversationContextOf st n (tempSessionOf st u n s)"
    and "prompt = m @ cc @
           (if cc \<noteq> []
            then nl @ nl @ ''[SYSTEM: Use the conversation context above to provide relevant and contextual responses. Remember what the user was previously discussing.]''
            else [])"
  shows "\<not> needsSystemAction m \<and> \<not> isProductSearch m \<and>
         systemDataOf env st u m (tempSessionOf st u n s) = [] \<and>
         systemContextOf env st u m (tempSessionOf st u n s) = [] \<and>
         aiLog st' = aiLog st @ [(PlainCall, prompt)] \<and>
         (cc = [] \<longrightarrow> prompt = m) \<and>
         (\<forall>e. chatWithReplica env PlainCall su prompt = Inl e \<longrightarrow> r = Inl (userFacingMessage e)) \<and>
         (\<forall>rep. chatWithReplica env PlainCall su prompt = Inr rep \<longrightarrow>
            (\<forall>pl. r = Inr pl \<longrightarrow> pl_message pl = content rep \<and> pl_shopifyProducts pl = None) \<and>
            (newId env (map cs_id (chatSessions st)) \<notin> set (map cs_id (chatSessions st))
               \<longrightarrow> (\<exists>pl. r = Inr pl)))"
proof -
  have p1: "\<not> needsSystemAction m" using assms(1-4) by (simp add: needsSystemAction_def)
  have p2: "\<not> isProductSearch m" using assms(5-8) by (simp add: isProductSearch_def)
  have pr: "prompt = contextualMessage m (conversationContextOf st n (tempSessionOf st u n s))"
    unfolding assms(12) assms(11) contextualMessage_def ..
  obtain r0 where "sendChatMessageTry env st u m n s = (r0, st')"
    using assms(10) by (cases "sendChatMessageTry env st u m n s")
      (auto simp: sendChatMessage_def split: sum.splits)
  from sendChatMessageTry_plain_log[OF p1 p2 assms(9) this]
  have lg: "aiLog st' = aiLog st @ [(PlainCall, prompt)]" unfolding pr .
  have sd: "systemDataOf env st u m (tempSessionOf st u n s) = []"
    using p1 by (simp add: systemDataOf_def)
  have sc: "systemContextOf env st u m (tempSessionOf st u n s) = []"
    using p1 by (simp add: systemContextOf_def)
  have e: "cc = [] \<longrightarrow> prompt = m" unfolding assms(12) by simp
  note o = sendChatMessage_plain_outcome[OF p1 p2 assms(9,10) pr]
  from p1 p2 sd sc lg e conjunct1[OF o] conjunct2[OF o] show ?thesis by (intro conjI)
qed

theorem plain_chat_prompt_witness:
  "aiLog (snd (sendChatMessage (testEnv (\<lambda>site. okReply ''Hi'')) shopState ''u1'' ''hello'' True None))
     = [(PlainCall, ''hello'')] \<and>
   (\<exists>pl. fst (sendChatMessage (testEnv (\<lambda>site. okReply ''Hi'')) shopState ''u1'' ''hello'' True None)
            = Inr pl \<and> pl_message pl = ''Hi'' \<and> pl_shopifyProducts pl = None) \<and>
   fst (sendChatMessage (testEnv (\<lambda>site. Inl abortError)) shopState ''u1'' ''hello'' True None)
     = Inl ''The request timed out. The AI service might be busy. Please try again.'' \<and>
   aiLog (snd (sendChatMessage (testEnv (\<lambda>site. okReply ''Hi'')) shopState ''u1'' ''hello'' False
                 (Some ''s1'')))
     = [(PlainCall,
         ''hello'' @ nl @ nl @ ''[CONVERSATION CONTEXT - Last 15 messages for context:]'' @ nl @
         ''User: hello'' @ nl @ ''Assistant: Here is a tee'' @ nl @ ''[END CONTEXT]'' @ nl @
         nl @ nl @ ''[SYSTEM: Use the conversation context above to provide relevant and contextual responses. Remember what the user was previously discussing.]'')]"
proof -
  let ?E = "testEnv (\<lambda>site. okReply ''Hi'')"
  let ?A = "testEnv (\<lambda>site. Inl abortError)"
  note f = hello_flags
  note pc = plain_chat_prompt[OF conjunct1[OF f] conjunct1[OF conjunct2[OF f]]
      conjunct1[OF conjunct2[OF conjunct2[OF f]]]
      conjunct1[OF conjunct2[OF conjunct2[OF conjunct2[OF f]]]]
      conjunct1[OF conjunct2[OF conjunct2[OF conjunct2[OF conjunct2[OF f]]]]]
      conjunct1[OF conjunct2[OF conjunct2[OF conjunct2[OF conjunct2[OF conjunct2[OF f]]]]]]
      conjunct1[OF conjunct2[OF conjunct2[OF conjunct2[OF conjunct2[OF conjunct2[OF conjunct2[OF f]]]]]]]
      conjunct2[OF conjunct2[OF conjunct2[OF conjunct2[OF conjunct2[OF conjunct2[OF conjunct2[OF f]]]]]]]
      shop_user surjective_pairing]
  have e: "aiLog shopState = []" by (simp add: shopState_def)
  have c0: "conversationContextOf shopState True (tempSessionOf shopState ''u1'' True None) = []"
    by (simp add: conversationContextOf_def)
  have p0: "''hello'' = ''hello'' @ [] @ (if ([]::string) \<noteq> [] then nl @ nl @ ''[SYSTEM: Use the conversation context above to provide relevant and contextual responses. Remember what the user was previously discussing.]'' else [])"
    by simp
  note new = pc[OF c0[symmetric] p0, of "\<lambda>site. okReply ''Hi''"]
  have a: "aiLog (snd (sendChatMessage ?E shopState ''u1'' ''hello'' True None)) = [(PlainCall, ''hello'')]"
    using new e by simp
  have ok: "chatWithReplica ?E PlainCall ''sensay-1'' ''hello'' = Inr \<lparr>content = ''Hi''\<rparr>"
    by (simp add: okReply_def)
  have b: "\<exists>pl. fst (sendChatMessage ?E shopState ''u1'' ''hello'' True None) = Inr pl \<and>
             pl_message pl = ''Hi'' \<and> pl_shopifyProducts pl = None"
    using new ok shop_fresh[of "\<lambda>site. okReply ''Hi''"] by auto
  note ab = pc[OF c0[symmetric] p0, of "\<lambda>site. Inl abortError"]
  have fl: "chatWithReplica ?A PlainCall ''sensay-1'' ''hello'' = Inl abortError" by simp
  have c: "fst (sendChatMessage ?A shopState ''u1'' ''hello'' True None)
     = Inl ''The request timed out. The AI service might be busy. Please try again.''"
    using ab fl conjunct1[OF userFacingMessage_examples] by auto
  have d: "aiLog (snd (sendChatMessage ?E shopState ''u1'' ''hello'' False (Some ''s1'')))
     = [(PlainCall,
         ''hello'' @ nl @ nl @ ''[CONVERSATION CONTEXT - Last 15 messages for context:]'' @ nl @
         ''User: hello'' @ nl @ ''Assistant: Here is a tee'' @ nl @ ''[END CONTEXT]'' @ nl @
         nl @ nl @ ''[SYSTEM: Use the conversation context above to provide relevant and contextual responses. Remember what the user was previously discussing.]'')]"
    using pc[OF shop_context[symmetric] refl, of "\<lambda>site. okReply ''Hi''"] e
    by (simp add: nl_def)
  from a b c d show ?thesis by (intro conjI)
qed

end
